(* ===== verification/Prelude.thy ===== *)
theory Prelude
  imports Complex_Main "HOL-Library.Word" "HOL-Library.State_Monad" "HOL-Library.Multiset" "HOL-Library.Sublist"
begin

text \<open>
  Shared vocabulary of the development: what the sources use of Go itself and of its standard
  library (fixed-width integers, \<^verbatim>\<open>error\<close> values, panics, \<^verbatim>\<open>strings.*\<close>, \<^verbatim>\<open>fmt\<close> verbs,
  maps with a zero value for missing keys, \<^verbatim>\<open>time.Time\<close>), the list combinators of
  \<^verbatim>\<open>samber/lo\<close>, and the generic lemmas the component theories share. Effects are modelled in the
  state monad of \<open>HOL-Library.State_Monad\<close>.
\<close>

named_theorems go_simps \<open>rewrite rules for running effectful code\<close>
named_theorems go_str \<open>rewrite rules for string functions\<close>

section \<open>Integers, time, errors\<close>

type_synonym int32 = "32 word"
type_synonym int64 = "64 word"

text \<open>
  A \<^verbatim>\<open>time.Time\<close> is its number of nanoseconds since the zero time (year 1), so \<^verbatim>\<open>IsZero\<close> is
  equality with 0. A \<^verbatim>\<open>time.Duration\<close> is a number of nanoseconds.
\<close>
type_synonym gotime = int
type_synonym duration = int

definition second_ns :: duration where
  "second_ns = 1000000000"

datatype api_reason = ReasonNotFound | ReasonAlreadyExists | ReasonConflict | ReasonOther

datatype go_error = PlainError string | ApiError api_reason string

fun error_text :: "go_error \<Rightarrow> string" where
  "error_text (PlainError m) = m"
| "error_text (ApiError r m) = m"

fun IsNotFound :: "go_error \<Rightarrow> bool" where
  "IsNotFound (ApiError ReasonNotFound m) = True"
| "IsNotFound e = False"

fun IsAlreadyExists :: "go_error \<Rightarrow> bool" where
  "IsAlreadyExists (ApiError ReasonAlreadyExists m) = True"
| "IsAlreadyExists e = False"

text \<open>A call either returns or panics; a panic unwinds every caller of this program.\<close>
datatype 'a outcome = Done 'a | Panicked string

section \<open>Strings\<close>

definition TrimPrefix :: "string \<Rightarrow> string \<Rightarrow> string" where
  "TrimPrefix s p = (if prefix p s then drop (length p) s else s)"

definition is_space :: "char \<Rightarrow> bool" where
  "is_space c \<longleftrightarrow> c \<in> {CHR '' '', CHR 0x09, CHR 0x0A, CHR 0x0B, CHR 0x0C, CHR 0x0D}"

text \<open>\<^verbatim>\<open>strings.TrimSpace\<close>, for the ASCII white space.\<close>
definition TrimSpace :: "string \<Rightarrow> string" where
  "TrimSpace s = rev (dropWhile is_space (rev (dropWhile is_space s)))"

fun str_contains :: "string \<Rightarrow> string \<Rightarrow> bool" where
  "str_contains [] sub = (sub = [])"
| "str_contains (c # cs) sub = (prefix sub (c # cs) \<or> str_contains cs sub)"

text \<open>
  \<^verbatim>\<open>strings.Split\<close> for a non-empty separator; the accumulator holds the current field, reversed.
  With an empty separator Go splits into characters, a case the sources never use; the guard
  \<open>sep = []\<close> only makes the recursion well-founded.
\<close>
function split_from :: "string \<Rightarrow> string \<Rightarrow> string \<Rightarrow> string list" where
  "split_from sep acc [] = [rev acc]"
| "split_from sep acc (c # cs) =
     (if sep \<noteq> [] \<and> prefix sep (c # cs)
      then rev acc # split_from sep [] (drop (length sep) (c # cs))
      else split_from sep (c # acc) cs)"
  by pat_completeness auto
termination
  by (relation "measure (\<lambda>(sep, acc, s). length s)") (auto simp: diff_less_Suc neq_Nil_conv)

definition str_split :: "string \<Rightarrow> string \<Rightarrow> string list" where
  "str_split s sep = split_from sep [] s"

text \<open>\<^verbatim>\<open>strings.ReplaceAll\<close> for a non-empty pattern: leftmost, non-overlapping occurrences.\<close>
function ReplaceAll :: "string \<Rightarrow> string \<Rightarrow> string \<Rightarrow> string" where
  "ReplaceAll [] old new = []"
| "ReplaceAll (c # cs) old new =
     (if old \<noteq> [] \<and> prefix old (c # cs)
      then new @ ReplaceAll (drop (length old) (c # cs)) old new
      else c # ReplaceAll cs old new)"
  by pat_completeness auto
termination
  by (relation "measure (\<lambda>(s, old, new). length s)") (auto simp: diff_less_Suc neq_Nil_conv)

fun str_join :: "string list \<Rightarrow> string \<Rightarrow> string" where
  "str_join [] sep = []"
| "str_join [x] sep = x"
| "str_join (x # y # ys) sep = x @ sep @ str_join (y # ys) sep"

definition digit :: "int \<Rightarrow> char" where
  "digit i = char_of (48 + i)"

function digits_string :: "int \<Rightarrow> string" where
  "digits_string i = (if i < 10 then [digit i] else digits_string (i div 10) @ [digit (i mod 10)])"
  by auto
termination
  by (relation "measure nat") auto

declare digits_string.simps [simp del]

text \<open>The verb \<^verbatim>\<open>%d\<close> and \<^verbatim>\<open>strconv.Itoa\<close>.\<close>
definition int_string :: "int \<Rightarrow> string" where
  "int_string i = (if i < 0 then ''-'' @ digits_string (- i) else digits_string i)"

text \<open>The verb \<^verbatim>\<open>%v\<close> on a bool and on a slice of strings.\<close>
definition bool_string :: "bool \<Rightarrow> string" where
  "bool_string b = (if b then ''true'' else ''false'')"

definition strings_string :: "string list \<Rightarrow> string" where
  "strings_string xs = ''['' @ str_join xs '' '' @ '']''"

section \<open>Maps and lists\<close>

text \<open>
  A Go \<^verbatim>\<open>map[string]string\<close> is an association list with distinct keys, in some iteration order;
  a nil map is \<open>None\<close>. Reading a missing key gives the zero value.
\<close>
type_synonym 'v gomap = "(string \<times> 'v) list option"

definition map_entries :: "'v gomap \<Rightarrow> (string \<times> 'v) list" where
  "map_entries m = (case m of None \<Rightarrow> [] | Some kvs \<Rightarrow> kvs)"

definition map_get :: "string gomap \<Rightarrow> string \<Rightarrow> string" where
  "map_get m k = (case map_of (map_entries m) k of None \<Rightarrow> [] | Some v \<Rightarrow> v)"

text \<open>\<^verbatim>\<open>lo.FindIndexOf\<close>: the position of the first element that satisfies the predicate.\<close>
fun find_index_of :: "('a \<Rightarrow> bool) \<Rightarrow> 'a list \<Rightarrow> nat option" where
  "find_index_of P [] = None"
| "find_index_of P (x # xs) = (if P x then Some 0 else map_option Suc (find_index_of P xs))"

text \<open>\<^verbatim>\<open>lo.Without\<close> and \<^verbatim>\<open>lo.SliceToMap\<close> (a later element replaces an earlier one).\<close>
definition Without :: "'a list \<Rightarrow> 'a list \<Rightarrow> 'a list" where
  "Without xs excl = filter (\<lambda>x. x \<notin> set excl) xs"

definition SliceToMap :: "'a list \<Rightarrow> ('a \<Rightarrow> 'k \<times> 'v) \<Rightarrow> ('k \<rightharpoonup> 'v)" where
  "SliceToMap xs f = foldl (\<lambda>m x. m(fst (f x) \<mapsto> snd (f x))) Map.empty xs"

section \<open>Lemmas on strings\<close>

lemma str_contains_iff: "str_contains s sub \<longleftrightarrow> (\<exists>a b. s = a @ sub @ b)"
proof (induction s)
  case Nil
  show ?case by auto
next
  case (Cons c cs)
  have "(\<exists>a b. c # cs = a @ sub @ b) \<longleftrightarrow> prefix sub (c # cs) \<or> (\<exists>a b. cs = a @ sub @ b)"
    by (auto simp: prefix_def Cons_eq_append_conv)
  with Cons show ?case by simp
qed

lemma str_contains_append [go_str]: "str_contains (a @ sub @ b) sub"
  by (auto simp: str_contains_iff)

lemma split_from_nonempty [simp]: "split_from sep acc s \<noteq> []"
  by (induction sep acc s rule: split_from.induct) auto

lemma split_from_length:
  "sep \<noteq> [] \<Longrightarrow> (1 < length (split_from sep acc s)) = str_contains s sep"
proof (induction sep acc s rule: split_from.induct)
  case (1 sep acc)
  then show ?case by simp
next
  case (2 sep acc c cs)
  show ?case
  proof (cases "prefix sep (c # cs)")
    case True
    with 2 show ?thesis
      by (cases "split_from sep [] (drop (length sep) (c # cs))") auto
  next
    case False
    with 2 show ?thesis by simp
  qed
qed

lemma split_from_no_sep: "\<not> str_contains s sep \<Longrightarrow> split_from sep acc s = [rev acc @ s]"
  by (induction sep acc s rule: split_from.induct) auto

section \<open>Lemmas on maps\<close>

text \<open>A Go map read back through its keys in any order is the same map.\<close>
lemma map_of_keys:
  assumes "set ks = fst ` set m"
  shows "map_of (map (\<lambda>k. (k, the (map_of m k))) ks) = map_of m"
proof (rule ext)
  fix k
  show "map_of (map (\<lambda>k. (k, the (map_of m k))) ks) k = map_of m k"
  proof (cases "k \<in> set ks")
    case True
    then obtain v where "map_of m k = Some v" using assms by (metis map_of_eq_None_iff not_None_eq)
    with True show ?thesis by (simp add: map_of_map_restrict restrict_map_def)
  next
    case False
    then show ?thesis using assms map_of_eq_None_iff [of m k] by (simp add: map_of_map_restrict restrict_map_def)
  qed
qed

section \<open>Lemmas on decimal numbers\<close>

lemma digit_inj: "0 \<le> i \<Longrightarrow> i < 10 \<Longrightarrow> 0 \<le> j \<Longrightarrow> j < 10 \<Longrightarrow> digit i = digit j \<Longrightarrow> i = j"
  unfolding digit_def by (drule arg_cong [where f = "of_char :: char \<Rightarrow> int"]) simp

lemma digit_not_minus: "0 \<le> i \<Longrightarrow> i < 10 \<Longrightarrow> digit i \<noteq> CHR ''-''"
  unfolding digit_def by (auto dest!: arg_cong [where f = "of_char :: char \<Rightarrow> int"])

lemma digits_no_minus: "0 \<le> i \<Longrightarrow> CHR ''-'' \<notin> set (digits_string i)"
proof (induction i rule: digits_string.induct)
  case (1 i)
  then show ?case using digit_not_minus [of i] digit_not_minus [of "i mod 10"]
    by (subst digits_string.simps) auto
qed

lemma digits_nonempty [simp]: "digits_string i \<noteq> []" "[] \<noteq> digits_string i"
  by (subst digits_string.simps, simp)+

lemma digits_inj: "0 \<le> i \<Longrightarrow> 0 \<le> j \<Longrightarrow> digits_string i = digits_string j \<Longrightarrow> i = j"
proof (induction i arbitrary: j rule: digits_string.induct)
  case (1 i)
  have step: "digits_string k = (if k < 10 then [digit k] else digits_string (k div 10) @ [digit (k mod 10)])" for k
    by (rule digits_string.simps)
  show ?case
  proof (cases "i < 10")
    case True
    then have "j < 10" using "1.prems"(3) step [of i] step [of j] by (auto split: if_splits)
    then show ?thesis using True "1.prems" step [of i] step [of j] digit_inj by simp
  next
    case False
    then have j: "\<not> j < 10" using "1.prems"(3) step [of i] step [of j] by (auto split: if_splits)
    have eq: "digits_string (i div 10) = digits_string (j div 10)" "digit (i mod 10) = digit (j mod 10)"
      using False j "1.prems"(3) step [of i] step [of j] by auto
    have "i div 10 = j div 10" using "1.IH" [OF False _ _ eq(1)] "1.prems" by (simp add: pos_imp_zdiv_nonneg_iff)
    moreover have "i mod 10 = j mod 10" using digit_inj [OF _ _ _ _ eq(2)] by simp
    ultimately show ?thesis by (metis div_mult_mod_eq)
  qed
qed

end
