(* ===== verification/ApiTypes.thy ===== *)
theory ApiTypes
  imports Prelude "HOL-Library.Char_ord" "HOL-Library.List_Lexorder"
begin

text \<open>
  The data of the program: the custom resources of \<^verbatim>\<open>api/v1alpha1\<close> (\<^verbatim>\<open>SnapshotPod\<close> and
  \<^verbatim>\<open>SnapshotPodTask\<close>, with their specs and statuses, field by field), the label of
  \<^verbatim>\<open>pkg/apis/snapshotpod/v1alpha1\<close>, and those fields of the Kubernetes types (object metadata,
  conditions, pods, secrets) that the sources read or write. String-typed enumerations are
  datatypes with one constructor per declared constant and one for any other string.
\<close>

section \<open>Kubernetes types\<close>

record owner_reference =
  or_APIVersion :: string
  or_Kind :: string
  or_Name :: string
  or_UID :: string
  or_Controller :: bool

record group_version =
  gv_Group :: string
  gv_Version :: string

text \<open>The resource version is opaque to clients; only equality of versions matters.\<close>
record object_meta =
  om_Name :: string
  om_Namespace :: string
  om_UID :: string
  om_ResourceVersion :: nat
  om_Labels :: "string gomap"
  om_OwnerReferences :: "owner_reference list"
  om_CreationTimestamp :: gotime
  om_DeletionTimestamp :: "gotime option"

datatype condition_status = ConditionTrue | ConditionFalse | ConditionUnknown

record condition =
  cond_Type :: string
  cond_Status :: condition_status
  cond_Reason :: string
  cond_Message :: string
  cond_LastTransitionTime :: gotime

record pod_container =
  pc_Name :: string
  pc_Image :: string

record container_status =
  cs_Name :: string
  cs_Image :: string
  cs_ContainerID :: string

datatype pod_phase = PodRunning | PodPhaseOther string

record pod =
  pod_meta :: object_meta
  pod_Containers :: "pod_container list"
  pod_ImagePullSecrets :: "string list"
  pod_NodeName :: string
  pod_Phase :: pod_phase
  pod_ContainerStatuses :: "container_status list"

record secret =
  sec_Data :: "string gomap"

section \<open>SnapshotPod\<close>

definition SnapshotNameLabel :: string where
  "SnapshotNameLabel = ''snapshot-pod.baizeai.io/name''"

definition GroupVersion :: group_version where
  "GroupVersion = \<lparr>gv_Group = ''snapshot-pod.baizeai.io'', gv_Version = ''v1alpha1''\<rparr>"

record TargetPod =
  tp_Name :: string
  tp_Selector :: "string gomap"
  tp_Containers :: "string list"

record CommitOptions =
  co_PauseContainer :: bool
  co_Timeout :: string
  co_Message :: string
  co_Author :: string

record ImageSaveOptions =
  iso_ImageRefFormat :: string
  iso_RegistrySecretRef :: string
  iso_AppendSnappedSuffix :: "bool option"
  iso_MaxRetries :: int32
  iso_RetryDelaySeconds :: int32

record AutoSaveOptions =
  aso_AutoSaveOnTermination :: bool
  aso_Cron :: string

record SnapshotPodSpec =
  sps_Target :: TargetPod
  sps_CommitOptions :: CommitOptions
  sps_ImageSaveOptions :: ImageSaveOptions
  sps_AutoSaveOptions :: AutoSaveOptions
  sps_TriggerRound :: int32
  sps_RecoveryRound :: int32

datatype SnapshotRunningResult =
    ResultCreated
  | ResultRunning
  | ResultFailed
  | ResultSuccess
  | ResultOther string

record SnapshotRunningStatus =
  srs_TriggerRound :: int32
  srs_TriggerTime :: gotime
  srs_TaskName :: string
  srs_ImageRef :: string
  srs_ContainerName :: string
  srs_Result :: SnapshotRunningResult
  srs_FailedReason :: string
  srs_CompletedAt :: "gotime option"

record SnapshotPodStatus =
  spst_Snapshots :: "SnapshotRunningStatus list"
  spst_Conditions :: "condition list"
  spst_LastTriggerRound :: int32

record SnapshotPod =
  sp_meta :: object_meta
  sp_Spec :: SnapshotPodSpec
  sp_Status :: SnapshotPodStatus

section \<open>SnapshotPodTask\<close>

record SnapshotPodTaskSpec =
  spts_NodeName :: string
  spts_PodName :: string
  spts_ContainerID :: string
  spts_CommitOptions :: CommitOptions
  spts_OriginImage :: string
  spts_OriginRegistrySecretRef :: string
  spts_CommitImage :: string
  spts_RegistrySecretRef :: string
  spts_MaxRetries :: int32
  spts_RetryDelaySeconds :: int32

datatype SnapshotPodTaskPhase =
    PhaseCreated
  | PhaseFailed
  | PhaseCompleted
  | PhaseOther string

record SnapshotPodTaskStatus =
  sptst_Conditions :: "condition list"
  sptst_Phase :: SnapshotPodTaskPhase
  sptst_RetryCount :: int32
  sptst_LastRetryTime :: "gotime option"

record SnapshotPodTask =
  spt_meta :: object_meta
  spt_Spec :: SnapshotPodTaskSpec
  spt_Status :: SnapshotPodTaskStatus

text \<open>The zero value of a task status, as a freshly created task carries it.\<close>
definition empty_task_status :: SnapshotPodTaskStatus where
  "empty_task_status = \<lparr>sptst_Conditions = [], sptst_Phase = PhaseOther [],
     sptst_RetryCount = 0, sptst_LastRetryTime = None\<rparr>"

text \<open>The wire form of the string-typed constants.\<close>
fun phase_string :: "SnapshotPodTaskPhase \<Rightarrow> string" where
  "phase_string PhaseCreated = ''CREATED''"
| "phase_string PhaseFailed = ''FAILED''"
| "phase_string PhaseCompleted = ''COMPLETED''"
| "phase_string (PhaseOther s) = s"

fun result_string :: "SnapshotRunningResult \<Rightarrow> string" where
  "result_string ResultCreated = ''CREATED''"
| "result_string ResultRunning = ''RUNNING''"
| "result_string ResultFailed = ''FAILED''"
| "result_string ResultSuccess = ''SUCCEED''"
| "result_string (ResultOther s) = s"

section \<open>Shared abbreviations\<close>

text \<open>A task object's identity, and whether a phase or a result is final.\<close>
abbreviation task_key :: "SnapshotPodTask \<Rightarrow> string \<times> string" where
  "task_key t \<equiv> (om_Namespace (spt_meta t), om_Name (spt_meta t))"

abbreviation sp_key :: "SnapshotPod \<Rightarrow> string \<times> string" where
  "sp_key p \<equiv> (om_Namespace (sp_meta p), om_Name (sp_meta p))"

definition terminal_phase :: "SnapshotPodTaskPhase \<Rightarrow> bool" where
  "terminal_phase p \<longleftrightarrow> p = PhaseCompleted \<or> p = PhaseFailed"

definition terminal_result :: "SnapshotRunningResult \<Rightarrow> bool" where
  "terminal_result r \<longleftrightarrow> r = ResultSuccess \<or> r = ResultFailed"

text \<open>The verb \<^verbatim>\<open>%v\<close> on a map: entries in key order.\<close>
definition map_string :: "string gomap \<Rightarrow> string" where
  "map_string m = ''map['' @
     str_join (map (\<lambda>(k, v). k @ '':'' @ v) (sort_key fst (map_entries m))) '' '' @ '']''"

text \<open>
  \<^verbatim>\<open>metav1.Time\<close> travels with a precision of one second, so an object that was sent to the API
  server and read back carries truncated times.
\<close>
definition wire_time :: "gotime \<Rightarrow> gotime" where
  "wire_time t = t - t mod second_ns"

definition wire_condition :: "condition \<Rightarrow> condition" where
  "wire_condition c = c\<lparr>cond_LastTransitionTime := wire_time (cond_LastTransitionTime c)\<rparr>"

definition wire_task_status :: "SnapshotPodTaskStatus \<Rightarrow> SnapshotPodTaskStatus" where
  "wire_task_status st = st\<lparr>
     sptst_Conditions := map wire_condition (sptst_Conditions st),
     sptst_LastRetryTime := map_option wire_time (sptst_LastRetryTime st)\<rparr>"

definition wire_snapshot :: "SnapshotRunningStatus \<Rightarrow> SnapshotRunningStatus" where
  "wire_snapshot s = s\<lparr>srs_TriggerTime := wire_time (srs_TriggerTime s),
     srs_CompletedAt := map_option wire_time (srs_CompletedAt s)\<rparr>"

definition wire_sp_status :: "SnapshotPodStatus \<Rightarrow> SnapshotPodStatus" where
  "wire_sp_status st = st\<lparr>
     spst_Snapshots := map wire_snapshot (spst_Snapshots st),
     spst_Conditions := map wire_condition (spst_Conditions st)\<rparr>"

lemma wire_condition_sel [simp]:
  "cond_Type (wire_condition c) = cond_Type c"
  "cond_Status (wire_condition c) = cond_Status c"
  "cond_Reason (wire_condition c) = cond_Reason c"
  "cond_Message (wire_condition c) = cond_Message c"
  by (simp_all add: wire_condition_def)

lemma wire_task_status_sel [simp]:
  "sptst_Phase (wire_task_status st) = sptst_Phase st"
  "sptst_RetryCount (wire_task_status st) = sptst_RetryCount st"
  "sptst_Conditions (wire_task_status st) = map wire_condition (sptst_Conditions st)"
  by (simp_all add: wire_task_status_def)

lemma wire_snapshot_sel [simp]:
  "srs_TriggerRound (wire_snapshot s) = srs_TriggerRound s"
  "srs_TaskName (wire_snapshot s) = srs_TaskName s"
  "srs_ImageRef (wire_snapshot s) = srs_ImageRef s"
  "srs_ContainerName (wire_snapshot s) = srs_ContainerName s"
  "srs_Result (wire_snapshot s) = srs_Result s"
  "srs_FailedReason (wire_snapshot s) = srs_FailedReason s"
  by (simp_all add: wire_snapshot_def)

lemma wire_sp_status_sel [simp]:
  "spst_Snapshots (wire_sp_status st) = map wire_snapshot (spst_Snapshots st)"
  "spst_Conditions (wire_sp_status st) = map wire_condition (spst_Conditions st)"
  "spst_LastTriggerRound (wire_sp_status st) = spst_LastTriggerRound st"
  by (simp_all add: wire_sp_status_def)

lemma terminal_phase_simps [simp]:
  "terminal_phase PhaseCompleted" "terminal_phase PhaseFailed"
  "\<not> terminal_phase PhaseCreated" "\<not> terminal_phase (PhaseOther s)"
  by (simp_all add: terminal_phase_def)

lemma terminal_result_simps [simp]:
  "terminal_result ResultSuccess" "terminal_result ResultFailed"
  "\<not> terminal_result ResultCreated" "\<not> terminal_result ResultRunning"
  "\<not> terminal_result (ResultOther s)"
  by (simp_all add: terminal_result_def)

end
