(* ===== verification/Effects.thy ===== *)
theory Effects
  imports ApiTypes
begin

text \<open>
  How effectful code is modelled. A Go function that performs effects is a computation in the
  state monad over \<open>gstate\<close>: the outside world (API server, operating system, clock), the process
  environment, and the operations issued so far on the Prometheus collectors. The outside world
  is a type parameter; what the program calls of it (the controller-runtime client, processes,
  temporary files, the clock, random identifiers) and the pure third-party functions it uses
  (image references, semantic versions, owner references) are the fields of the
  record \<open>env\<close>, an argument of every definition that needs them. The contracts the proofs rely on
  are locales over that record.
\<close>

section \<open>State and environment\<close>

text \<open>An operation on a metric vector: its name and its label values.\<close>
datatype metric_op =
    CounterInc string "string list"
  | HistogramObserve string "string list" duration
  | GaugeSet string "string list" nat
  | GaugeReset string

record 'w gstate =
  gs_world :: 'w
  gs_env :: "string \<rightharpoonup> string"
  gs_metrics :: "metric_op list"

type_synonym ('w, 'a) go = "('w gstate, 'a) state"

text \<open>The view of a parsed image reference (\<^verbatim>\<open>reference.Named\<close>): it is \<^verbatim>\<open>NamedTagged\<close> when it
  has a tag and \<^verbatim>\<open>Canonical\<close> when it has a digest.\<close>
record named_ref =
  nr_Domain :: string
  nr_Path :: string
  nr_Tag :: "string option"
  nr_DigestHex :: "string option"

text \<open>A semantic version; its order is that of the semver package.\<close>
record semver =
  sv_Major :: nat
  sv_Minor :: nat
  sv_Patch :: nat
  sv_Prerelease :: string

text \<open>A context is reduced to its timeout.\<close>
type_synonym ctx = "duration option"

text \<open>
  What is outside the sources. \<open>env_exec\<close> runs a program with arguments and an environment and
  returns its standard output and an error; the client operations return what the
  controller-runtime client returns (an update or a create returns the object as the server
  sent it back). \<open>env_float_ns\<close> is the floating-point product in \<^verbatim>\<open>time.ParseDuration\<close> (see \<open>GoTime\<close>), and \<open>env_map_order\<close> is the order in which Go happens to range over the keys of a map.
\<close>
record 'w env =
  env_now :: "('w, gotime) state"
  env_uuid :: "('w, string) state"
  env_exec :: "ctx \<Rightarrow> string \<Rightarrow> string list \<Rightarrow> (string \<rightharpoonup> string) \<Rightarrow> ('w, string \<times> go_error option) state"
  env_mkdir_temp :: "string \<Rightarrow> string \<Rightarrow> ('w, go_error + string) state"
  env_write_file :: "string \<Rightarrow> string \<Rightarrow> ('w, go_error option) state"
  env_remove_all :: "string \<Rightarrow> ('w, go_error option) state"
  env_get_snapshotpod :: "string \<Rightarrow> string \<Rightarrow> ('w, go_error + SnapshotPod) state"
  env_list_snapshotpods :: "string option \<Rightarrow> ('w, go_error + SnapshotPod list) state"
  env_update_snapshotpod :: "SnapshotPod \<Rightarrow> ('w, go_error + SnapshotPod) state"
  env_update_snapshotpod_status :: "SnapshotPod \<Rightarrow> ('w, go_error + SnapshotPod) state"
  env_get_task :: "string \<Rightarrow> string \<Rightarrow> ('w, go_error + SnapshotPodTask) state"
  env_list_tasks :: "string gomap \<Rightarrow> ('w, go_error + SnapshotPodTask list) state"
  env_create_task :: "SnapshotPodTask \<Rightarrow> ('w, go_error + SnapshotPodTask) state"
  env_update_task_status :: "SnapshotPodTask \<Rightarrow> ('w, go_error + SnapshotPodTask) state"
  env_get_pod :: "string \<Rightarrow> string \<Rightarrow> ('w, go_error + pod) state"
  env_list_pods :: "string \<Rightarrow> string gomap \<Rightarrow> ('w, go_error + pod list) state"
  env_get_secret :: "string \<Rightarrow> string \<Rightarrow> ('w, go_error + secret) state"
  env_parse_reference :: "string \<Rightarrow> go_error + named_ref"
  env_with_tag :: "named_ref \<Rightarrow> string \<Rightarrow> go_error + named_ref"
  env_ref_string :: "named_ref \<Rightarrow> string"
  env_float_ns :: "int \<Rightarrow> int \<Rightarrow> int \<Rightarrow> int"
  env_semver_parse :: "string \<Rightarrow> semver option"
  env_semver_less :: "semver \<Rightarrow> semver \<Rightarrow> bool"
  env_semver_ge :: "semver \<Rightarrow> semver \<Rightarrow> bool"
  env_new_containerd_client :: "('w, go_error option) state"
  env_containerd_server_version :: "('w, go_error + semver) state"
  env_new_controller_ref :: "object_meta \<Rightarrow> group_version \<Rightarrow> string \<Rightarrow> owner_reference"
  env_map_order :: "string list \<Rightarrow> ('w, string list) state"

section \<open>Primitive computations\<close>

definition in_world :: "('w, 'a) state \<Rightarrow> ('w, 'a) go" where
  "in_world m = State (\<lambda>s. case run_state m (gs_world s) of (a, w) \<Rightarrow> (a, s\<lparr>gs_world := w\<rparr>))"

definition time_now :: "'w env \<Rightarrow> ('w, gotime) go" where
  "time_now E = in_world (env_now E)"

definition emit :: "metric_op list \<Rightarrow> ('w, unit) go" where
  "emit ops = State (\<lambda>s. ((), s\<lparr>gs_metrics := gs_metrics s @ ops\<rparr>))"

definition get_environ :: "('w, string \<rightharpoonup> string) go" where
  "get_environ = State (\<lambda>s. (gs_env s, s))"

text \<open>\<^verbatim>\<open>os.Setenv\<close> and \<^verbatim>\<open>os.Unsetenv\<close>.\<close>
definition Setenv :: "string \<Rightarrow> string \<Rightarrow> ('w, unit) go" where
  "Setenv k v = State (\<lambda>s. ((), s\<lparr>gs_env := (gs_env s)(k \<mapsto> v)\<rparr>))"

definition Unsetenv :: "string \<Rightarrow> ('w, unit) go" where
  "Unsetenv k = State (\<lambda>s. ((), s\<lparr>gs_env := (gs_env s)(k := None)\<rparr>))"

lemma run_in_world [simp]:
  "run_state (in_world m) s = (fst (run_state m (gs_world s)), s\<lparr>gs_world := snd (run_state m (gs_world s))\<rparr>)"
  by (simp add: in_world_def split: prod.splits)

lemma run_time_now [simp]:
  "run_state (time_now E) s = (fst (run_state (env_now E) (gs_world s)), s\<lparr>gs_world := snd (run_state (env_now E) (gs_world s))\<rparr>)"
  by (simp add: time_now_def)

lemma run_emit [simp]: "run_state (emit ops) s = ((), s\<lparr>gs_metrics := gs_metrics s @ ops\<rparr>)"
  by (simp add: emit_def)

lemma run_get_environ [simp]: "run_state get_environ s = (gs_env s, s)"
  by (simp add: get_environ_def)

lemma run_Setenv [simp]: "run_state (Setenv k v) s = ((), s\<lparr>gs_env := (gs_env s)(k \<mapsto> v)\<rparr>)"
  by (simp add: Setenv_def)

lemma run_Unsetenv [simp]: "run_state (Unsetenv k) s = ((), s\<lparr>gs_env := (gs_env s)(k := None)\<rparr>)"
  by (simp add: Unsetenv_def)

section \<open>Invariants of computations\<close>

text \<open>
  \<open>keeps R m\<close>: every run of \<open>m\<close> relates its initial to its final state by \<open>R\<close>. The rules below
  push it through the program text, for any reflexive and transitive \<open>R\<close>.
\<close>
definition keeps :: "('s \<Rightarrow> 's \<Rightarrow> bool) \<Rightarrow> ('s, 'a) state \<Rightarrow> bool" where
  "keeps R m \<longleftrightarrow> (\<forall>s. R s (snd (run_state m s)))"

lemma keepsD: "keeps R m \<Longrightarrow> run_state m s = (a, s') \<Longrightarrow> R s s'"
  by (metis keeps_def snd_conv)

lemma keepsI: "(\<And>s a s'. run_state m s = (a, s') \<Longrightarrow> R s s') \<Longrightarrow> keeps R m"
  by (metis keeps_def prod.collapse)

text \<open>An interface for frame conditions: a preorder on states.\<close>
locale frame_rel =
  fixes R :: "'s \<Rightarrow> 's \<Rightarrow> bool"
  assumes refl_R: "R s s"
    and trans_R: "R s t \<Longrightarrow> R t u \<Longrightarrow> R s u"
begin

lemma keeps_return: "keeps R (State_Monad.return x)"
  by (simp add: keeps_def refl_R)

lemma keeps_bind: "keeps R m \<Longrightarrow> (\<And>a. keeps R (f a)) \<Longrightarrow> keeps R (State_Monad.bind m f)"
  unfolding keeps_def by (auto split: prod.splits) (metis snd_conv trans_R)

lemma keeps_if: "(b \<Longrightarrow> keeps R m) \<Longrightarrow> (\<not> b \<Longrightarrow> keeps R n) \<Longrightarrow> keeps R (if b then m else n)"
  by simp

lemma keeps_option:
  "(x = None \<Longrightarrow> keeps R m) \<Longrightarrow> (\<And>a. x = Some a \<Longrightarrow> keeps R (f a)) \<Longrightarrow>
   keeps R (case x of None \<Rightarrow> m | Some a \<Rightarrow> f a)"
  by (cases x) auto

lemma keeps_sum:
  "(\<And>a. x = Inl a \<Longrightarrow> keeps R (f a)) \<Longrightarrow> (\<And>b. x = Inr b \<Longrightarrow> keeps R (g b)) \<Longrightarrow>
   keeps R (case x of Inl a \<Rightarrow> f a | Inr b \<Rightarrow> g b)"
  by (cases x) auto

lemma keeps_prod: "(\<And>a b. x = (a, b) \<Longrightarrow> keeps R (f a b)) \<Longrightarrow> keeps R (case x of (a, b) \<Rightarrow> f a b)"
  by (cases x) auto

lemma keeps_outcome:
  "(\<And>a. x = Done a \<Longrightarrow> keeps R (f a)) \<Longrightarrow> (\<And>m. x = Panicked m \<Longrightarrow> keeps R (g m)) \<Longrightarrow>
   keeps R (case x of Done a \<Rightarrow> f a | Panicked m \<Rightarrow> g m)"
  by (cases x) auto

lemmas keeps_rules = keeps_return keeps_bind keeps_if keeps_option keeps_sum keeps_prod keeps_outcome

end

end
