(* ===== verification/Metrics.thy ===== *)
theory Metrics
  imports Effects
begin

text \<open>
  \<^verbatim>\<open>internal/metrics/metrics.go\<close>: the metric vectors with their label names, and the recording
  functions. Recording appends operations to the metric log of the state; \<open>counter_value\<close>,
  \<open>gauge_value\<close> and \<open>histogram_count\<close> read a log the way Prometheus documents counters, gauges and
  histograms, and the locale \<open>metric_reading\<close> states that reading as an interface. Prometheus
  panics when \<^verbatim>\<open>WithLabelValues\<close> gets a number of values other than the vector's number of labels;
  \<open>well_labelled\<close> is the absence of that panic.
\<close>

section \<open>Metric vectors\<close>

datatype metric_kind = CounterVec | GaugeVec | HistogramVec

record metric_desc =
  md_Name :: string
  md_Kind :: metric_kind
  md_Labels :: "string list"
  md_Buckets :: "(rat \<times> rat \<times> nat) option"

definition counter_vec :: "string \<Rightarrow> string list \<Rightarrow> metric_desc" where
  "counter_vec n ls = \<lparr>md_Name = n, md_Kind = CounterVec, md_Labels = ls, md_Buckets = None\<rparr>"

definition gauge_vec :: "string \<Rightarrow> string list \<Rightarrow> metric_desc" where
  "gauge_vec n ls = \<lparr>md_Name = n, md_Kind = GaugeVec, md_Labels = ls, md_Buckets = None\<rparr>"

definition histogram_vec :: "string \<Rightarrow> string list \<Rightarrow> rat \<times> rat \<times> nat \<Rightarrow> metric_desc" where
  "histogram_vec n ls b = \<lparr>md_Name = n, md_Kind = HistogramVec, md_Labels = ls, md_Buckets = Some b\<rparr>"

definition SnapshotTaskMetrics :: "metric_desc list" where
  "SnapshotTaskMetrics = [
     counter_vec ''snapshot_tasks_total'' [''status'', ''namespace'', ''snapshot_name''],
     histogram_vec ''snapshot_task_duration_seconds'' [''status'', ''namespace'', ''snapshot_name''] (1, 2, 10),
     counter_vec ''snapshot_task_retries_total'' [''namespace'', ''snapshot_name'', ''task_name''],
     gauge_vec ''snapshot_active_tasks'' [''namespace'', ''snapshot_name''],
     gauge_vec ''snapshot_tasks_by_node'' [''node_name'', ''status'']]"

definition ControllerMetrics :: "metric_desc list" where
  "ControllerMetrics = [
     counter_vec ''snapshot_controller_reconcile_total'' [''controller'', ''result''],
     histogram_vec ''snapshot_controller_reconcile_duration_seconds'' [''controller''] (1 / 1000, 2, 15),
     counter_vec ''snapshot_controller_errors_total'' [''controller'', ''error_type'']]"

definition ImageMetrics :: "metric_desc list" where
  "ImageMetrics = [
     counter_vec ''snapshot_image_push_total'' [''result'', ''registry'', ''namespace'', ''snapshot_name''],
     histogram_vec ''snapshot_image_push_duration_seconds'' [''registry'', ''namespace'', ''snapshot_name''] (1, 2, 12)]"

definition SnapshotTaskFailed :: metric_desc where
  "SnapshotTaskFailed =
     counter_vec ''snapshot_task_failed_total'' [''namespace'', ''snapshot_name'', ''task_name'']"

definition all_metrics :: "metric_desc list" where
  "all_metrics = SnapshotTaskMetrics @ ControllerMetrics @ ImageMetrics @ [SnapshotTaskFailed]"

text \<open>The upper bounds of a histogram: \<open>count\<close> buckets from \<open>start\<close>, each \<open>factor\<close> times the last.\<close>
definition bucket_bounds :: "rat \<times> rat \<times> nat \<Rightarrow> rat list" where
  "bucket_bounds b = (case b of (start, factor, n) \<Rightarrow> map (\<lambda>i. start * factor ^ i) [0..<n])"

fun op_kind :: "metric_op \<Rightarrow> metric_kind" where
  "op_kind (CounterInc n ls) = CounterVec"
| "op_kind (HistogramObserve n ls d) = HistogramVec"
| "op_kind (GaugeSet n ls v) = GaugeVec"
| "op_kind (GaugeReset n) = GaugeVec"

fun well_labelled :: "metric_op \<Rightarrow> bool" where
  "well_labelled (CounterInc n ls) =
     list_ex (\<lambda>d. md_Name d = n \<and> md_Kind d = CounterVec \<and> length (md_Labels d) = length ls) all_metrics"
| "well_labelled (HistogramObserve n ls v) =
     list_ex (\<lambda>d. md_Name d = n \<and> md_Kind d = HistogramVec \<and> length (md_Labels d) = length ls) all_metrics"
| "well_labelled (GaugeSet n ls v) =
     list_ex (\<lambda>d. md_Name d = n \<and> md_Kind d = GaugeVec \<and> length (md_Labels d) = length ls) all_metrics"
| "well_labelled (GaugeReset n) = list_ex (\<lambda>d. md_Name d = n \<and> md_Kind d = GaugeVec) all_metrics"

section \<open>Label values\<close>

definition SnapshotTaskStatusCreated :: string where "SnapshotTaskStatusCreated = ''created''"
definition SnapshotTaskStatusSuccess :: string where "SnapshotTaskStatusSuccess = ''success''"
definition SnapshotTaskStatusFailed :: string where "SnapshotTaskStatusFailed = ''failed''"
definition ControllerResultSuccess :: string where "ControllerResultSuccess = ''success''"
definition ControllerResultError :: string where "ControllerResultError = ''error''"
definition ControllerResultRequeue :: string where "ControllerResultRequeue = ''requeue''"
definition ImagePushResultSuccess :: string where "ImagePushResultSuccess = ''success''"
definition ImagePushResultFailed :: string where "ImagePushResultFailed = ''failed''"

lemmas metric_label_defs =
  SnapshotTaskStatusCreated_def SnapshotTaskStatusSuccess_def SnapshotTaskStatusFailed_def
  ControllerResultSuccess_def ControllerResultError_def ControllerResultRequeue_def
  ImagePushResultSuccess_def ImagePushResultFailed_def

section \<open>Recording functions\<close>

definition RecordSnapshotTask :: "string \<Rightarrow> string \<Rightarrow> string \<Rightarrow> duration \<Rightarrow> ('w, unit) go" where
  "RecordSnapshotTask status namespace snapshotName d = emit [
     CounterInc ''snapshot_tasks_total'' [status, namespace, snapshotName],
     HistogramObserve ''snapshot_task_duration_seconds'' [status, namespace, snapshotName] d]"

definition RecordSnapshotTaskRetry :: "string \<Rightarrow> string \<Rightarrow> string \<Rightarrow> ('w, unit) go" where
  "RecordSnapshotTaskRetry namespace snapshotName taskName =
     emit [CounterInc ''snapshot_task_retries_total'' [namespace, snapshotName, taskName]]"

definition SetActiveSnapshotTasks :: "string \<Rightarrow> string \<Rightarrow> nat \<Rightarrow> ('w, unit) go" where
  "SetActiveSnapshotTasks namespace snapshotName n =
     emit [GaugeSet ''snapshot_active_tasks'' [namespace, snapshotName] n]"

definition SetSnapshotTasksByNode :: "string \<Rightarrow> string \<Rightarrow> nat \<Rightarrow> ('w, unit) go" where
  "SetSnapshotTasksByNode nodeName status n =
     emit [GaugeSet ''snapshot_tasks_by_node'' [nodeName, status] n]"

definition RecordControllerReconcile :: "string \<Rightarrow> string \<Rightarrow> duration \<Rightarrow> ('w, unit) go" where
  "RecordControllerReconcile controller result d = emit [
     CounterInc ''snapshot_controller_reconcile_total'' [controller, result],
     HistogramObserve ''snapshot_controller_reconcile_duration_seconds'' [controller] d]"

definition RecordControllerError :: "string \<Rightarrow> string \<Rightarrow> ('w, unit) go" where
  "RecordControllerError controller errorType =
     emit [CounterInc ''snapshot_controller_errors_total'' [controller, errorType]]"

definition RecordImagePush :: "string \<Rightarrow> string \<Rightarrow> string \<Rightarrow> string \<Rightarrow> duration \<Rightarrow> ('w, unit) go" where
  "RecordImagePush result registry namespace snapshotName d = emit [
     CounterInc ''snapshot_image_push_total'' [result, registry, namespace, snapshotName],
     HistogramObserve ''snapshot_image_push_duration_seconds'' [registry, namespace, snapshotName] d]"

definition RecordTaskFailed :: "string \<Rightarrow> string \<Rightarrow> string \<Rightarrow> ('w, unit) go" where
  "RecordTaskFailed namespace snapshotName taskName =
     emit [CounterInc ''snapshot_task_failed_total'' [namespace, snapshotName, taskName]]"

lemmas record_defs =
  RecordSnapshotTask_def RecordSnapshotTaskRetry_def SetActiveSnapshotTasks_def
  SetSnapshotTasksByNode_def RecordControllerReconcile_def RecordControllerError_def
  RecordImagePush_def RecordTaskFailed_def

section \<open>Reading a metric log\<close>

definition counter_value :: "metric_op list \<Rightarrow> string \<Rightarrow> string list \<Rightarrow> nat" where
  "counter_value ops n ls = length (filter (\<lambda>x. x = CounterInc n ls) ops)"

fun gauge_step :: "string \<Rightarrow> string list \<Rightarrow> nat option \<Rightarrow> metric_op \<Rightarrow> nat option" where
  "gauge_step n ls g (GaugeSet n' ls' v) = (if n' = n \<and> ls' = ls then Some v else g)"
| "gauge_step n ls g (GaugeReset n') = (if n' = n then None else g)"
| "gauge_step n ls g x = g"

definition gauge_value :: "metric_op list \<Rightarrow> string \<Rightarrow> string list \<Rightarrow> nat option" where
  "gauge_value ops n ls = foldl (gauge_step n ls) None ops"

fun is_observation :: "string \<Rightarrow> string list \<Rightarrow> metric_op \<Rightarrow> bool" where
  "is_observation n ls (HistogramObserve n' ls' d) = (n' = n \<and> ls' = ls)"
| "is_observation n ls x = False"

definition histogram_count :: "metric_op list \<Rightarrow> string \<Rightarrow> string list \<Rightarrow> nat" where
  "histogram_count ops n ls = length (filter (is_observation n ls) ops)"

text \<open>What a metrics backend promises to whoever records into it.\<close>
locale metric_reading =
  fixes counter :: "metric_op list \<Rightarrow> string \<Rightarrow> string list \<Rightarrow> nat"
    and gauge :: "metric_op list \<Rightarrow> string \<Rightarrow> string list \<Rightarrow> nat option"
  assumes counter_snoc: "counter (ops @ [x]) n ls = counter ops n ls + (if x = CounterInc n ls then 1 else 0)"
    and gauge_snoc: "gauge (ops @ [x]) n ls =
      (case x of GaugeSet n' ls' v \<Rightarrow> if n' = n \<and> ls' = ls then Some v else gauge ops n ls
       | GaugeReset n' \<Rightarrow> if n' = n then None else gauge ops n ls
       | _ \<Rightarrow> gauge ops n ls)"
begin

lemma counter_append_none:
  "CounterInc n ls \<notin> set xs \<Longrightarrow> counter (ops @ xs) n ls = counter ops n ls"
proof (induction xs rule: rev_induct)
  case (snoc x xs)
  then have "counter (ops @ xs) n ls = counter ops n ls" by simp
  then show ?case using snoc.prems counter_snoc [of "ops @ xs" x n ls] by auto
qed simp

lemma counter_monotone: "counter ops n ls \<le> counter (ops @ xs) n ls"
proof (induction xs rule: rev_induct)
  case (snoc x xs)
  then show ?case using counter_snoc [of "ops @ xs" x n ls] by simp
qed simp

text \<open>A batch of sets on one vector: the last value set for the labels, else the old value.\<close>
lemma gauge_sets:
  "gauge (ops @ map (\<lambda>(ls, v). GaugeSet n ls v) kvs) n ls =
     (case map_of (rev kvs) ls of None \<Rightarrow> gauge ops n ls | Some v \<Rightarrow> Some v)"
proof (induction kvs rule: rev_induct)
  case Nil
  show ?case by simp
next
  case (snoc kv kvs)
  obtain k v where kv: "kv = (k, v)" by (cases kv)
  show ?case
    using snoc gauge_snoc [of "ops @ map (\<lambda>(ls, v). GaugeSet n ls v) kvs" "GaugeSet n k v" n ls]
    by (simp add: kv)
qed

text \<open>Resetting a vector and then setting it leaves nothing of what it held before.\<close>
lemma gauge_reset_sets:
  "gauge (ops @ GaugeReset n # map (\<lambda>(ls, v). GaugeSet n ls v) kvs) n ls = map_of (rev kvs) ls"
  using gauge_sets [of "ops @ [GaugeReset n]" n kvs ls] gauge_snoc [of ops "GaugeReset n" n ls]
  by (simp split: option.splits)

end

interpretation metric_log: metric_reading counter_value gauge_value
  by unfold_locales (auto simp: counter_value_def gauge_value_def split: metric_op.splits)

section \<open>Properties\<close>

text \<open>The vectors are declared once each.\<close>
lemma metric_names_distinct: "distinct (map md_Name all_metrics)"
  by (simp add: all_metrics_def SnapshotTaskMetrics_def ControllerMetrics_def ImageMetrics_def
    SnapshotTaskFailed_def counter_vec_def gauge_vec_def histogram_vec_def)

lemmas metric_table_defs =
  all_metrics_def SnapshotTaskMetrics_def ControllerMetrics_def ImageMetrics_def SnapshotTaskFailed_def
  counter_vec_def gauge_vec_def histogram_vec_def

text \<open>\<open>metrics_ok\<close>: a run only appends to the metric log, and only well-labelled operations.\<close>
definition metrics_ok :: "'w gstate \<Rightarrow> 'w gstate \<Rightarrow> bool" where
  "metrics_ok s t \<longleftrightarrow> (\<exists>ops. gs_metrics t = gs_metrics s @ ops \<and> list_all well_labelled ops)"

interpretation metrics_frame: frame_rel metrics_ok
proof
  fix s t u :: "'w gstate"
  show "metrics_ok s s" by (auto simp: metrics_ok_def)
  show "metrics_ok s t \<Longrightarrow> metrics_ok t u \<Longrightarrow> metrics_ok s u"
    by (force simp: metrics_ok_def)
qed

lemma metrics_ok_in_world: "keeps metrics_ok (in_world m)"
  by (auto simp: keeps_def metrics_ok_def)

lemma metrics_ok_time_now: "keeps metrics_ok (time_now E)"
  by (auto simp: keeps_def metrics_ok_def)

lemma metrics_ok_emit: "list_all well_labelled ops \<Longrightarrow> keeps metrics_ok (emit ops)"
  by (auto simp: keeps_def metrics_ok_def)

lemma metrics_ok_env:
  "keeps metrics_ok get_environ" "keeps metrics_ok (Setenv k v)" "keeps metrics_ok (Unsetenv k)"
  by (auto simp: keeps_def metrics_ok_def)

lemma metrics_ok_record:
  "keeps metrics_ok (RecordSnapshotTask a b c d)"
  "keeps metrics_ok (RecordSnapshotTaskRetry a b c)"
  "keeps metrics_ok (SetActiveSnapshotTasks a b n)"
  "keeps metrics_ok (SetSnapshotTasksByNode a b n)"
  "keeps metrics_ok (RecordControllerReconcile a b d)"
  "keeps metrics_ok (RecordControllerError a b)"
  "keeps metrics_ok (RecordImagePush a b c e d)"
  "keeps metrics_ok (RecordTaskFailed a b c)"
  by (auto simp: record_defs metric_table_defs intro!: metrics_ok_emit)

lemmas metrics_ok_rules = metrics_frame.keeps_rules metrics_ok_in_world metrics_ok_time_now
  metrics_ok_env metrics_ok_record

end
