(* ===== verification/Conditions.thy ===== *)
theory Conditions
  imports Metrics
begin

text \<open>
  The condition bookkeeping both reconcilers share: find a condition by its type or append an
  unknown one, compare conditions without their time (\<^verbatim>\<open>cmpConditionWithoutTime\<close>), and the results
  of a reconciliation. The lemmas say what appending and setting a condition does to the list of
  types and to the prefix of conditions that hold.
\<close>

section \<open>Operations\<close>

text \<open>\<^verbatim>\<open>ctrl.Result\<close>: after how long to reconcile again, 0 for not at all.\<close>
record ctrl_Result =
  RequeueAfter :: duration

definition no_requeue :: ctrl_Result where
  "no_requeue = \<lparr>RequeueAfter = 0\<rparr>"

definition cmpConditionWithoutTime :: "condition \<Rightarrow> condition \<Rightarrow> bool" where
  "cmpConditionWithoutTime c1 c2 \<longleftrightarrow> cond_Status c1 = cond_Status c2 \<and> cond_Message c1 = cond_Message c2
     \<and> cond_Reason c1 = cond_Reason c2 \<and> cond_Type c1 = cond_Type c2"

definition new_condition :: "string \<Rightarrow> gotime \<Rightarrow> condition" where
  "new_condition typ t = \<lparr>cond_Type = typ, cond_Status = ConditionUnknown, cond_Reason = typ @ ''Ready'',
     cond_Message = [], cond_LastTransitionTime = t\<rparr>"

text \<open>The conditions with one of the given type among them, and its index.\<close>
definition ensure_condition :: "'w env \<Rightarrow> string \<Rightarrow> condition list \<Rightarrow> ('w, condition list \<times> nat) go" where
  "ensure_condition E typ conds =
     (case find_index_of (\<lambda>c. cond_Type c = typ) conds of
        Some i \<Rightarrow> State_Monad.return (conds, i)
      | None \<Rightarrow> do {
          t \<leftarrow> time_now E;
          State_Monad.return (conds @ [new_condition typ t], length conds)
        })"

section \<open>Lemmas\<close>

lemma find_index_of_Some:
  "find_index_of P xs = Some i \<Longrightarrow> i < length xs \<and> P (xs ! i) \<and> (\<forall>j<i. \<not> P (xs ! j))"
proof (induction xs arbitrary: i)
  case (Cons x xs)
  then show ?case by (cases i) (auto simp: nth_Cons' split: if_splits)
qed simp

lemma find_index_of_None: "find_index_of P xs = None \<longleftrightarrow> (\<forall>x\<in>set xs. \<not> P x)"
  by (induction xs) auto

lemma find_index_of_first:
  "i < length xs \<Longrightarrow> P (xs ! i) \<Longrightarrow> \<forall>j<i. \<not> P (xs ! j) \<Longrightarrow> find_index_of P xs = Some i"
proof (induction xs arbitrary: i)
  case (Cons x xs)
  show ?case
  proof (cases i)
    case 0
    with Cons.prems show ?thesis by simp
  next
    case (Suc k)
    with Cons.prems have "find_index_of P xs = Some k" and "\<not> P x"
      by (auto intro!: Cons.IH)
    with Suc show ?thesis by simp
  qed
qed simp

text \<open>How many conditions, from the first on, hold.\<close>
definition done_count :: "condition list \<Rightarrow> nat" where
  "done_count conds = length (takeWhile (\<lambda>c. cond_Status c = ConditionTrue) conds)"

lemma done_count_simps [simp]:
  "done_count [] = 0"
  "done_count (c # cs) = (if cond_Status c = ConditionTrue then Suc (done_count cs) else 0)"
  by (simp_all add: done_count_def)

lemma done_count_wire [simp]: "done_count (map wire_condition conds) = done_count conds"
  by (induction conds) auto

lemma done_count_le: "done_count conds \<le> length conds"
  by (simp add: done_count_def length_takeWhile_le)

lemma done_count_all: "list_all (\<lambda>c. cond_Status c = ConditionTrue) conds \<longleftrightarrow> done_count conds = length conds"
  by (induction conds) auto

lemma done_count_append:
  "done_count (as @ bs) = (if done_count as = length as then length as + done_count bs else done_count as)"
  by (induction as) auto

lemma ensure_condition_metrics: "keeps metrics_ok (ensure_condition E typ conds)"
  unfolding ensure_condition_def by (intro metrics_ok_rules)

section \<open>Conditions that follow a list of steps\<close>

text \<open>
  \<open>follows names conds\<close>: the conditions carry the types of an initial part of the steps, in order,
  and all of them but perhaps the last hold.
\<close>
definition follows :: "string list \<Rightarrow> condition list \<Rightarrow> bool" where
  "follows names conds \<longleftrightarrow> map cond_Type conds = take (length conds) names \<and>
     length conds \<le> length names \<and> length conds \<le> Suc (done_count conds)"

text \<open>\<open>ready_for names j conds\<close>: the last of the conditions is that of step \<open>j\<close>, and the earlier ones hold.\<close>
definition ready_for :: "string list \<Rightarrow> nat \<Rightarrow> condition list \<Rightarrow> bool" where
  "ready_for names j conds \<longleftrightarrow> j < length names \<and> length conds = Suc j \<and>
     map cond_Type conds = take (Suc j) names \<and> done_count (take j conds) = j"

lemma follows_Nil [simp]: "follows names []"
  by (simp add: follows_def)

lemma follows_wire [simp]: "follows names (map wire_condition conds) = follows names conds"
  by (simp add: follows_def comp_def)

lemma follows_done_le: "follows names conds \<Longrightarrow> done_count conds \<le> length names"
  using done_count_le [of conds] by (auto simp: follows_def)

lemma done_count_nth:
  "j \<le> done_count conds \<Longrightarrow> j < length conds \<Longrightarrow> Suc j \<le> done_count conds \<longleftrightarrow> cond_Status (conds ! j) = ConditionTrue"
proof (induction conds arbitrary: j)
  case (Cons c cs)
  then show ?case by (cases j) (auto split: if_splits)
qed simp

lemma done_count_take: "j \<le> done_count conds \<Longrightarrow> done_count (take j conds) = j"
proof (induction conds arbitrary: j)
  case (Cons c cs)
  then show ?case by (cases j) (auto split: if_splits)
qed simp

lemma follows_find:
  assumes "follows names conds" and "distinct names" and "j < length names"
  shows "find_index_of (\<lambda>c. cond_Type c = names ! j) conds = (if j < length conds then Some j else None)"
proof -
  have types: "cond_Type (conds ! i) = names ! i" if "i < length conds" for i
    using assms(1) that by (metis follows_def length_map nth_map nth_take)
  show ?thesis
  proof (cases "j < length conds")
    case True
    have "cond_Type (conds ! i) \<noteq> names ! j" if "i < j" for i
      using types [of i] that True assms by (simp add: nth_eq_iff_index_eq)
    then have "find_index_of (\<lambda>c. cond_Type c = names ! j) conds = Some j"
      using True types [of j] by (intro find_index_of_first) auto
    with True show ?thesis by simp
  next
    case False
    have "cond_Type c \<noteq> names ! j" if "c \<in> set conds" for c
      using that types False assms by (auto simp: in_set_conv_nth nth_eq_iff_index_eq follows_def)
    with False show ?thesis by (simp add: find_index_of_None)
  qed
qed

text \<open>What the loop body of a step sees: its condition holds, or its condition is the last one.\<close>
lemma ensure_follows:
  assumes fol: "follows names conds" and dist: "distinct names" and j: "j < length names" "j \<le> done_count conds"
    and run: "run_state (ensure_condition E (names ! j) conds) s = ((conds', i), s')"
  shows "i = j \<and> (s' = s \<or> s' = snd (run_state (time_now E) s)) \<and>
    (conds' = conds \<and> cond_Status (conds ! j) = ConditionTrue \<and> Suc j \<le> done_count conds \<or>
     cond_Status (conds' ! j) \<noteq> ConditionTrue \<and> ready_for names j conds' \<and> done_count conds = j)"
proof (cases "j < length conds")
  case True
  then have eq: "conds' = conds" "i = j" "s' = s"
    using run follows_find [OF fol dist j(1)] by (auto simp: ensure_condition_def)
  show ?thesis
  proof (cases "cond_Status (conds ! j) = ConditionTrue")
    case True
    with eq \<open>j < length conds\<close> show ?thesis using done_count_nth [OF j(2)] by simp
  next
    case False
    then have d: "done_count conds = j" using done_count_nth [OF j(2) True] j(2) by simp
    then have "length conds = Suc j" using True fol by (auto simp: follows_def)
    then show ?thesis using eq False d fol j done_count_take [of j conds] by (auto simp: ready_for_def follows_def)
  qed
next
  case False
  then have l: "length conds = j" "done_count conds = j" using j(2) done_count_le [of conds] by auto
  have "map cond_Type conds = take j names" using fol l(1) by (simp add: follows_def)
  then show ?thesis
    using run False l follows_find [OF fol dist j(1)] j(1)
    by (auto simp: ensure_condition_def ready_for_def new_condition_def take_Suc_conv_app_nth split: prod.splits)
qed

lemma ready_for_set:
  assumes "ready_for names j conds" and "cond_Type c = cond_Type (conds ! j)"
  shows "follows names (conds[j := c])"
    and "done_count (conds[j := c]) = (if cond_Status c = ConditionTrue then Suc j else j)"
proof -
  obtain as b where conds: "conds = as @ [b]" and as: "length as = j"
    using assms(1) by (cases conds rule: rev_cases) (auto simp: ready_for_def)
  have d: "done_count as = j" using assms(1) conds as by (simp add: ready_for_def)
  have upd: "conds[j := c] = as @ [c]" using conds as by (simp add: list_update_append)
  show dc: "done_count (conds[j := c]) = (if cond_Status c = ConditionTrue then Suc j else j)"
    by (simp add: upd done_count_append d as)
  show "follows names (conds[j := c])"
    using assms as d dc by (auto simp: follows_def ready_for_def upd conds nth_append)
qed

end
