(* ===== verification/Contracts.thy ===== *)
theory Contracts
  imports Effects
begin

text \<open>
  What the proofs assume of the outside world, as locales over the record \<open>env\<close>. Each locale fixes
  an observer of the world and states documented behaviour of the services behind it:
  \<open>os_frame\<close> (operating-system calls do not change what the observer sees), \<open>os_log\<close> (programs run in
  the order they are started; temporary directories), and the API server in two layers. The locales
  \<open>task_store\<close>, \<open>cluster_store\<close>, \<open>sp_store\<close>, \<open>webhook_store\<close> say what calls write: they hold whatever the client
  answers to reads, so also for one that reads from a cache. \<open>task_api\<close>, \<open>cluster_api\<close>, \<open>sp_api\<close>, \<open>webhook_api\<close>
  add that reads are up to date. \<open>versioned_store\<close> adds resource versions: a write grows the version of an
  object, and a write on the basis of another version than the stored one is refused. Other writers of
  the same object are absent for the duration of one call.
\<close>

section \<open>Operating system\<close>

locale os_frame =
  fixes E :: "'w env" and obs :: "'w \<Rightarrow> 'o"
  assumes obs_now: "obs (snd (run_state (env_now E) w)) = obs w"
    and obs_exec: "obs (snd (run_state (env_exec E c cmd args vars) w)) = obs w"
    and obs_mkdir: "obs (snd (run_state (env_mkdir_temp E dir pat) w)) = obs w"
    and obs_write: "obs (snd (run_state (env_write_file E path bytes) w)) = obs w"
    and obs_remove: "obs (snd (run_state (env_remove_all E path) w)) = obs w"

text \<open>A program that was started: its name, its arguments and the \<^verbatim>\<open>DOCKER_CONFIG\<close> it saw.\<close>
record command =
  cmd_Name :: string
  cmd_Args :: "string list"
  cmd_DockerConfig :: "string option"

locale os_log =
  fixes E :: "'w env" and cmds :: "'w \<Rightarrow> command list" and dirs :: "'w \<Rightarrow> string set"
  assumes cmds_exec: "cmds (snd (run_state (env_exec E c cmd args vars) w)) =
      cmds w @ [\<lparr>cmd_Name = cmd, cmd_Args = args, cmd_DockerConfig = vars ''DOCKER_CONFIG''\<rparr>]"
    and dirs_exec: "dirs (snd (run_state (env_exec E c cmd args vars) w)) = dirs w"
    and cmds_mkdir: "cmds (snd (run_state (env_mkdir_temp E dir pat) w)) = cmds w"
    and dirs_mkdir: "run_state (env_mkdir_temp E dir pat) w = (Inr path, w') \<Longrightarrow>
      path \<notin> dirs w \<and> dirs w' = insert path (dirs w)"
    and dirs_mkdir_err: "run_state (env_mkdir_temp E dir pat) w = (Inl e, w') \<Longrightarrow> dirs w' = dirs w"
    and cmds_write: "cmds (snd (run_state (env_write_file E path bytes) w)) = cmds w"
    and dirs_write: "dirs (snd (run_state (env_write_file E path bytes) w)) = dirs w"
    and cmds_remove: "cmds (snd (run_state (env_remove_all E path) w)) = cmds w"
    and dirs_remove: "run_state (env_remove_all E path) w = (None, w') \<Longrightarrow> dirs w' = dirs w - {path}"

section \<open>Task objects on the API server\<close>

text \<open>
  A successful status update of \<open>t\<close> stores \<open>t'\<close>: the current object with the status of \<open>t\<close> as it
  travels on the wire and a new resource version. The status subresource ignores every other field.
\<close>
definition status_written :: "SnapshotPodTask \<Rightarrow> SnapshotPodTask \<Rightarrow> SnapshotPodTask \<Rightarrow> bool" where
  "status_written cur t t' \<longleftrightarrow>
     (\<exists>v. t' = cur\<lparr>spt_Status := wire_task_status (spt_Status t),
                  spt_meta := (spt_meta cur)\<lparr>om_ResourceVersion := v\<rparr>\<rparr>)"

locale task_store = os_frame E tasks
  for E :: "'w env" and tasks :: "'w \<Rightarrow> (string \<times> string \<rightharpoonup> SnapshotPodTask)" +
  assumes task_keyed: "tasks w k = Some t \<Longrightarrow> task_key t = k"
    and get_task_quiet: "tasks (snd (run_state (env_get_task E ns nm) w)) = tasks w"
    and update_task_ok: "run_state (env_update_task_status E t) w = (Inr t', w') \<Longrightarrow>
      \<exists>cur. tasks w (task_key t) = Some cur \<and> status_written cur t t' \<and> tasks w' = (tasks w)(task_key t \<mapsto> t')"
    and update_task_err: "run_state (env_update_task_status E t) w = (Inl e, w') \<Longrightarrow>
      tasks w' = tasks w \<or>
      (\<exists>cur t'. tasks w (task_key t) = Some cur \<and> status_written cur t t' \<and> tasks w' = (tasks w)(task_key t \<mapsto> t'))"
    and get_secret_quiet: "tasks (snd (run_state (env_get_secret E ns nm) w)) = tasks w"

locale task_api = task_store E tasks
  for E :: "'w env" and tasks :: "'w \<Rightarrow> (string \<times> string \<rightharpoonup> SnapshotPodTask)" +
  assumes get_task_ok: "fst (run_state (env_get_task E ns nm) w) = Inr t \<Longrightarrow> tasks w (ns, nm) = Some t"
    and get_task_not_found: "fst (run_state (env_get_task E ns nm) w) = Inl e \<Longrightarrow> IsNotFound e \<Longrightarrow> tasks w (ns, nm) = None"

section \<open>The whole API server\<close>

text \<open>A label selector that asks for exact values (\<^verbatim>\<open>MatchLabels\<close>).\<close>
definition labels_match :: "string gomap \<Rightarrow> string gomap \<Rightarrow> bool" where
  "labels_match sel labels = list_all (\<lambda>(k, v). map_of (map_entries labels) k = Some v) (map_entries sel)"

text \<open>The defaults of the custom resource definition, which the server fills in for fields that were
  left out (a zero is left out).\<close>
definition crd_defaults :: "SnapshotPodTaskSpec \<Rightarrow> SnapshotPodTaskSpec" where
  "crd_defaults sp = sp\<lparr>
     spts_MaxRetries := (if spts_MaxRetries sp = 0 then 3 else spts_MaxRetries sp),
     spts_RetryDelaySeconds := (if spts_RetryDelaySeconds sp = 0 then 30 else spts_RetryDelaySeconds sp)\<rparr>"

lemma crd_defaults_sel [simp]:
  "spts_NodeName (crd_defaults sp) = spts_NodeName sp" "spts_PodName (crd_defaults sp) = spts_PodName sp"
  "spts_ContainerID (crd_defaults sp) = spts_ContainerID sp" "spts_CommitOptions (crd_defaults sp) = spts_CommitOptions sp"
  "spts_OriginImage (crd_defaults sp) = spts_OriginImage sp" "spts_CommitImage (crd_defaults sp) = spts_CommitImage sp"
  "spts_RegistrySecretRef (crd_defaults sp) = spts_RegistrySecretRef sp"
  by (simp_all add: crd_defaults_def)

text \<open>What a created object \<open>t'\<close> has of the object \<open>t\<close> that was sent: all but the status, the
  metadata the server fills in, and the defaults.\<close>
definition created :: "SnapshotPodTask \<Rightarrow> SnapshotPodTask \<Rightarrow> bool" where
  "created t t' \<longleftrightarrow> (\<exists>v u c. t' = t\<lparr>spt_Spec := crd_defaults (spt_Spec t), spt_Status := empty_task_status,
     spt_meta := (spt_meta t)\<lparr>om_ResourceVersion := v, om_UID := u, om_CreationTimestamp := c\<rparr>\<rparr>)"

definition sp_status_written :: "SnapshotPod \<Rightarrow> SnapshotPod \<Rightarrow> SnapshotPod \<Rightarrow> bool" where
  "sp_status_written cur p p' \<longleftrightarrow>
     (\<exists>v. p' = cur\<lparr>sp_Status := wire_sp_status (sp_Status p),
                  sp_meta := (sp_meta cur)\<lparr>om_ResourceVersion := v\<rparr>\<rparr>)"

text \<open>
  The store of tasks together with the store of \<^verbatim>\<open>SnapshotPod\<close> objects. Creating never replaces an
  object; a call that reports an error may still have taken effect (a timeout), except that
  AlreadyExists and NotFound mean what they say.
\<close>
locale cluster_store = task_store E tasks + sp_os: os_frame E sps
  for E :: "'w env" and tasks :: "'w \<Rightarrow> (string \<times> string \<rightharpoonup> SnapshotPodTask)"
    and sps :: "'w \<Rightarrow> (string \<times> string \<rightharpoonup> SnapshotPod)" +
  assumes sp_keyed: "sps w k = Some p \<Longrightarrow> sp_key p = k"
    and get_task_sps: "sps (snd (run_state (env_get_task E ns nm) w)) = sps w"
    and update_task_sps: "sps (snd (run_state (env_update_task_status E t) w)) = sps w"
    and get_secret_sps: "sps (snd (run_state (env_get_secret E ns nm) w)) = sps w"
    and get_sp_tasks: "tasks (snd (run_state (env_get_snapshotpod E ns nm) w)) = tasks w"
    and get_sp_sps: "sps (snd (run_state (env_get_snapshotpod E ns nm) w)) = sps w"
    and get_pod_tasks: "tasks (snd (run_state (env_get_pod E ns nm) w)) = tasks w"
    and get_pod_sps: "sps (snd (run_state (env_get_pod E ns nm) w)) = sps w"
    and list_pods_tasks: "tasks (snd (run_state (env_list_pods E ns sel) w)) = tasks w"
    and list_pods_sps: "sps (snd (run_state (env_list_pods E ns sel) w)) = sps w"
    and uuid_tasks: "tasks (snd (run_state (env_uuid E) w)) = tasks w"
    and uuid_sps: "sps (snd (run_state (env_uuid E) w)) = sps w"
    and order_tasks: "tasks (snd (run_state (env_map_order E ks) w)) = tasks w"
    and order_sps: "sps (snd (run_state (env_map_order E ks) w)) = sps w"
    and list_tasks_tasks: "tasks (snd (run_state (env_list_tasks E sel) w)) = tasks w"
    and list_tasks_sps: "sps (snd (run_state (env_list_tasks E sel) w)) = sps w"
    and create_sps: "sps (snd (run_state (env_create_task E t) w)) = sps w"
    and create_ok: "run_state (env_create_task E t) w = (Inr t', w') \<Longrightarrow>
      tasks w (task_key t) = None \<and> created t t' \<and> tasks w' = (tasks w)(task_key t \<mapsto> t')"
    and create_exists: "run_state (env_create_task E t) w = (Inl e, w') \<Longrightarrow> IsAlreadyExists e \<Longrightarrow>
      tasks w (task_key t) \<noteq> None \<and> tasks w' = tasks w"
    and create_err: "run_state (env_create_task E t) w = (Inl e, w') \<Longrightarrow> tasks w' = tasks w \<or>
      tasks w (task_key t) = None \<and> (\<exists>t'. created t t' \<and> tasks w' = (tasks w)(task_key t \<mapsto> t'))"
    and update_sp_tasks: "tasks (snd (run_state (env_update_snapshotpod_status E p) w)) = tasks w"
    and update_sp_ok: "run_state (env_update_snapshotpod_status E p) w = (Inr p', w') \<Longrightarrow>
      \<exists>cur. sps w (sp_key p) = Some cur \<and> sp_status_written cur p p' \<and> sps w' = (sps w)(sp_key p \<mapsto> p')"
    and update_sp_err: "run_state (env_update_snapshotpod_status E p) w = (Inl e, w') \<Longrightarrow>
      sps w' = sps w \<or>
      (\<exists>cur p'. sps w (sp_key p) = Some cur \<and> sp_status_written cur p p' \<and> sps w' = (sps w)(sp_key p \<mapsto> p'))"

locale cluster_api = cluster_store E tasks sps + task_api E tasks
  for E :: "'w env" and tasks :: "'w \<Rightarrow> (string \<times> string \<rightharpoonup> SnapshotPodTask)"
    and sps :: "'w \<Rightarrow> (string \<times> string \<rightharpoonup> SnapshotPod)" +
  assumes get_sp_ok: "fst (run_state (env_get_snapshotpod E ns nm) w) = Inr p \<Longrightarrow> sps w (ns, nm) = Some p"
    and list_tasks_ok: "fst (run_state (env_list_tasks E sel) w) = Inr ts \<Longrightarrow>
      t \<in> set ts \<longleftrightarrow> tasks w (task_key t) = Some t \<and> labels_match sel (om_Labels (spt_meta t))"

section \<open>SnapshotPod objects for the webhook and the collector\<close>

text \<open>A stored update of \<open>p\<close> over \<open>cur\<close>: the spec that was sent, the status that was there (a
  subresource), metadata with the same identity.\<close>
definition spec_written :: "SnapshotPod \<Rightarrow> SnapshotPod \<Rightarrow> SnapshotPod \<Rightarrow> bool" where
  "spec_written cur p p' \<longleftrightarrow> sp_Spec p' = sp_Spec p \<and> sp_Status p' = sp_Status cur \<and> sp_key p' = sp_key p"

locale sp_store =
  fixes E :: "'w env" and sps :: "'w \<Rightarrow> (string \<times> string \<rightharpoonup> SnapshotPod)"
  assumes sp_filed: "sps w k = Some p \<Longrightarrow> sp_key p = k"
    and list_sps_quiet: "sps (snd (run_state (env_list_snapshotpods E ns) w)) = sps w"
    and range_quiet: "sps (snd (run_state (env_map_order E ks) w)) = sps w"
    and range_keys: "mset (fst (run_state (env_map_order E ks) w)) = mset ks"
    and update_spec_ok: "run_state (env_update_snapshotpod E p) w = (Inr p', w') \<Longrightarrow>
      \<exists>cur. sps w (sp_key p) = Some cur \<and> spec_written cur p p' \<and> sps w' = (sps w)(sp_key p \<mapsto> p')"
    and update_spec_err: "run_state (env_update_snapshotpod E p) w = (Inl e, w') \<Longrightarrow> sps w' = sps w \<or>
      (\<exists>cur p'. sps w (sp_key p) = Some cur \<and> spec_written cur p p' \<and> sps w' = (sps w)(sp_key p \<mapsto> p'))"

locale sp_api = sp_store E sps
  for E :: "'w env" and sps :: "'w \<Rightarrow> (string \<times> string \<rightharpoonup> SnapshotPod)" +
  assumes list_sps_ok: "fst (run_state (env_list_snapshotpods E (Some n)) w) = Inr items \<Longrightarrow>
      p \<in> set items \<longleftrightarrow> sps w (sp_key p) = Some p \<and> om_Namespace (sp_meta p) = n"
    and list_all_sps_ok: "fst (run_state (env_list_snapshotpods E None) w) = Inr items \<Longrightarrow>
      p \<in> set items \<longleftrightarrow> sps w (sp_key p) = Some p"

text \<open>Both views of the API server together.\<close>
locale webhook_store = cluster_store E tasks sps + sp_store E sps
  for E :: "'w env" and tasks :: "'w \<Rightarrow> (string \<times> string \<rightharpoonup> SnapshotPodTask)"
    and sps :: "'w \<Rightarrow> (string \<times> string \<rightharpoonup> SnapshotPod)" +
  assumes list_sps_tasks: "tasks (snd (run_state (env_list_snapshotpods E ns) w)) = tasks w"
    and update_spec_tasks: "tasks (snd (run_state (env_update_snapshotpod E p) w)) = tasks w"

locale webhook_api = webhook_store E tasks sps + cluster_api E tasks sps + sp_api E sps
  for E :: "'w env" and tasks :: "'w \<Rightarrow> (string \<times> string \<rightharpoonup> SnapshotPodTask)"
    and sps :: "'w \<Rightarrow> (string \<times> string \<rightharpoonup> SnapshotPod)"

section \<open>Resource versions\<close>

abbreviation task_version :: "SnapshotPodTask \<Rightarrow> nat" where
  "task_version t \<equiv> om_ResourceVersion (spt_meta t)"

abbreviation sp_version :: "SnapshotPod \<Rightarrow> nat" where
  "sp_version p \<equiv> om_ResourceVersion (sp_meta p)"

text \<open>
  Optimistic locking. An update of an object that carries another version than the stored one is
  refused without effect; an update that changes the stored object grows its version.
\<close>
locale versioned_store = webhook_store E tasks sps
  for E :: "'w env" and tasks :: "'w \<Rightarrow> (string \<times> string \<rightharpoonup> SnapshotPodTask)"
    and sps :: "'w \<Rightarrow> (string \<times> string \<rightharpoonup> SnapshotPod)" +
  assumes task_locked: "tasks w (task_key t) = Some cur \<Longrightarrow> task_version cur \<noteq> task_version t \<Longrightarrow>
      run_state (env_update_task_status E t) w = (u, w') \<Longrightarrow> isl u \<and> tasks w' = tasks w"
    and task_grows: "tasks w (task_key t) = Some cur \<Longrightarrow> run_state (env_update_task_status E t) w = (u, w') \<Longrightarrow>
      tasks w' (task_key t) = Some t' \<Longrightarrow> t' = cur \<or> task_version cur < task_version t'"
    and sp_locked: "sps w (sp_key p) = Some cur' \<Longrightarrow> sp_version cur' \<noteq> sp_version p \<Longrightarrow>
      run_state (env_update_snapshotpod_status E p) w = (u', w') \<Longrightarrow> isl u' \<and> sps w' = sps w"
    and sp_grows: "sps w (sp_key p) = Some cur' \<Longrightarrow> run_state (env_update_snapshotpod_status E p) w = (u', w') \<Longrightarrow>
      sps w' (sp_key p) = Some p' \<Longrightarrow> p' = cur' \<or> sp_version cur' < sp_version p'"
    and spec_locked: "sps w (sp_key p) = Some cur' \<Longrightarrow> sp_version cur' \<noteq> sp_version p \<Longrightarrow>
      run_state (env_update_snapshotpod E p) w = (u', w') \<Longrightarrow> isl u' \<and> sps w' = sps w"
    and spec_grows: "sps w (sp_key p) = Some cur' \<Longrightarrow> run_state (env_update_snapshotpod E p) w = (u', w') \<Longrightarrow>
      sps w' (sp_key p) = Some p' \<Longrightarrow> p' = cur' \<or> sp_version cur' < sp_version p'"

end
