(* ===== verification/SimWorld.thy ===== *)
theory SimWorld
  imports Contracts "HOL-Library.AList"
begin

text \<open>
  A concrete world: an in-memory API server with optimistic locking and injectable faults, a clock
  that advances by one second per reading, a scripted operating system that logs the programs it
  runs, and small executable versions of the third-party functions. It plays the part of the fake
  client of the repository's tests: it satisfies every contract of \<open>Contracts\<close> (the interpretations
  below), and the witnesses of the development run on it.
\<close>

record sim_world =
  sw_clock :: gotime
  sw_calls :: nat
  sw_fault :: "nat \<Rightarrow> bool"
  sw_script :: "nat \<Rightarrow> string list \<Rightarrow> string \<times> go_error option"
  sw_cmds :: "command list"
  sw_dirs :: "nat list"
  sw_tasks :: "((string \<times> string) \<times> SnapshotPodTask) list"
  sw_sps :: "((string \<times> string) \<times> SnapshotPod) list"
  sw_pods :: "((string \<times> string) \<times> pod) list"
  sw_secrets :: "((string \<times> string) \<times> secret) list"

section \<open>Operating system\<close>

definition sim_now :: "(sim_world, gotime) state" where
  "sim_now = State (\<lambda>w. (sw_clock w, w\<lparr>sw_clock := sw_clock w + second_ns\<rparr>))"

definition sim_exec ::
  "ctx \<Rightarrow> string \<Rightarrow> string list \<Rightarrow> (string \<rightharpoonup> string) \<Rightarrow> (sim_world, string \<times> go_error option) state" where
  "sim_exec c cmd args vars = State (\<lambda>w. (sw_script w (length (sw_cmds w)) args,
     w\<lparr>sw_cmds := sw_cmds w @ [\<lparr>cmd_Name = cmd, cmd_Args = args, cmd_DockerConfig = vars ''DOCKER_CONFIG''\<rparr>]\<rparr>))"

definition sim_dir_name :: "nat \<Rightarrow> string" where
  "sim_dir_name n = ''/tmp/.docker-config-'' @ replicate n (CHR ''x'')"

definition sim_mkdir_temp :: "string \<Rightarrow> string \<Rightarrow> (sim_world, go_error + string) state" where
  "sim_mkdir_temp dir pat = State (\<lambda>w. let n = Suc (foldr max (sw_dirs w) 0) in
     (Inr (sim_dir_name n), w\<lparr>sw_dirs := n # sw_dirs w\<rparr>))"

definition sim_write_file :: "string \<Rightarrow> string \<Rightarrow> (sim_world, go_error option) state" where
  "sim_write_file path bytes = State (\<lambda>w. (None, w))"

definition sim_remove_all :: "string \<Rightarrow> (sim_world, go_error option) state" where
  "sim_remove_all path = State (\<lambda>w. (None, w\<lparr>sw_dirs := filter (\<lambda>n. sim_dir_name n \<noteq> path) (sw_dirs w)\<rparr>))"

section \<open>API server\<close>

text \<open>Every API call has a number; the fault script decides which of them fail.\<close>
definition api_call :: "(sim_world \<Rightarrow> (go_error + 'a) \<times> sim_world) \<Rightarrow> (sim_world, go_error + 'a) state" where
  "api_call f = State (\<lambda>w.
     let w' = w\<lparr>sw_calls := Suc (sw_calls w)\<rparr> in
     if sw_fault w (sw_calls w) then (Inl (ApiError ReasonOther ''etcdserver: request timed out''), w')
     else f w')"

definition not_found :: "go_error + 'a" where
  "not_found = Inl (ApiError ReasonNotFound ''not found'')"

definition conflict :: "go_error + 'a" where
  "conflict = Inl (ApiError ReasonConflict ''the object has been modified'')"

definition lookup_api :: "(sim_world \<Rightarrow> ((string \<times> string) \<times> 'a) list) \<Rightarrow> string \<Rightarrow> string \<Rightarrow> (sim_world, go_error + 'a) state" where
  "lookup_api store ns nm = api_call (\<lambda>w.
     (case map_of (store w) (ns, nm) of None \<Rightarrow> not_found | Some x \<Rightarrow> Inr x, w))"

definition sim_get_task :: "string \<Rightarrow> string \<Rightarrow> (sim_world, go_error + SnapshotPodTask) state" where
  "sim_get_task ns nm = api_call (\<lambda>w.
     (case map_of (sw_tasks w) (ns, nm) of None \<Rightarrow> not_found
      | Some t \<Rightarrow> if task_key t = (ns, nm) then Inr t else not_found, w))"

definition sim_update_task_status :: "SnapshotPodTask \<Rightarrow> (sim_world, go_error + SnapshotPodTask) state" where
  "sim_update_task_status t = api_call (\<lambda>w.
     (case map_of (sw_tasks w) (task_key t) of
        None \<Rightarrow> (not_found, w)
      | Some cur \<Rightarrow>
          if om_ResourceVersion (spt_meta cur) \<noteq> om_ResourceVersion (spt_meta t) \<or> task_key cur \<noteq> task_key t
          then (conflict, w)
          else let t' = cur\<lparr>spt_Status := wire_task_status (spt_Status t),
                 spt_meta := (spt_meta cur)\<lparr>om_ResourceVersion := Suc (om_ResourceVersion (spt_meta t))\<rparr>\<rparr>
               in (Inr t', w\<lparr>sw_tasks := AList.update (task_key t) t' (sw_tasks w)\<rparr>)))"

definition sim_create_task :: "SnapshotPodTask \<Rightarrow> (sim_world, go_error + SnapshotPodTask) state" where
  "sim_create_task t = api_call (\<lambda>w.
     (case map_of (sw_tasks w) (task_key t) of
        Some x \<Rightarrow> (if task_key x = task_key t then Inl (ApiError ReasonAlreadyExists ''already exists'') else conflict, w)
      | None \<Rightarrow> let t' = t\<lparr>spt_Spec := crd_defaults (spt_Spec t), spt_Status := empty_task_status,
                 spt_meta := (spt_meta t)\<lparr>om_ResourceVersion := 1, om_CreationTimestamp := wire_time (sw_clock w)\<rparr>\<rparr>
               in (Inr t', w\<lparr>sw_tasks := AList.update (task_key t) t' (sw_tasks w)\<rparr>)))"

text \<open>The observers of the two stores: entries filed under their own key.\<close>
definition sim_task_store :: "sim_world \<Rightarrow> (string \<times> string \<rightharpoonup> SnapshotPodTask)" where
  "sim_task_store w k = (case map_of (sw_tasks w) k of
     None \<Rightarrow> None | Some t \<Rightarrow> if task_key t = k then Some t else None)"

definition sim_sp_store :: "sim_world \<Rightarrow> (string \<times> string \<rightharpoonup> SnapshotPod)" where
  "sim_sp_store w k = (case map_of (sw_sps w) k of
     None \<Rightarrow> None | Some p \<Rightarrow> if sp_key p = k then Some p else None)"

definition sim_get_sp :: "string \<Rightarrow> string \<Rightarrow> (sim_world, go_error + SnapshotPod) state" where
  "sim_get_sp ns nm = api_call (\<lambda>w. (case sim_sp_store w (ns, nm) of None \<Rightarrow> not_found | Some p \<Rightarrow> Inr p, w))"

definition sim_list_tasks :: "string gomap \<Rightarrow> (sim_world, go_error + SnapshotPodTask list) state" where
  "sim_list_tasks sel = api_call (\<lambda>w.
     (Inr (filter (\<lambda>t. sim_task_store w (task_key t) = Some t \<and> labels_match sel (om_Labels (spt_meta t)))
        (map snd (sw_tasks w))), w))"

definition sim_list_pods :: "string \<Rightarrow> string gomap \<Rightarrow> (sim_world, go_error + pod list) state" where
  "sim_list_pods ns sel = api_call (\<lambda>w. (Inr (filter (\<lambda>p.
     om_Namespace (pod_meta p) = ns \<and> labels_match sel (om_Labels (pod_meta p))) (map snd (sw_pods w))), w))"

definition sim_list_sps :: "string option \<Rightarrow> (sim_world, go_error + SnapshotPod list) state" where
  "sim_list_sps ns = api_call (\<lambda>w. (Inr (filter (\<lambda>p. sim_sp_store w (sp_key p) = Some p \<and>
     (ns = None \<or> ns = Some (om_Namespace (sp_meta p)))) (map snd (sw_sps w))), w))"

definition sim_store_sp ::
  "(SnapshotPod \<Rightarrow> SnapshotPod \<Rightarrow> SnapshotPod) \<Rightarrow> SnapshotPod \<Rightarrow> (sim_world, go_error + SnapshotPod) state" where
  "sim_store_sp merge p = api_call (\<lambda>w.
     (case map_of (sw_sps w) (sp_key p) of
        None \<Rightarrow> (not_found, w)
      | Some cur \<Rightarrow>
          if om_ResourceVersion (sp_meta cur) \<noteq> om_ResourceVersion (sp_meta p) \<or> sp_key cur \<noteq> sp_key p
          then (conflict, w)
          else let p' = (merge cur p)\<lparr>
                 sp_meta := (sp_meta cur)\<lparr>om_ResourceVersion := Suc (om_ResourceVersion (sp_meta cur))\<rparr>\<rparr>
               in (Inr p', w\<lparr>sw_sps := AList.update (sp_key p) p' (sw_sps w)\<rparr>)))"

section \<open>Third-party functions\<close>

text \<open>Image references of the shape \<open>[//][domain/]path[:tag][@sha256:hex]\<close>.\<close>
definition sim_parse_reference :: "string \<Rightarrow> go_error + named_ref" where
  "sim_parse_reference s =
     (let body = TrimPrefix s ''//'';
          parts = str_split body ''@sha256:'';
          digest = (if length parts = 2 then Some (parts ! 1) else None);
          named = parts ! 0;
          comps = str_split named ''/'';
          has_dom = (2 \<le> length comps \<and> str_contains (hd comps) ''.'');
          dom = (if has_dom then hd comps else ''docker.io'');
          rest = str_join (if has_dom then tl comps else if length comps = 1 then [''library'', named] else comps) ''/'';
          pt = str_split rest '':'';
          tag = (if length pt = 2 then Some (pt ! 1) else if digest = None then Some ''latest'' else None)
      in if named = [] \<or> list_ex (\<lambda>c. c \<in> {CHR ''{'', CHR ''}'', CHR '' ''}) body
         then Inl (PlainError ''invalid reference format'')
         else Inr \<lparr>nr_Domain = dom, nr_Path = pt ! 0, nr_Tag = tag, nr_DigestHex = digest\<rparr>)"

definition sim_with_tag :: "named_ref \<Rightarrow> string \<Rightarrow> go_error + named_ref" where
  "sim_with_tag r tag = (if tag = [] then Inl (PlainError ''invalid tag format'') else Inr (r\<lparr>nr_Tag := Some tag\<rparr>))"

definition sim_ref_string :: "named_ref \<Rightarrow> string" where
  "sim_ref_string r = nr_Domain r @ ''/'' @ nr_Path r
     @ (case nr_Tag r of None \<Rightarrow> [] | Some t \<Rightarrow> '':'' @ t)
     @ (case nr_DigestHex r of None \<Rightarrow> [] | Some h \<Rightarrow> ''@sha256:'' @ h)"

definition sim_semver_parse :: "string \<Rightarrow> semver option" where
  "sim_semver_parse s = map_of [
     (''2.0.0'', \<lparr>sv_Major = 2, sv_Minor = 0, sv_Patch = 0, sv_Prerelease = []\<rparr>),
     (''2.1.2'', \<lparr>sv_Major = 2, sv_Minor = 1, sv_Patch = 2, sv_Prerelease = []\<rparr>),
     (''2.1.3'', \<lparr>sv_Major = 2, sv_Minor = 1, sv_Patch = 3, sv_Prerelease = []\<rparr>)] s"

definition sim_semver_less :: "semver \<Rightarrow> semver \<Rightarrow> bool" where
  "sim_semver_less a b \<longleftrightarrow> sv_Major a < sv_Major b \<or> sv_Major a = sv_Major b \<and>
     (sv_Minor a < sv_Minor b \<or> sv_Minor a = sv_Minor b \<and> sv_Patch a < sv_Patch b)"

definition sim_controller_ref :: "object_meta \<Rightarrow> group_version \<Rightarrow> string \<Rightarrow> owner_reference" where
  "sim_controller_ref m gv kind = \<lparr>or_APIVersion = gv_Group gv @ ''/'' @ gv_Version gv, or_Kind = kind,
     or_Name = om_Name m, or_UID = om_UID m, or_Controller = True\<rparr>"

definition sim_env :: "sim_world env" where
  "sim_env = \<lparr>
     env_now = sim_now,
     env_uuid = State_Monad.return ''01234567-89ab-cdef-0123-456789abcdef'',
     env_exec = sim_exec,
     env_mkdir_temp = sim_mkdir_temp,
     env_write_file = sim_write_file,
     env_remove_all = sim_remove_all,
     env_get_snapshotpod = sim_get_sp,
     env_list_snapshotpods = sim_list_sps,
     env_update_snapshotpod = sim_store_sp (\<lambda>cur p. p\<lparr>sp_Status := sp_Status cur\<rparr>),
     env_update_snapshotpod_status = sim_store_sp (\<lambda>cur p. cur\<lparr>sp_Status := wire_sp_status (sp_Status p)\<rparr>),
     env_get_task = sim_get_task,
     env_list_tasks = sim_list_tasks,
     env_create_task = sim_create_task,
     env_update_task_status = sim_update_task_status,
     env_get_pod = lookup_api sw_pods,
     env_list_pods = sim_list_pods,
     env_get_secret = lookup_api sw_secrets,
     env_parse_reference = sim_parse_reference,
     env_with_tag = sim_with_tag,
     env_ref_string = sim_ref_string,
     env_float_ns = (\<lambda>f unit scale. f * unit div scale),
     env_semver_parse = sim_semver_parse,
     env_semver_less = sim_semver_less,
     env_semver_ge = (\<lambda>a b. \<not> sim_semver_less a b),
     env_new_containerd_client = State_Monad.return None,
     env_containerd_server_version = State_Monad.return (Inr \<lparr>sv_Major = 2, sv_Minor = 0, sv_Patch = 0, sv_Prerelease = []\<rparr>),
     env_new_controller_ref = sim_controller_ref,
     env_map_order = State_Monad.return\<rparr>"

lemma sim_env_sel [simp]:
  "env_now sim_env = sim_now"
  "env_uuid sim_env = State_Monad.return ''01234567-89ab-cdef-0123-456789abcdef''"
  "env_exec sim_env = sim_exec"
  "env_mkdir_temp sim_env = sim_mkdir_temp"
  "env_write_file sim_env = sim_write_file"
  "env_remove_all sim_env = sim_remove_all"
  "env_get_snapshotpod sim_env = sim_get_sp"
  "env_list_snapshotpods sim_env = sim_list_sps"
  "env_update_snapshotpod sim_env = sim_store_sp (\<lambda>cur p. p\<lparr>sp_Status := sp_Status cur\<rparr>)"
  "env_update_snapshotpod_status sim_env = sim_store_sp (\<lambda>cur p. cur\<lparr>sp_Status := wire_sp_status (sp_Status p)\<rparr>)"
  "env_get_task sim_env = sim_get_task"
  "env_list_tasks sim_env = sim_list_tasks"
  "env_create_task sim_env = sim_create_task"
  "env_update_task_status sim_env = sim_update_task_status"
  "env_get_pod sim_env = lookup_api sw_pods"
  "env_list_pods sim_env = sim_list_pods"
  "env_get_secret sim_env = lookup_api sw_secrets"
  "env_parse_reference sim_env = sim_parse_reference"
  "env_with_tag sim_env = sim_with_tag"
  "env_ref_string sim_env = sim_ref_string"
  "env_float_ns sim_env = (\<lambda>f unit scale. f * unit div scale)"
  "env_semver_parse sim_env = sim_semver_parse"
  "env_semver_less sim_env = sim_semver_less"
  "env_semver_ge sim_env = (\<lambda>a b. \<not> sim_semver_less a b)"
  "env_new_containerd_client sim_env = State_Monad.return None"
  "env_containerd_server_version sim_env = State_Monad.return (Inr \<lparr>sv_Major = 2, sv_Minor = 0, sv_Patch = 0, sv_Prerelease = []\<rparr>)"
  "env_new_controller_ref sim_env = sim_controller_ref"
  "env_map_order sim_env = State_Monad.return"
  by (simp_all add: sim_env_def)

definition sim_dir_set :: "sim_world \<Rightarrow> string set" where
  "sim_dir_set w = sim_dir_name ` set (sw_dirs w)"

section \<open>The simulated world satisfies the contracts\<close>

lemmas sim_os_defs = sim_now_def sim_exec_def sim_mkdir_temp_def sim_write_file_def sim_remove_all_def

lemma sim_dir_name_inj [simp]: "sim_dir_name m = sim_dir_name n \<longleftrightarrow> m = n"
  by (auto simp: sim_dir_name_def)

lemma foldr_max_ge: "x \<in> set xs \<Longrightarrow> x \<le> foldr max xs (0::nat)"
  by (induction xs) auto

interpretation sim_log: os_log sim_env sw_cmds sim_dir_set
proof
  fix dir pat path w w'
  assume "run_state (env_mkdir_temp sim_env dir pat) w = (Inr path, w')"
  then show "path \<notin> sim_dir_set w \<and> sim_dir_set w' = insert path (sim_dir_set w)"
    by (auto simp: sim_os_defs sim_dir_set_def Let_def dest: foldr_max_ge)
qed (auto simp: sim_os_defs sim_dir_set_def Let_def)

text \<open>The three outcomes of a status update: nothing stored, with an error, or the new object stored.\<close>
lemma sim_update_cases:
  assumes "run_state (sim_update_task_status t) w = (r, w')"
  obtains e where "r = Inl e" and "sw_tasks w' = sw_tasks w"
  | cur t' where "r = Inr t'" and "map_of (sw_tasks w) (task_key t) = Some cur" and "task_key cur = task_key t"
      and "t' = cur\<lparr>spt_Status := wire_task_status (spt_Status t),
        spt_meta := (spt_meta cur)\<lparr>om_ResourceVersion := Suc (om_ResourceVersion (spt_meta t))\<rparr>\<rparr>"
      and "sw_tasks w' = AList.update (task_key t) t' (sw_tasks w)"
  using assms
  by (auto simp: sim_update_task_status_def api_call_def Let_def not_found_def conflict_def
    split: if_splits option.splits)

lemma sim_task_store_update:
  assumes "sw_tasks w' = AList.update k t (sw_tasks w)" and "task_key t = k"
  shows "sim_task_store w' = (sim_task_store w)(k \<mapsto> t)"
  using assms by (auto simp: sim_task_store_def update_conv' fun_eq_iff)

lemma sim_task_store_cong: "sw_tasks w' = sw_tasks w \<Longrightarrow> sim_task_store w' = sim_task_store w"
  by (simp add: sim_task_store_def fun_eq_iff)

interpretation sim_tasks: task_api sim_env sim_task_store
proof
  fix t w t' w'
  assume "run_state (env_update_task_status sim_env t) w = (Inr t', w')"
  then show "\<exists>cur. sim_task_store w (task_key t) = Some cur \<and> status_written cur t t' \<and>
    sim_task_store w' = (sim_task_store w)(task_key t \<mapsto> t')"
    unfolding sim_env_sel
    by (cases rule: sim_update_cases) (auto simp: sim_task_store_def [of w] status_written_def sim_task_store_update)
next
  fix t w e w'
  assume "run_state (env_update_task_status sim_env t) w = (Inl e, w')"
  then have "sim_task_store w' = sim_task_store w"
    unfolding sim_env_sel by (cases rule: sim_update_cases) (auto intro: sim_task_store_cong)
  then show "sim_task_store w' = sim_task_store w \<or>
    (\<exists>cur t'. sim_task_store w (task_key t) = Some cur \<and> status_written cur t t' \<and>
      sim_task_store w' = (sim_task_store w)(task_key t \<mapsto> t'))" ..
qed (auto simp: sim_os_defs sim_get_task_def lookup_api_def api_call_def Let_def not_found_def
  sim_task_store_def split: if_splits option.splits)

text \<open>Likewise for the rest of the API server.\<close>
lemma sim_create_cases:
  assumes "run_state (sim_create_task t) w = (r, w')"
  obtains e where "r = Inl e" and "sw_tasks w' = sw_tasks w" and "IsAlreadyExists e \<Longrightarrow> sim_task_store w (task_key t) \<noteq> None"
  | t' where "r = Inr t'" and "map_of (sw_tasks w) (task_key t) = None"
      and "t' = t\<lparr>spt_Spec := crd_defaults (spt_Spec t), spt_Status := empty_task_status,
        spt_meta := (spt_meta t)\<lparr>om_ResourceVersion := 1, om_CreationTimestamp := wire_time (sw_clock w)\<rparr>\<rparr>"
      and "sw_tasks w' = AList.update (task_key t) t' (sw_tasks w)"
  using assms by (auto simp: sim_create_task_def api_call_def Let_def sim_task_store_def conflict_def split: if_splits option.splits)

lemma sim_store_sp_cases:
  assumes "run_state (sim_store_sp (\<lambda>cur p. cur\<lparr>sp_Status := wire_sp_status (sp_Status p)\<rparr>) p) w = (r, w')"
  obtains e where "r = Inl e" and "sw_sps w' = sw_sps w"
  | cur p' where "r = Inr p'" and "map_of (sw_sps w) (sp_key p) = Some cur" and "sp_key cur = sp_key p"
      and "p' = cur\<lparr>sp_Status := wire_sp_status (sp_Status p),
        sp_meta := (sp_meta cur)\<lparr>om_ResourceVersion := Suc (om_ResourceVersion (sp_meta p))\<rparr>\<rparr>"
      and "sw_sps w' = AList.update (sp_key p) p' (sw_sps w)"
  using assms by (auto simp: sim_store_sp_def api_call_def Let_def not_found_def conflict_def split: if_splits option.splits)

lemma sim_sp_store_update:
  assumes "sw_sps w' = AList.update k p (sw_sps w)" and "sp_key p = k"
  shows "sim_sp_store w' = (sim_sp_store w)(k \<mapsto> p)"
  using assms by (auto simp: sim_sp_store_def update_conv' fun_eq_iff)

lemma sim_sp_store_cong: "sw_sps w' = sw_sps w \<Longrightarrow> sim_sp_store w' = sim_sp_store w"
  by (simp add: sim_sp_store_def fun_eq_iff)

lemma sim_update_task_sps: "sw_sps (snd (run_state (sim_update_task_status t) w)) = sw_sps w"
  by (auto simp: sim_update_task_status_def api_call_def Let_def split: option.splits)

lemma sim_create_sps: "sw_sps (snd (run_state (sim_create_task t) w)) = sw_sps w"
  by (auto simp: sim_create_task_def api_call_def Let_def split: option.splits)

lemma sim_store_sp_tasks: "sw_tasks (snd (run_state (sim_store_sp m p) w)) = sw_tasks w"
  by (auto simp: sim_store_sp_def api_call_def Let_def split: option.splits)

lemma sim_lookup_quiet:
  "sw_tasks (snd (run_state (lookup_api f ns nm) w)) = sw_tasks w" "sw_sps (snd (run_state (lookup_api f ns nm) w)) = sw_sps w"
  "sw_tasks (snd (run_state (sim_get_sp ns nm) w)) = sw_tasks w" "sw_sps (snd (run_state (sim_get_sp ns nm) w)) = sw_sps w"
  "sw_tasks (snd (run_state (sim_list_pods ns sel) w)) = sw_tasks w" "sw_sps (snd (run_state (sim_list_pods ns sel) w)) = sw_sps w"
  "sw_tasks (snd (run_state (sim_list_tasks sel) w)) = sw_tasks w" "sw_sps (snd (run_state (sim_list_tasks sel) w)) = sw_sps w"
  "sw_sps (snd (run_state (sim_get_task ns nm) w)) = sw_sps w"
  by (simp_all add: lookup_api_def sim_get_sp_def sim_list_pods_def sim_list_tasks_def sim_get_task_def api_call_def Let_def)

interpretation sim_cluster: cluster_api sim_env sim_task_store sim_sp_store
proof
  fix t w t' w'
  assume "run_state (env_create_task sim_env t) w = (Inr t', w')"
  then show "sim_task_store w (task_key t) = None \<and> created t t' \<and> sim_task_store w' = (sim_task_store w)(task_key t \<mapsto> t')"
    unfolding sim_env_sel
  proof (cases rule: sim_create_cases)
    case (2 t2)
    then have "created t t'" unfolding created_def by (intro exI [of _ 1] exI [of _ "om_UID (spt_meta t)"] exI) simp
    with 2 show ?thesis by (auto simp: sim_task_store_def [of w] sim_task_store_update)
  qed simp
next
  fix t w e w'
  assume run: "run_state (env_create_task sim_env t) w = (Inl e, w')"
  then show "sim_task_store w' = sim_task_store w \<or> sim_task_store w (task_key t) = None \<and>
      (\<exists>t'. created t t' \<and> sim_task_store w' = (sim_task_store w)(task_key t \<mapsto> t'))"
    unfolding sim_env_sel by (cases rule: sim_create_cases) (auto intro: sim_task_store_cong)
  show "IsAlreadyExists e \<Longrightarrow> sim_task_store w (task_key t) \<noteq> None \<and> sim_task_store w' = sim_task_store w"
    using run unfolding sim_env_sel by (cases rule: sim_create_cases) (auto intro: sim_task_store_cong)
next
  fix p w p' w'
  assume "run_state (env_update_snapshotpod_status sim_env p) w = (Inr p', w')"
  then show "\<exists>cur. sim_sp_store w (sp_key p) = Some cur \<and> sp_status_written cur p p' \<and>
      sim_sp_store w' = (sim_sp_store w)(sp_key p \<mapsto> p')"
    unfolding sim_env_sel
    by (cases rule: sim_store_sp_cases) (auto simp: sim_sp_store_def [of w] sp_status_written_def sim_sp_store_update)
next
  fix p w e w'
  assume "run_state (env_update_snapshotpod_status sim_env p) w = (Inl e, w')"
  then have "sim_sp_store w' = sim_sp_store w"
    unfolding sim_env_sel by (cases rule: sim_store_sp_cases) (auto intro: sim_sp_store_cong)
  then show "sim_sp_store w' = sim_sp_store w \<or> (\<exists>cur p'. sim_sp_store w (sp_key p) = Some cur \<and>
      sp_status_written cur p p' \<and> sim_sp_store w' = (sim_sp_store w)(sp_key p \<mapsto> p'))" ..
next
  fix sel w ts t
  assume "fst (run_state (env_list_tasks sim_env sel) w) = Inr ts"
  then have ts: "ts = filter (\<lambda>t. sim_task_store w (task_key t) = Some t \<and> labels_match sel (om_Labels (spt_meta t)))
      (map snd (sw_tasks w))"
    by (auto simp: sim_list_tasks_def api_call_def Let_def sim_task_store_def fun_eq_iff split: if_splits)
  have "t \<in> set (map snd (sw_tasks w))" if "sim_task_store w (task_key t) = Some t"
    using that by (force simp: sim_task_store_def split: option.splits if_splits dest!: map_of_SomeD)
  then show "t \<in> set ts \<longleftrightarrow> sim_task_store w (task_key t) = Some t \<and> labels_match sel (om_Labels (spt_meta t))"
    unfolding ts by auto
qed (auto simp: sim_os_defs sim_sp_store_def [abs_def] sim_task_store_def [abs_def] sim_update_task_sps sim_create_sps sim_store_sp_tasks
  sim_lookup_quiet sim_get_sp_def api_call_def Let_def not_found_def split: if_splits option.splits)

text \<open>And for what the webhook uses of it.\<close>
lemma sim_update_spec_cases:
  assumes "run_state (sim_store_sp (\<lambda>cur p. p\<lparr>sp_Status := sp_Status cur\<rparr>) p) w = (r, w')"
  obtains e where "r = Inl e" and "sw_sps w' = sw_sps w"
  | cur p' where "r = Inr p'" and "map_of (sw_sps w) (sp_key p) = Some cur" and "sp_key cur = sp_key p"
      and "spec_written cur p p'" and "sw_sps w' = AList.update (sp_key p) p' (sw_sps w)"
  using assms by (auto simp: sim_store_sp_def api_call_def Let_def not_found_def conflict_def spec_written_def
    split: if_splits option.splits)

interpretation sim_webhook: sp_api sim_env sim_sp_store
proof
  fix p w p' w'
  assume "run_state (env_update_snapshotpod sim_env p) w = (Inr p', w')"
  then show "\<exists>cur. sim_sp_store w (sp_key p) = Some cur \<and> spec_written cur p p' \<and>
      sim_sp_store w' = (sim_sp_store w)(sp_key p \<mapsto> p')"
    unfolding sim_env_sel
    by (cases rule: sim_update_spec_cases) (auto simp: sim_sp_store_def [of w] spec_written_def sim_sp_store_update)
next
  fix p w e w'
  assume "run_state (env_update_snapshotpod sim_env p) w = (Inl e, w')"
  then have "sim_sp_store w' = sim_sp_store w"
    unfolding sim_env_sel by (cases rule: sim_update_spec_cases) (auto intro: sim_sp_store_cong)
  then show "sim_sp_store w' = sim_sp_store w \<or> (\<exists>cur p'. sim_sp_store w (sp_key p) = Some cur \<and>
      spec_written cur p p' \<and> sim_sp_store w' = (sim_sp_store w)(sp_key p \<mapsto> p'))" ..
next
  have stored: "p \<in> set (map snd (sw_sps w))" if "sim_sp_store w (sp_key p) = Some p" for p w
    using that by (force simp: sim_sp_store_def split: option.splits if_splits dest!: map_of_SomeD)
  fix n w items p
  have items: "items = filter (\<lambda>p. sim_sp_store w (sp_key p) = Some p \<and> (ns = None \<or> ns = Some (om_Namespace (sp_meta p))))
      (map snd (sw_sps w))" if "fst (run_state (env_list_snapshotpods sim_env ns) w) = Inr items" for ns
    using that by (auto simp: sim_list_sps_def api_call_def Let_def sim_sp_store_def fun_eq_iff split: if_splits)
  {
    assume list: "fst (run_state (env_list_snapshotpods sim_env (Some n)) w) = Inr items"
    show "p \<in> set items \<longleftrightarrow> sim_sp_store w (sp_key p) = Some p \<and> om_Namespace (sp_meta p) = n"
      unfolding items [OF list] using stored [of w p] by auto
  }
  {
    assume list: "fst (run_state (env_list_snapshotpods sim_env None) w) = Inr items"
    show "p \<in> set items \<longleftrightarrow> sim_sp_store w (sp_key p) = Some p" unfolding items [OF list] using stored [of w p] by auto
  }
qed (auto simp: sim_list_sps_def sim_sp_store_def [abs_def] api_call_def Let_def split: option.splits if_splits)

interpretation sim_cluster_webhook: webhook_api sim_env sim_task_store sim_sp_store
  by unfold_locales (auto simp: sim_list_sps_def sim_store_sp_tasks sim_task_store_def [abs_def] api_call_def Let_def)

text \<open>The simulated server locks optimistically.\<close>
interpretation sim_versions: versioned_store sim_env sim_task_store sim_sp_store
  by unfold_locales
    (auto simp: sim_update_task_status_def sim_store_sp_def sim_task_store_def sim_sp_store_def api_call_def Let_def
      not_found_def conflict_def isl_def update_conv' fun_eq_iff split: if_splits option.splits)

section \<open>Initial states for concrete runs\<close>

definition sim_start :: sim_world where
  "sim_start = \<lparr>sw_clock = 63870000000 * second_ns, sw_calls = 0, sw_fault = (\<lambda>_. False),
     sw_script = (\<lambda>_ _. ([], None)), sw_cmds = [], sw_dirs = [], sw_tasks = [], sw_sps = [],
     sw_pods = [], sw_secrets = []\<rparr>"

definition sim_state :: "sim_world \<Rightarrow> sim_world gstate" where
  "sim_state w = \<lparr>gs_world = w, gs_env = Map.empty, gs_metrics = []\<rparr>"

lemma sim_start_sel [simp]:
  "sw_clock sim_start = 63870000000 * second_ns" "sw_calls sim_start = 0" "sw_fault sim_start = (\<lambda>_. False)"
  "sw_script sim_start = (\<lambda>_ _. ([], None))" "sw_cmds sim_start = []" "sw_dirs sim_start = []"
  "sw_tasks sim_start = []" "sw_sps sim_start = []" "sw_pods sim_start = []" "sw_secrets sim_start = []"
  by (simp_all add: sim_start_def)

lemma sim_state_sel [simp]:
  "gs_world (sim_state w) = w" "gs_env (sim_state w) = Map.empty" "gs_metrics (sim_state w) = []"
  by (simp_all add: sim_state_def)

end
