(* ===== verification/Runtimes.thy ===== *)
theory Runtimes
  imports Metrics SimWorld
begin

text \<open>
  \<^verbatim>\<open>internal/controller/runtime\<close>: the \<^verbatim>\<open>Runtime\<close> interface (a record of its four methods), the
  implementation that drives a docker-compatible command line, and the containerd variant built on
  it. Running a program is a call of the environment; the process environment
  (\<^verbatim>\<open>DOCKER_CONFIG\<close>) is state of the model. The locale \<open>os_frame\<close> says that operating-system calls do
  not touch what an observer sees of the API server, \<open>runtime_contract\<close> is what the task controller
  relies on in a runtime; both implementations satisfy it.
\<close>

section \<open>The interface\<close>

record Auth =
  auth_Registry :: string
  auth_ConfigJSON :: string

record 'w Runtime =
  rt_Commit :: "ctx \<Rightarrow> string \<Rightarrow> string \<Rightarrow> bool \<Rightarrow> string \<Rightarrow> string \<Rightarrow> ('w, go_error option) go"
  rt_ImageExists :: "ctx \<Rightarrow> string \<Rightarrow> ('w, bool) go"
  rt_Pull :: "ctx \<Rightarrow> string \<Rightarrow> Auth option \<Rightarrow> string list \<Rightarrow> ('w, go_error option) go"
  rt_Push :: "ctx \<Rightarrow> string \<Rightarrow> Auth option \<Rightarrow> ('w, go_error option) go"

section \<open>The docker-compatible runtime\<close>

record dockerCompatibleRuntime =
  dcr_dockerCompatibleCommand :: string
  dcr_globalArgs :: "string list"

definition execCommandPOut ::
  "'w env \<Rightarrow> dockerCompatibleRuntime \<Rightarrow> ctx \<Rightarrow> string list \<Rightarrow> ('w, string \<times> go_error option) go" where
  "execCommandPOut E d c args = do {
     vars \<leftarrow> get_environ;
     in_world (env_exec E c (dcr_dockerCompatibleCommand d) (dcr_globalArgs d @ args) vars)
   }"

definition execCommand ::
  "'w env \<Rightarrow> dockerCompatibleRuntime \<Rightarrow> ctx \<Rightarrow> string list \<Rightarrow> ('w, go_error option) go" where
  "execCommand E d c args = do {
     vars \<leftarrow> get_environ;
     (out, err) \<leftarrow> in_world (env_exec E c (dcr_dockerCompatibleCommand d) (dcr_globalArgs d @ args) vars);
     State_Monad.return err
   }"

definition requireLogin ::
  "'w env \<Rightarrow> dockerCompatibleRuntime \<Rightarrow> ctx \<Rightarrow> Auth option \<Rightarrow> ('w, go_error option) go" where
  "requireLogin E d c auth = (case auth of
       None \<Rightarrow> State_Monad.return None
     | Some a \<Rightarrow> do {
         err \<leftarrow> execCommand E d c [''login'', auth_Registry a];
         State_Monad.return (map_option (\<lambda>e. PlainError (''login '' @ [CHR 0x27] @ auth_Registry a @ [CHR 0x27] @ '': '' @ error_text e)) err)
       })"

text \<open>The part of \<^verbatim>\<open>withLoginContextCommands\<close> between the two deferred calls and the return.\<close>
definition login_and_run ::
  "'w env \<Rightarrow> dockerCompatibleRuntime \<Rightarrow> ctx \<Rightarrow> Auth \<Rightarrow> string list \<Rightarrow> string \<Rightarrow> ('w, go_error option) go" where
  "login_and_run E d c a args tmp = do {
     werr \<leftarrow> in_world (env_write_file E (tmp @ ''/config.json'') (auth_ConfigJSON a));
     (case werr of
        Some err \<Rightarrow> State_Monad.return (Some err)
      | None \<Rightarrow> do {
          lerr \<leftarrow> requireLogin E d c (Some a);
          (case lerr of
             Some err \<Rightarrow> State_Monad.return (Some err)
           | None \<Rightarrow> do {
               err \<leftarrow> execCommand E d c args;
               State_Monad.return (map_option (\<lambda>e. PlainError (''after login: '' @ error_text e)) err)
             })
        })
   }"

definition withLoginContextCommands ::
  "'w env \<Rightarrow> dockerCompatibleRuntime \<Rightarrow> ctx \<Rightarrow> Auth option \<Rightarrow> string list \<Rightarrow> ('w, go_error option) go" where
  "withLoginContextCommands E d c auth args = (case auth of
       None \<Rightarrow> execCommand E d c args
     | Some a \<Rightarrow> do {
         r \<leftarrow> in_world (env_mkdir_temp E [] ''.docker-config-*'');
         (case r of
            Inl err \<Rightarrow> State_Monad.return (Some err)
          | Inr tmp \<Rightarrow> do {
              Setenv ''DOCKER_CONFIG'' tmp;
              err \<leftarrow> login_and_run E d c a args tmp;
              Unsetenv ''DOCKER_CONFIG'';
              in_world (env_remove_all E tmp);
              State_Monad.return err
            })
       })"

definition docker_commit_args :: "string \<Rightarrow> string \<Rightarrow> bool \<Rightarrow> string \<Rightarrow> string \<Rightarrow> string list" where
  "docker_commit_args containerID img pause message author =
     [''commit'', ''--pause='' @ bool_string pause]
     @ (if message \<noteq> [] then [''--message'', message] else [])
     @ (if author \<noteq> [] then [''--author'', author] else [])
     @ [containerID, img]"

definition docker_Commit ::
  "'w env \<Rightarrow> dockerCompatibleRuntime \<Rightarrow> ctx \<Rightarrow> string \<Rightarrow> string \<Rightarrow> bool \<Rightarrow> string \<Rightarrow> string \<Rightarrow> ('w, go_error option) go" where
  "docker_Commit E d c containerID img pause message author = do {
     err \<leftarrow> execCommand E d c (docker_commit_args containerID img pause message author);
     State_Monad.return (map_option (\<lambda>e. PlainError (''commit image: '' @ error_text e)) err)
   }"

definition docker_ImageExists :: "'w env \<Rightarrow> dockerCompatibleRuntime \<Rightarrow> ctx \<Rightarrow> string \<Rightarrow> ('w, bool) go" where
  "docker_ImageExists E d c img = do {
     err \<leftarrow> execCommand E d c [''image'', ''inspect'', img];
     State_Monad.return (err = None)
   }"

definition docker_Pull ::
  "'w env \<Rightarrow> dockerCompatibleRuntime \<Rightarrow> ctx \<Rightarrow> string \<Rightarrow> Auth option \<Rightarrow> string list \<Rightarrow> ('w, go_error option) go" where
  "docker_Pull E d c img auth args = withLoginContextCommands E d c auth ([''pull'', img] @ args)"

definition docker_Push ::
  "'w env \<Rightarrow> dockerCompatibleRuntime \<Rightarrow> ctx \<Rightarrow> string \<Rightarrow> Auth option \<Rightarrow> ('w, go_error option) go" where
  "docker_Push E d c img auth = withLoginContextCommands E d c auth [''push'', img]"

definition docker_runtime :: "'w env \<Rightarrow> dockerCompatibleRuntime \<Rightarrow> 'w Runtime" where
  "docker_runtime E d = \<lparr>rt_Commit = docker_Commit E d, rt_ImageExists = docker_ImageExists E d,
     rt_Pull = docker_Pull E d, rt_Push = docker_Push E d\<rparr>"

definition NewDockerCompatibleRuntime :: "'w env \<Rightarrow> string \<Rightarrow> string list \<Rightarrow> 'w Runtime" where
  "NewDockerCompatibleRuntime E cmd globalArgs =
     docker_runtime E \<lparr>dcr_dockerCompatibleCommand = cmd, dcr_globalArgs = globalArgs\<rparr>"

section \<open>The containerd-compatible runtime\<close>

record containerdCompatibleRuntime =
  ccr_docker :: dockerCompatibleRuntime
  ccr_IsNerdctlVersionSufficient :: bool
  ccr_IsContainerdVersionSufficient :: bool

definition MinNerdctlVersion :: string where "MinNerdctlVersion = ''2.1.3''"
definition MinContainerdVersion :: string where "MinContainerdVersion = ''2.0.0''"

definition parseVersion :: "string \<Rightarrow> string" where
  "parseVersion str = TrimPrefix str ''nerdctl version ''"

text \<open>\<^verbatim>\<open>types.Zstd\<close> of nerdctl is the compression name used below.\<close>
definition containerd_commit_args ::
  "containerdCompatibleRuntime \<Rightarrow> string \<Rightarrow> string \<Rightarrow> bool \<Rightarrow> string \<Rightarrow> string \<Rightarrow> string list" where
  "containerd_commit_args r containerID img pause message author =
     [''commit'', containerID, img, ''--pause='' @ bool_string pause]
     @ (if message \<noteq> [] then [''--message'', message] else [])
     @ (if author \<noteq> [] then [''--author'', author] else [])
     @ (if ccr_IsNerdctlVersionSufficient r \<and> ccr_IsContainerdVersionSufficient r
        then [''--compression'', ''zstd''] else [])"

definition containerd_Commit ::
  "'w env \<Rightarrow> containerdCompatibleRuntime \<Rightarrow> ctx \<Rightarrow> string \<Rightarrow> string \<Rightarrow> bool \<Rightarrow> string \<Rightarrow> string \<Rightarrow> ('w, go_error option) go" where
  "containerd_Commit E r c containerID img pause message author =
     execCommand E (ccr_docker r) c (containerd_commit_args r containerID img pause message author)"

definition containerd_runtime :: "'w env \<Rightarrow> containerdCompatibleRuntime \<Rightarrow> 'w Runtime" where
  "containerd_runtime E r = (docker_runtime E (ccr_docker r))\<lparr>rt_Commit := containerd_Commit E r\<rparr>"

text \<open>\<^verbatim>\<open>semver.MustParse\<close> panics on a string that is not a version.\<close>
definition MustParse :: "'w env \<Rightarrow> string \<Rightarrow> semver outcome" where
  "MustParse E s = (case env_semver_parse E s of None \<Rightarrow> Panicked ''Invalid Semantic Version'' | Some v \<Rightarrow> Done v)"

definition NewContainerdCompatibleRuntime ::
  "'w env \<Rightarrow> string \<Rightarrow> string list \<Rightarrow> ('w, (go_error + containerdCompatibleRuntime) outcome) go" where
  "NewContainerdCompatibleRuntime E cmd globalArgs = do {
     let dc = \<lparr>dcr_dockerCompatibleCommand = cmd, dcr_globalArgs = globalArgs\<rparr>;
     (out, err) \<leftarrow> execCommandPOut E dc None [''-v''];
     (case err of
        Some e \<Rightarrow> State_Monad.return (Done (Inl e))
      | None \<Rightarrow>
         (case (MustParse E (parseVersion (TrimSpace out)), MustParse E MinNerdctlVersion) of
            (Done v, Done minv) \<Rightarrow> do {
              cerr \<leftarrow> in_world (env_new_containerd_client E);
              (case cerr of
                 Some e \<Rightarrow> State_Monad.return (Done (Inl e))
               | None \<Rightarrow> do {
                   sv \<leftarrow> in_world (env_containerd_server_version E);
                   (case sv of
                      Inl e \<Rightarrow> State_Monad.return (Done (Inl e))
                    | Inr srv \<Rightarrow>
                        (case MustParse E MinContainerdVersion of
                           Panicked m \<Rightarrow> State_Monad.return (Panicked m)
                         | Done mincv \<Rightarrow> State_Monad.return (Done (Inr \<lparr>
                             ccr_docker = dc,
                             ccr_IsNerdctlVersionSufficient = env_semver_ge E v minv,
                             ccr_IsContainerdVersionSufficient = \<not> env_semver_less E srv mincv\<rparr>))))
                 })
            }
          | (Panicked m, _) \<Rightarrow> State_Monad.return (Panicked m)
          | (_, Panicked m) \<Rightarrow> State_Monad.return (Panicked m)))
   }"

section \<open>What a runtime promises to its caller\<close>

text \<open>\<open>quiet obs\<close>: no metric is recorded and the observed part of the world is unchanged.\<close>
definition quiet :: "('w \<Rightarrow> 'o) \<Rightarrow> 'w gstate \<Rightarrow> 'w gstate \<Rightarrow> bool" where
  "quiet obs s t \<longleftrightarrow> gs_metrics t = gs_metrics s \<and> obs (gs_world t) = obs (gs_world s)"

interpretation quiet_frame: frame_rel "quiet obs" for obs :: "'w \<Rightarrow> 'o"
  by unfold_locales (auto simp: quiet_def)

lemma quiet_in_world: "(\<And>w. obs (snd (run_state m w)) = obs w) \<Longrightarrow> keeps (quiet obs) (in_world m)"
  by (simp add: keeps_def quiet_def)

lemma quiet_env:
  "keeps (quiet obs) get_environ" "keeps (quiet obs) (Setenv k v)" "keeps (quiet obs) (Unsetenv k)"
  by (simp_all add: keeps_def quiet_def)

locale runtime_contract =
  fixes rt :: "'w Runtime" and obs :: "'w \<Rightarrow> 'o"
  assumes quiet_Commit: "keeps (quiet obs) (rt_Commit rt c cid img pause msg author)"
    and quiet_ImageExists: "keeps (quiet obs) (rt_ImageExists rt c img)"
    and quiet_Pull: "keeps (quiet obs) (rt_Pull rt c img auth args)"
    and quiet_Push: "keeps (quiet obs) (rt_Push rt c img auth)"

context os_frame
begin

lemma quiet_now: "keeps (quiet obs) (time_now E)"
  by (simp add: keeps_def quiet_def obs_now)

lemma quiet_execCommand: "keeps (quiet obs) (execCommand E d c args)"
  unfolding execCommand_def
  by (intro quiet_frame.keeps_rules quiet_env quiet_in_world obs_exec)

lemma quiet_login_and_run: "keeps (quiet obs) (login_and_run E d c a args tmp)"
  unfolding login_and_run_def requireLogin_def
  by (intro quiet_frame.keeps_rules quiet_execCommand quiet_in_world obs_write)

lemma quiet_withLogin: "keeps (quiet obs) (withLoginContextCommands E d c auth args)"
  unfolding withLoginContextCommands_def
  by (intro quiet_frame.keeps_rules quiet_execCommand quiet_login_and_run quiet_env quiet_in_world
    obs_mkdir obs_remove)

end

text \<open>Both implementations keep the contract, whatever their configuration.\<close>
sublocale os_frame \<subseteq> docker_rt: runtime_contract "docker_runtime E d" obs for d
  by unfold_locales (auto simp: docker_runtime_def docker_Commit_def docker_ImageExists_def docker_Pull_def
    docker_Push_def intro!: quiet_frame.keeps_rules quiet_execCommand quiet_withLogin)

sublocale os_frame \<subseteq> containerd_rt: runtime_contract "containerd_runtime E r" obs for r
  by unfold_locales (auto simp: containerd_runtime_def containerd_Commit_def docker_runtime_def
    docker_ImageExists_def docker_Pull_def docker_Push_def
    intro!: quiet_frame.keeps_rules quiet_execCommand quiet_withLogin)

context os_frame
begin

lemma runtime_contracts:
  "runtime_contract (docker_runtime E d) obs" "runtime_contract (containerd_runtime E r) obs"
  by (rule docker_rt.runtime_contract_axioms containerd_rt.runtime_contract_axioms)+

end

section \<open>Properties\<close>

lemma run_execCommand [simp]:
  "run_state (execCommand E d c args) s =
    (let r = run_state (env_exec E c (dcr_dockerCompatibleCommand d) (dcr_globalArgs d @ args) (gs_env s)) (gs_world s)
     in (snd (fst r), s\<lparr>gs_world := snd r\<rparr>))"
  by (simp add: execCommand_def Let_def split: prod.splits)

lemma execCommand_env: "run_state (execCommand E d c args) s = (r, s') \<Longrightarrow> gs_env s' = gs_env s"
  by (auto simp: Let_def)

lemma login_and_run_env: "run_state (login_and_run E d c a args tmp) s = (r, s') \<Longrightarrow> gs_env s' = gs_env s"
  by (auto simp: login_and_run_def requireLogin_def Let_def split: option.splits prod.splits)

text \<open>What the body of \<^verbatim>\<open>withLoginContextCommands\<close> does once \<^verbatim>\<open>config.json\<close> is written: the login decides.\<close>
lemma run_login_and_run:
  assumes "run_state (env_write_file E (tmp @ ''/config.json'') (auth_ConfigJSON a)) (gs_world s) = (None, w2)"
    and "run_state (env_exec E c (dcr_dockerCompatibleCommand d) (dcr_globalArgs d @ [''login'', auth_Registry a]) (gs_env s)) w2 =
      ((out, lerr), w3)"
  shows "run_state (login_and_run E d c a args tmp) s = (case lerr of
      Some e \<Rightarrow> (Some (PlainError (''login '' @ [CHR 0x27] @ auth_Registry a @ [CHR 0x27] @ '': '' @ error_text e)), s\<lparr>gs_world := w3\<rparr>)
    | None \<Rightarrow> let x = run_state (env_exec E c (dcr_dockerCompatibleCommand d) (dcr_globalArgs d @ args) (gs_env s)) w3
        in (map_option (\<lambda>e. PlainError (''after login: '' @ error_text e)) (snd (fst x)), s\<lparr>gs_world := snd x\<rparr>))"
  using assms by (simp add: login_and_run_def requireLogin_def Let_def split: option.split)

context os_log
begin

lemma dirs_login_and_run:
  "run_state (login_and_run E d c a args tmp) s = (r, s') \<Longrightarrow> dirs (gs_world s') = dirs (gs_world s)"
  by (auto simp: login_and_run_def requireLogin_def Let_def dirs_exec dirs_write split: option.splits prod.splits)

lemma dirs_withLogin:
  assumes run: "run_state (withLoginContextCommands E d c auth args) s = (r, s')"
    and rm: "\<And>path w. fst (run_state (env_remove_all E path) w) = None"
  shows "dirs (gs_world s') = dirs (gs_world s)"
proof (cases auth)
  case None
  then show ?thesis using run by (auto simp: withLoginContextCommands_def Let_def dirs_exec)
next
  case (Some a)
  obtain m w1 where mk: "run_state (env_mkdir_temp E [] ''.docker-config-*'') (gs_world s) = (m, w1)"
    by (cases "run_state (env_mkdir_temp E [] ''.docker-config-*'') (gs_world s)")
  show ?thesis
  proof (cases m)
    case (Inl e)
    then show ?thesis using run mk Some by (auto simp: withLoginContextCommands_def dest: dirs_mkdir_err)
  next
    case (Inr tmp)
    let ?s1 = "s\<lparr>gs_world := w1, gs_env := (gs_env s)(''DOCKER_CONFIG'' \<mapsto> tmp)\<rparr>"
    obtain e s2 where body: "run_state (login_and_run E d c a args tmp) ?s1 = (e, s2)"
      by (cases "run_state (login_and_run E d c a args tmp) ?s1")
    obtain w3 where w3: "run_state (env_remove_all E tmp) (gs_world s2) = (None, w3)"
      using rm by (metis prod.collapse)
    have "gs_world s' = w3"
      using run mk Some Inr body w3 by (auto simp: withLoginContextCommands_def)
    moreover have "dirs (gs_world s2) = insert tmp (dirs (gs_world s))" and "tmp \<notin> dirs (gs_world s)"
      using dirs_login_and_run [OF body] dirs_mkdir mk Inr by auto
    ultimately show ?thesis using dirs_remove [OF w3] by auto
  qed
qed

end

lemma withLogin_env:
  assumes "run_state (withLoginContextCommands E d c auth args) s = (r, s')"
    and "gs_env s ''DOCKER_CONFIG'' = None"
  shows "gs_env s' = gs_env s"
  using assms
  by (auto simp: withLoginContextCommands_def Let_def fun_upd_idem dest!: login_and_run_env
    split: option.splits sum.splits prod.splits)

text \<open>
  C21: A command with credentials is run exactly if the login has succeeded. Once the temporary
  directory and its \<^verbatim>\<open>config.json\<close> could be written, \<^verbatim>\<open>withLoginContextCommands\<close> runs \<^verbatim>\<open>login\<close> for the
  registry. If the login reports an error, nothing else is run and the error is returned; if not,
  the requested command is run next, and its error, if any, is returned. Both run with \<^verbatim>\<open>DOCKER_CONFIG\<close>
  set to the temporary directory.
\<close>
theorem login_before_command:
  assumes "os_log E cmds dirs"
    and run: "run_state (withLoginContextCommands E d c (Some a) args) s = (r, s')"
    and mk: "run_state (env_mkdir_temp E [] ''.docker-config-*'') (gs_world s) = (Inr tmp, w1)"
    and wr: "run_state (env_write_file E (tmp @ ''/config.json'') (auth_ConfigJSON a)) w1 = (None, w2)"
    and login: "run_state (env_exec E c (dcr_dockerCompatibleCommand d) (dcr_globalArgs d @ [''login'', auth_Registry a])
      ((gs_env s)(''DOCKER_CONFIG'' \<mapsto> tmp))) w2 = ((out, lerr), w3)"
  shows "cmds (gs_world s') = cmds (gs_world s) @
      \<lparr>cmd_Name = dcr_dockerCompatibleCommand d, cmd_Args = dcr_globalArgs d @ [''login'', auth_Registry a],
       cmd_DockerConfig = Some tmp\<rparr> #
      (if lerr = None then [\<lparr>cmd_Name = dcr_dockerCompatibleCommand d, cmd_Args = dcr_globalArgs d @ args,
       cmd_DockerConfig = Some tmp\<rparr>] else []) \<and>
    r = (case lerr of
      Some e \<Rightarrow> Some (PlainError (''login '' @ [CHR 0x27] @ auth_Registry a @ [CHR 0x27] @ '': '' @ error_text e))
    | None \<Rightarrow> map_option (\<lambda>e. PlainError (''after login: '' @ error_text e)) (snd (fst (run_state
        (env_exec E c (dcr_dockerCompatibleCommand d) (dcr_globalArgs d @ args) ((gs_env s)(''DOCKER_CONFIG'' \<mapsto> tmp))) w3))))"
proof -
  let ?s1 = "s\<lparr>gs_world := w1, gs_env := (gs_env s)(''DOCKER_CONFIG'' \<mapsto> tmp)\<rparr>"
  obtain e s2 where body: "run_state (login_and_run E d c a args tmp) ?s1 = (e, s2)"
    by (cases "run_state (login_and_run E d c a args tmp) ?s1")
  have r: "r = e" and s': "gs_world s' = snd (run_state (env_remove_all E tmp) (gs_world s2))"
    using run mk body by (auto simp: withLoginContextCommands_def)
  have quiet: "cmds (gs_world s') = cmds (gs_world s2)" "cmds w2 = cmds (gs_world s)"
    using os_log.cmds_remove [OF assms(1)] os_log.cmds_mkdir [OF assms(1), of "[]" "''.docker-config-*''" "gs_world s"]
      os_log.cmds_write [OF assms(1), of "tmp @ ''/config.json''" "auth_ConfigJSON a" w1] mk wr s' by simp_all
  note ran = os_log.cmds_exec [OF assms(1), of c "dcr_dockerCompatibleCommand d" _ "(gs_env s)(''DOCKER_CONFIG'' \<mapsto> tmp)"]
  have w3: "cmds w3 = cmds w2 @ [\<lparr>cmd_Name = dcr_dockerCompatibleCommand d, cmd_Args = dcr_globalArgs d @ [''login'', auth_Registry a],
       cmd_DockerConfig = Some tmp\<rparr>]"
    using ran [of "dcr_globalArgs d @ [''login'', auth_Registry a]" w2] login by simp
  have "run_state (login_and_run E d c a args tmp) ?s1 = (e, s2)" by (rule body)
  then show ?thesis
    using run_login_and_run [of E tmp a ?s1 w2 c d out lerr w3 args] wr login ran [of "dcr_globalArgs d @ args" w3] w3 quiet r
    by (cases lerr) (auto simp: Let_def)
qed

text \<open>A push with credentials on the simulated world.\<close>
abbreviation sim_docker :: dockerCompatibleRuntime where
  "sim_docker \<equiv> \<lparr>dcr_dockerCompatibleCommand = ''docker'', dcr_globalArgs = [''--debug'']\<rparr>"

abbreviation sim_auth :: Auth where
  "sim_auth \<equiv> \<lparr>auth_Registry = ''r.io'', auth_ConfigJSON = ''{}''\<rparr>"

text \<open>A registry that does not accept the credentials.\<close>
definition denied_world :: sim_world where
  "denied_world = sim_start\<lparr>sw_script := (\<lambda>n args. ([], Some (PlainError ''denied'')))\<rparr>"

abbreviation denied_push :: "go_error option \<times> sim_world gstate" where
  "denied_push \<equiv> run_state (withLoginContextCommands sim_env sim_docker None (Some sim_auth) [''push'', ''r.io/a:1'']) (sim_state denied_world)"

lemma login_before_command_witness:
  "sw_cmds (gs_world (snd denied_push)) = [\<lparr>cmd_Name = ''docker'', cmd_Args = [''--debug'', ''login'', ''r.io''],
      cmd_DockerConfig = Some (sim_dir_name 1)\<rparr>] \<and>
    fst denied_push = Some (PlainError (''login '' @ [CHR 0x27] @ ''r.io'' @ [CHR 0x27] @ '': denied''))"
proof -
  let ?w = "denied_world\<lparr>sw_dirs := [1]\<rparr>"
  have mk: "run_state (env_mkdir_temp sim_env [] ''.docker-config-*'') (gs_world (sim_state denied_world)) = (Inr (sim_dir_name 1), ?w)"
    and wr: "run_state (env_write_file sim_env (sim_dir_name 1 @ ''/config.json'') (auth_ConfigJSON sim_auth)) ?w = (None, ?w)"
    and login: "\<exists>w3. run_state (env_exec sim_env None (dcr_dockerCompatibleCommand sim_docker)
      (dcr_globalArgs sim_docker @ [''login'', auth_Registry sim_auth])
      ((gs_env (sim_state denied_world))(''DOCKER_CONFIG'' \<mapsto> sim_dir_name 1))) ?w = (([], Some (PlainError ''denied'')), w3)"
    by (simp_all add: sim_os_defs Let_def denied_world_def)
  from login obtain w3 where login: "run_state (env_exec sim_env None (dcr_dockerCompatibleCommand sim_docker)
      (dcr_globalArgs sim_docker @ [''login'', auth_Registry sim_auth])
      ((gs_env (sim_state denied_world))(''DOCKER_CONFIG'' \<mapsto> sim_dir_name 1))) ?w = (([], Some (PlainError ''denied'')), w3)" ..
  show ?thesis
    using login_before_command [OF sim_log.os_log_axioms prod.collapse [symmetric] mk wr login, of "[''push'', ''r.io/a:1'']"]
    by (simp add: denied_world_def)
qed

text \<open>
  C20: Nothing of the credentials outlives a pull or a push: whatever fails on the way, a process
  that had no \<^verbatim>\<open>DOCKER_CONFIG\<close> has none afterwards, its environment is unchanged, and no temporary
  directory is left, provided directories can be removed.
\<close>
theorem credentials_removed:
  assumes "os_log E cmds dirs"
    and "run_state (withLoginContextCommands E d c auth args) s = (r, s')"
    and "gs_env s ''DOCKER_CONFIG'' = None"
    and "\<And>path w. fst (run_state (env_remove_all E path) w) = None"
  shows "gs_env s' = gs_env s \<and> dirs (gs_world s') = dirs (gs_world s)"
  using withLogin_env [OF assms(2,3)] os_log.dirs_withLogin [OF assms(1,2,4)] by simp

lemma credentials_removed_witness:
  "gs_env (snd (run_state (withLoginContextCommands sim_env sim_docker None (Some sim_auth)
      [''push'', ''r.io/a:1'']) (sim_state sim_start))) = Map.empty \<and>
   sim_dir_set (gs_world (snd (run_state (withLoginContextCommands sim_env sim_docker None (Some sim_auth)
      [''push'', ''r.io/a:1'']) (sim_state sim_start)))) = {}"
  using credentials_removed [OF sim_log.os_log_axioms surjective_pairing, where d = sim_docker and c = None
      and auth = "Some sim_auth" and args = "[''push'', ''r.io/a:1'']" and s = "sim_state sim_start"]
  by (simp add: sim_remove_all_def sim_dir_set_def)

end
