(* ===== verification/GoTime.thy ===== *)
theory GoTime
  imports Prelude
begin

text \<open>
  \<^verbatim>\<open>time.ParseDuration\<close> of the Go standard library, which reads the commit timeout of a task: a sign,
  then numbers with an optional fraction and a unit, in 64-bit arithmetic with its overflow checks. The
  nanoseconds of a fraction are computed in floating point, which is the parameter \<open>fl\<close>: it stands for
  \<^verbatim>\<open>uint64(float64(f) * (float64(unit) / scale))\<close>. Strings are byte sequences.
\<close>

section \<open>Reading numbers\<close>

definition is_digit :: "char \<Rightarrow> bool" where
  "is_digit c \<longleftrightarrow> 48 \<le> (of_char c :: int) \<and> (of_char c :: int) \<le> 57"

definition digit_value :: "char \<Rightarrow> int" where
  "digit_value c = of_char c - 48"

text \<open>\<^verbatim>\<open>leadingInt\<close>: the value of the leading digits and the rest, None on overflow.\<close>
fun leadingInt :: "int \<Rightarrow> string \<Rightarrow> (int \<times> string) option" where
  "leadingInt x [] = Some (x, [])"
| "leadingInt x (c # cs) =
     (if \<not> is_digit c then Some (x, c # cs)
      else if 2 ^ 63 div 10 < x then None
      else if 2 ^ 63 < x * 10 + digit_value c then None
      else leadingInt (x * 10 + digit_value c) cs)"

text \<open>\<^verbatim>\<open>leadingFraction\<close>: the same after a decimal point, with the power of ten; digits too many are dropped.\<close>
fun leadingFraction :: "bool \<Rightarrow> int \<Rightarrow> int \<Rightarrow> string \<Rightarrow> int \<times> int \<times> string" where
  "leadingFraction ov x scale [] = (x, scale, [])"
| "leadingFraction ov x scale (c # cs) =
     (if \<not> is_digit c then (x, scale, c # cs)
      else if ov then leadingFraction True x scale cs
      else if (2 ^ 63 - 1) div 10 < x then leadingFraction True x scale cs
      else if 2 ^ 63 < x * 10 + digit_value c then leadingFraction True x scale cs
      else leadingFraction False (x * 10 + digit_value c) (scale * 10) cs)"

text \<open>The micro sign and the Greek mu in UTF-8.\<close>
definition unitMap :: "(string \<times> int) list" where
  "unitMap = [(''ns'', 1), (''us'', 1000), ([CHR 0xC2, CHR 0xB5, CHR ''s''], 1000), ([CHR 0xCE, CHR 0xBC, CHR ''s''], 1000),
     (''ms'', 1000000), (''s'', 1000000000), (''m'', 60000000000), (''h'', 3600000000000)]"

definition hex_digit :: "nat \<Rightarrow> char" where
  "hex_digit n = ''0123456789abcdef'' ! n"

text \<open>\<^verbatim>\<open>quote\<close> of the package: control and non-ASCII bytes in hexadecimal.\<close>
definition quote_char :: "char \<Rightarrow> string" where
  "quote_char c = (let b = (of_char c :: int) in
     if 128 \<le> b \<or> b < 32 then [CHR 0x5C, CHR ''x'', hex_digit (nat (b div 16)), hex_digit (nat (b mod 16))]
     else if c = CHR 0x22 \<or> c = CHR 0x5C then [CHR 0x5C, c] else [c])"

definition quote :: "string \<Rightarrow> string" where
  "quote s = [CHR 0x22] @ concat (map quote_char s) @ [CHR 0x22]"

section \<open>Parsing\<close>

definition number_start :: "char \<Rightarrow> bool" where
  "number_start c \<longleftrightarrow> c = CHR ''.'' \<or> is_digit c"

text \<open>The optional fraction: its digits, its scale, the rest, and whether there was a digit.\<close>
definition optional_fraction :: "string \<Rightarrow> int \<times> int \<times> string \<times> bool" where
  "optional_fraction s = (case s of
       [] \<Rightarrow> (0, 1, s, False)
     | c # r \<Rightarrow> if c = CHR ''.''
         then (case leadingFraction False 0 1 r of (f, scale, rest) \<Rightarrow> (f, scale, rest, length rest \<noteq> length r))
         else (0, 1, s, False))"

definition invalid_duration :: string where
  "invalid_duration = ''time: invalid duration ''"

text \<open>One iteration of the loop: the nanoseconds of one number with its unit, and the rest; or how the
  error message starts.\<close>
definition duration_item :: "(int \<Rightarrow> int \<Rightarrow> int \<Rightarrow> int) \<Rightarrow> string \<Rightarrow> string + int \<times> string" where
  "duration_item fl s =
     (if s = [] \<or> \<not> number_start (hd s) then Inl invalid_duration
      else (case leadingInt 0 s of
          None \<Rightarrow> Inl invalid_duration
        | Some (v, s1) \<Rightarrow>
            (case optional_fraction s1 of (f, scale, s2, post) \<Rightarrow>
               if length s1 = length s \<and> \<not> post then Inl invalid_duration
               else (let u = takeWhile (\<lambda>c. \<not> number_start c) s2; s3 = dropWhile (\<lambda>c. \<not> number_start c) s2 in
                 if u = [] then Inl ''time: missing unit in duration ''
                 else (case map_of unitMap u of
                     None \<Rightarrow> Inl (''time: unknown unit '' @ quote u @ '' in duration '')
                   | Some unit \<Rightarrow>
                       if 2 ^ 63 div unit < v then Inl invalid_duration
                       else if 0 < f then
                         (let v1 = (v * unit + fl f unit scale) mod 2 ^ 64 in
                          if 2 ^ 63 < v1 then Inl invalid_duration else Inr (v1, s3))
                       else Inr (v * unit, s3))))))"

lemma leadingInt_length: "leadingInt x s = Some (v, r) \<Longrightarrow> length r \<le> length s"
  by (induction x s arbitrary: v r rule: leadingInt.induct) (auto split: if_splits intro: le_SucI)

lemma leadingFraction_length: "leadingFraction ov x sc s = (f, sc', r) \<Longrightarrow> length r \<le> length s"
  by (induction ov x sc s arbitrary: f sc' r rule: leadingFraction.induct) (auto split: if_splits intro: le_SucI)

lemma optional_fraction_length: "optional_fraction s = (f, sc, r, post) \<Longrightarrow> length r \<le> length s"
  by (auto simp: optional_fraction_def split: list.splits if_splits prod.splits
    dest!: leadingFraction_length intro: le_SucI)

lemma duration_item_shorter:
  assumes "duration_item fl s = Inr (v, r)"
  shows "length r < length s"
proof -
  obtain n s1 f scale s2 post where parts: "leadingInt 0 s = Some (n, s1)" "optional_fraction s1 = (f, scale, s2, post)"
      "takeWhile (\<lambda>c. \<not> number_start c) s2 \<noteq> []" "r = dropWhile (\<lambda>c. \<not> number_start c) s2"
    using assms by (auto simp: duration_item_def Let_def split: if_splits option.splits prod.splits)
  have "length s2 = length (takeWhile (\<lambda>c. \<not> number_start c) s2) + length r"
    unfolding parts(4) by (metis length_append takeWhile_dropWhile_id)
  then have "length r < length s2" using parts(3) by (cases "takeWhile (\<lambda>c. \<not> number_start c) s2") simp_all
  then show ?thesis using leadingInt_length [OF parts(1)] optional_fraction_length [OF parts(2)] by simp
qed

text \<open>The loop; the sum of two admissible values can wrap around in 64 bits.\<close>
function duration_items :: "(int \<Rightarrow> int \<Rightarrow> int \<Rightarrow> int) \<Rightarrow> int \<Rightarrow> string \<Rightarrow> string + int" where
  "duration_items fl d s =
     (if s = [] then Inr d
      else (case duration_item fl s of
          Inl e \<Rightarrow> Inl e
        | Inr (v, r) \<Rightarrow>
            if 2 ^ 63 < (d + v) mod 2 ^ 64 then Inl invalid_duration
            else duration_items fl ((d + v) mod 2 ^ 64) r))"
  by pat_completeness auto
termination
  by (relation "measure (\<lambda>(fl, d, s). length s)") (simp, simp only: in_measure prod.case, metis duration_item_shorter)

declare duration_items.simps [simp del]

definition ParseDuration :: "(int \<Rightarrow> int \<Rightarrow> int \<Rightarrow> int) \<Rightarrow> string \<Rightarrow> go_error + duration" where
  "ParseDuration fl orig =
     (let signed = (orig \<noteq> [] \<and> (hd orig = CHR ''-'' \<or> hd orig = CHR ''+''));
          neg = (signed \<and> hd orig = CHR ''-'');
          s = (if signed then tl orig else orig) in
      if s = ''0'' then Inr 0
      else if s = [] then Inl (PlainError (invalid_duration @ quote orig))
      else (case duration_items fl 0 s of
          Inl e \<Rightarrow> Inl (PlainError (e @ quote orig))
        | Inr d \<Rightarrow> if neg then Inr (- d)
            else if 2 ^ 63 - 1 < d then Inl (PlainError (invalid_duration @ quote orig))
            else Inr d))"

section \<open>Lemmas\<close>

lemma digit_reads: "0 \<le> i \<Longrightarrow> i < 10 \<Longrightarrow> is_digit (digit i) \<and> digit_value (digit i) = i"
proof -
  assume "0 \<le> i" "i < 10"
  then have "i = 0 \<or> i = 1 \<or> i = 2 \<or> i = 3 \<or> i = 4 \<or> i = 5 \<or> i = 6 \<or> i = 7 \<or> i = 8 \<or> i = 9" by presburger
  then show ?thesis by (elim disjE) (simp_all add: digit_def is_digit_def digit_value_def char_of_def of_char_def)
qed

text \<open>The digits of a number are read back as the number.\<close>
lemma leadingInt_digits:
  "0 \<le> i \<Longrightarrow> i \<le> 2 ^ 63 \<Longrightarrow> leadingInt 0 (digits_string i @ r) = leadingInt i r"
proof (induction i arbitrary: r rule: digits_string.induct)
  case (1 i)
  show ?case
  proof (cases "i < 10")
    case True
    then show ?thesis using digit_reads [of i] "1.prems" True by (subst digits_string.simps) simp
  next
    case False
    have "leadingInt 0 (digits_string i @ r) = leadingInt 0 (digits_string (i div 10) @ digit (i mod 10) # r)"
      using False by (subst digits_string.simps) simp
    also have "\<dots> = leadingInt (i div 10) (digit (i mod 10) # r)"
      using "1.IH" [OF False, of "digit (i mod 10) # r"] "1.prems" by (simp add: pos_imp_zdiv_nonneg_iff)
    also have "\<dots> = leadingInt i r"
    proof -
      have "i div 10 \<le> 2 ^ 63 div 10" using "1.prems" by simp
      moreover have "i div 10 * 10 + i mod 10 = i" by simp
      moreover have "\<not> 2 ^ 63 < i" using "1.prems" by simp
      ultimately show ?thesis using digit_reads [of "i mod 10"] "1.prems" by simp
    qed
    finally show ?thesis .
  qed
qed

lemma digits_digit: "0 \<le> i \<Longrightarrow> c \<in> set (digits_string i) \<Longrightarrow> is_digit c"
proof (induction i rule: digits_string.induct)
  case (1 i)
  then show ?case using digit_reads [of i] digit_reads [of "i mod 10"] by (subst (asm) (2) digits_string.simps) (auto split: if_splits)
qed

text \<open>The units are not empty, contain neither digits nor a point, and divide into 64 bits.\<close>
lemma unitMap_units:
  assumes "map_of unitMap u = Some unit"
  shows "u \<noteq> []" "list_all (\<lambda>c. \<not> number_start c) u" "0 < unit"
  using map_of_SomeD [OF assms]
  by (auto simp: unitMap_def number_start_def is_digit_def of_char_def)

lemma duration_item_unit:
  assumes "0 \<le> n" and "map_of unitMap u = Some unit" and "n * unit \<le> 2 ^ 63"
  shows "duration_item fl (digits_string n @ u) = Inr (n * unit, [])"
proof -
  note unit = unitMap_units [OF assms(2)]
  obtain c cs where u: "u = c # cs" using unit(1) by (cases u) auto
  have c: "\<not> is_digit c" "c \<noteq> CHR ''.''" using unit(2) u by (auto simp: number_start_def)
  have "n * 1 \<le> n * unit" using assms(1) unit(3) by (intro mult_left_mono) auto
  then have "n \<le> 2 ^ 63" using assms(3) by linarith
  from leadingInt_digits [OF assms(1) this, of u] have lead: "leadingInt 0 (digits_string n @ u) = Some (n, u)"
    using c(1) u by simp
  have start: "number_start (hd (digits_string n @ u))"
    using digits_digit [OF assms(1), of "hd (digits_string n)"] by (simp add: number_start_def hd_append)
  have opt: "optional_fraction u = (0, 1, u, False)" using u c(2) by (simp add: optional_fraction_def)
  have all: "\<forall>x\<in>set u. \<not> number_start x" using unit(2) by (simp add: list_all_iff)
  then have tw: "takeWhile (\<lambda>c. \<not> number_start c) u = u" "dropWhile (\<lambda>c. \<not> number_start c) u = []" by simp_all
  have fits: "\<not> 2 ^ 63 div unit < n" using zdiv_mono1 [OF assms(3) unit(3)] unit(3) by simp
  show ?thesis using lead start opt fits assms(2) unit(1) by (simp add: duration_item_def Let_def tw)
qed

text \<open>A decimal number of a unit is read as that many nanoseconds, as long as they fit into 63 bits.\<close>
lemma ParseDuration_unit:
  assumes "map_of unitMap u = Some unit" and "\<bar>n\<bar> * unit < 2 ^ 63"
  shows "ParseDuration fl (int_string n @ u) = Inr (n * unit)"
proof -
  let ?d = "digits_string \<bar>n\<bar> @ u"
  have unit: "u \<noteq> []" by (rule unitMap_units [OF assms(1)])
  have "duration_item fl ?d = Inr (\<bar>n\<bar> * unit, [])" using duration_item_unit [OF _ assms(1), of "\<bar>n\<bar>"] assms(2) by simp
  moreover have small: "\<bar>n\<bar> * unit < 2 ^ 63" "0 \<le> \<bar>n\<bar> * unit"
    using assms(2) unitMap_units(3) [OF assms(1)] by simp_all
  ultimately have items: "duration_items fl 0 ?d = Inr (\<bar>n\<bar> * unit)"
    by (subst duration_items.simps) (simp add: duration_items.simps [of _ _ "[]"])
  obtain c cs where d: "digits_string \<bar>n\<bar> = c # cs" by (cases "digits_string \<bar>n\<bar>") auto
  have c: "is_digit c" using digits_digit [of "\<bar>n\<bar>" c] d by simp
  then have sign: "c \<noteq> CHR ''-''" "c \<noteq> CHR ''+''" by (auto simp: is_digit_def of_char_def)
  have no0: "?d \<noteq> ''0''"
  proof
    assume "?d = ''0''"
    then have "set u \<subseteq> {CHR ''0''}" using d unit by (cases cs) auto
    moreover have "\<forall>x\<in>set u. \<not> is_digit x" using unitMap_units(2) [OF assms(1)] by (auto simp: list_all_iff number_start_def)
    moreover have "is_digit (CHR ''0'')" by (simp add: is_digit_def of_char_def)
    ultimately show False using unit by (cases u) auto
  qed
  show ?thesis
  proof (cases "n < 0")
    case True
    then have "int_string n @ u = CHR ''-'' # ?d" by (simp add: int_string_def)
    then show ?thesis using items no0 small True unit by (simp add: ParseDuration_def Let_def)
  next
    case False
    then have "int_string n @ u = ?d" by (simp add: int_string_def)
    then show ?thesis using items no0 small False unit sign d by (simp add: ParseDuration_def Let_def)
  qed
qed

end
