(* ===== verification/TaskController.thy ===== *)
theory TaskController
  imports Conditions Runtimes GoTime
begin

text \<open>
  \<^verbatim>\<open>internal/controller/snapshotpodtask_controller.go\<close>: the node-side reconciler that commits a
  container and pushes the image. One definition per method; \<open>Task_Reconcile\<close> is \<^verbatim>\<open>Reconcile\<close>, cut
  into its condition loop (\<open>run_recs\<close>), the choice of the phase (\<open>settle_phase\<close>) and the final update
  with its metrics (\<open>finish_task\<close>). A panic of a step is an outcome of its own.
\<close>

section \<open>The reconciler\<close>

record 'w SnapshotPodTaskReconciler =
  tr_NodeName :: string
  tr_runtimeMap :: "(string \<times> 'w Runtime) list"

definition dockerRuntime :: string where "dockerRuntime = ''docker''"
definition containerdRuntime :: string where "containerdRuntime = ''containerd''"
definition defaultCommitTimeout :: string where "defaultCommitTimeout = ''5m''"

text \<open>
  The index expressions of the source are \<^verbatim>\<open>[0]\<close>, always in range, and \<^verbatim>\<open>[1]\<close>, which panics when
  the separator does not occur.
\<close>
definition getRuntimeAndContainerID ::
  "'w SnapshotPodTaskReconciler \<Rightarrow> string \<Rightarrow> (go_error + string \<times> 'w Runtime \<times> string) outcome" where
  "getRuntimeAndContainerID r containerID =
     (let parts = str_split containerID ''://''; rtName = hd parts in
      case map_of (tr_runtimeMap r) rtName of
        None \<Rightarrow> Done (Inl (PlainError (''unsupported for runtime: '' @ rtName
                 @ '', current supported list: '' @ strings_string (map fst (tr_runtimeMap r)))))
      | Some rt \<Rightarrow> (case tl parts of
            [] \<Rightarrow> Panicked ''runtime error: index out of range [1] with length 1''
          | cid # rest \<Rightarrow> Done (Inr (rtName, rt, cid))))"

definition getImageAuthWithSecret ::
  "'w env \<Rightarrow> string \<Rightarrow> string \<Rightarrow> string \<Rightarrow> ('w, go_error + Auth option) go" where
  "getImageAuthWithSecret E namespace sec img =
     (if sec = [] then State_Monad.return (Inr None)
      else do {
        res \<leftarrow> in_world (env_get_secret E namespace sec);
        (case res of
           Inl err \<Rightarrow> State_Monad.return (Inl err)
         | Inr secret \<Rightarrow>
             (case env_parse_reference E (''//'' @ img) of
                Inl err \<Rightarrow> State_Monad.return (Inl err)
              | Inr ref \<Rightarrow> State_Monad.return (Inr (Some \<lparr>auth_Registry = nr_Domain ref,
                  auth_ConfigJSON = map_get (sec_Data secret) ''.dockerconfigjson''\<rparr>))))
      })"

definition getSnapshotName :: "SnapshotPodTask \<Rightarrow> string" where
  "getSnapshotName spt =
     (let snapshotName = map_get (om_Labels (spt_meta spt)) SnapshotNameLabel
      in if snapshotName = [] then ''unknown'' else snapshotName)"

definition registry_of :: "'w env \<Rightarrow> string \<Rightarrow> string" where
  "registry_of E img = (case env_parse_reference E (''//'' @ img) of Inl e \<Rightarrow> ''unknown'' | Inr ref \<Rightarrow> nr_Domain ref)"

text \<open>Every exit of \<^verbatim>\<open>reconcilePushImage\<close> records a push result with the time since its start.\<close>
definition push_exit ::
  "'w env \<Rightarrow> SnapshotPodTask \<Rightarrow> gotime \<Rightarrow> string \<Rightarrow> go_error option \<Rightarrow> ('w, go_error option outcome) go" where
  "push_exit E spt startTime registry err = do {
     t \<leftarrow> time_now E;
     RecordImagePush (if err = None then ImagePushResultSuccess else ImagePushResultFailed) registry
       (om_Namespace (spt_meta spt)) (getSnapshotName spt) (t - startTime);
     State_Monad.return (Done err)
   }"

text \<open>See nerdctl issue 3026: the origin image is pulled first, and what goes wrong is ignored.\<close>
definition pull_origin :: "'w env \<Rightarrow> string \<Rightarrow> 'w Runtime \<Rightarrow> SnapshotPodTask \<Rightarrow> ('w, unit) go" where
  "pull_origin E rtName rt spt =
     (if rtName = containerdRuntime then do {
        a \<leftarrow> getImageAuthWithSecret E (om_Namespace (spt_meta spt))
          (spts_OriginRegistrySecretRef (spt_Spec spt)) (spts_OriginImage (spt_Spec spt));
        e \<leftarrow> rt_Pull rt None (spts_OriginImage (spt_Spec spt)) (case a of Inl e \<Rightarrow> None | Inr x \<Rightarrow> x) [''--unpack=false''];
        State_Monad.return ()
      } else State_Monad.return ())"

definition reconcilePushImage ::
  "'w env \<Rightarrow> 'w SnapshotPodTaskReconciler \<Rightarrow> SnapshotPodTask \<Rightarrow> ('w, go_error option outcome) go" where
  "reconcilePushImage E r spt = do {
     startTime \<leftarrow> time_now E;
     (case getRuntimeAndContainerID r (spts_ContainerID (spt_Spec spt)) of
        Panicked m \<Rightarrow> State_Monad.return (Panicked m)
      | Done (Inl err) \<Rightarrow> push_exit E spt startTime ''unknown'' (Some err)
      | Done (Inr (rtName, rt, cid)) \<Rightarrow> do {
          ex \<leftarrow> rt_ImageExists rt None (spts_CommitImage (spt_Spec spt));
          if \<not> ex then push_exit E spt startTime ''unknown''
            (Some (PlainError (''image '' @ spts_CommitImage (spt_Spec spt) @ '' not exists'')))
          else do {
            auth \<leftarrow> getImageAuthWithSecret E (om_Namespace (spt_meta spt))
              (spts_RegistrySecretRef (spt_Spec spt)) (spts_CommitImage (spt_Spec spt));
            (case auth of
               Inl err \<Rightarrow> push_exit E spt startTime ''unknown'' (Some err)
             | Inr a \<Rightarrow> do {
                 pull_origin E rtName rt spt;
                 err \<leftarrow> rt_Push rt None (spts_CommitImage (spt_Spec spt)) a;
                 push_exit E spt startTime (registry_of E (spts_CommitImage (spt_Spec spt))) err
               })
          }
        })
   }"

definition reconcileCommit ::
  "'w env \<Rightarrow> 'w SnapshotPodTaskReconciler \<Rightarrow> SnapshotPodTask \<Rightarrow> ('w, go_error option outcome) go" where
  "reconcileCommit E r spt =
     (case getRuntimeAndContainerID r (spts_ContainerID (spt_Spec spt)) of
        Panicked m \<Rightarrow> State_Monad.return (Panicked m)
      | Done (Inl err) \<Rightarrow> State_Monad.return (Done (Some err))
      | Done (Inr (rtName, rt, cid)) \<Rightarrow>
          (let opts = spts_CommitOptions (spt_Spec spt);
               timeout = (if 0 < length (co_Timeout opts) then co_Timeout opts else defaultCommitTimeout)
           in case ParseDuration (env_float_ns E) timeout of
                Inl err \<Rightarrow> State_Monad.return (Done (Some err))
              | Inr d \<Rightarrow> do {
                  err \<leftarrow> rt_Commit rt (Some d) cid (spts_CommitImage (spt_Spec spt))
                    (co_PauseContainer opts) (co_Message opts) (co_Author opts);
                  State_Monad.return (Done err)
                }))"

definition reconcileAccept :: "SnapshotPodTask \<Rightarrow> ('w, go_error option outcome) go" where
  "reconcileAccept spt = State_Monad.return (Done None)"

section \<open>Reconcile\<close>

type_synonym 'w task_rec = "string \<times> (SnapshotPodTask \<Rightarrow> ('w, go_error option outcome) go)"

definition task_recs :: "'w env \<Rightarrow> 'w SnapshotPodTaskReconciler \<Rightarrow> 'w task_rec list" where
  "task_recs E r = [(''Accept'', reconcileAccept), (''Commit'', reconcileCommit E r), (''Push'', reconcilePushImage E r)]"

definition set_task_conditions :: "condition list \<Rightarrow> SnapshotPodTask \<Rightarrow> SnapshotPodTask" where
  "set_task_conditions conds spt = spt\<lparr>spt_Status := (spt_Status spt)\<lparr>sptst_Conditions := conds\<rparr>\<rparr>"

text \<open>How the loop over the steps ends: run to its end (with the error that broke it off, if any),
  return of \<^verbatim>\<open>Reconcile\<close> because a status update failed, or a panic.\<close>
datatype loop_exit =
    LoopEnd SnapshotPodTask "go_error option"
  | LoopReturn go_error
  | LoopPanic string

text \<open>The condition after a successful step; its time is refreshed if anything else changed.\<close>
definition succeed_condition :: "'w env \<Rightarrow> condition \<Rightarrow> ('w, condition) go" where
  "succeed_condition E old =
     (let new = old\<lparr>cond_Status := ConditionTrue, cond_Message := []\<rparr> in
      if \<not> cmpConditionWithoutTime old new \<or> cond_LastTransitionTime new = 0
      then do { t \<leftarrow> time_now E; State_Monad.return (new\<lparr>cond_LastTransitionTime := t\<rparr>) }
      else State_Monad.return new)"

fun run_recs :: "'w env \<Rightarrow> 'w task_rec list \<Rightarrow> SnapshotPodTask \<Rightarrow> ('w, loop_exit) go" where
  "run_recs E [] spt = State_Monad.return (LoopEnd spt None)"
| "run_recs E ((typ, step) # recs) spt = do {
     (conds, i) \<leftarrow> ensure_condition E typ (sptst_Conditions (spt_Status spt));
     let spt1 = set_task_conditions conds spt;
     let old = conds ! i;
     if cond_Status old = ConditionTrue then run_recs E recs spt1
     else do {
       res \<leftarrow> step spt1;
       (case res of
          Panicked m \<Rightarrow> State_Monad.return (LoopPanic m)
        | Done (Some err) \<Rightarrow> do {
            u \<leftarrow> in_world (env_update_task_status E (set_task_conditions
              (conds[i := old\<lparr>cond_Status := ConditionFalse, cond_Message := error_text err\<rparr>]) spt1));
            (case u of
               Inl updateErr \<Rightarrow> State_Monad.return (LoopReturn updateErr)
             | Inr spt2 \<Rightarrow> State_Monad.return (LoopEnd spt2 (Some err)))
          }
        | Done None \<Rightarrow> do {
            new \<leftarrow> succeed_condition E old;
            u \<leftarrow> in_world (env_update_task_status E (set_task_conditions (conds[i := new]) spt1));
            (case u of
               Inl updateErr \<Rightarrow> State_Monad.return (LoopReturn updateErr)
             | Inr spt2 \<Rightarrow> run_recs E recs spt2)
          })
     }
   }"

text \<open>\<^verbatim>\<open>lo.SomeBy\<close> over the conditions; the clock is read only where the source reads it.\<close>
fun some_stale :: "'w env \<Rightarrow> go_error option \<Rightarrow> condition list \<Rightarrow> ('w, bool) go" where
  "some_stale E lastError [] = State_Monad.return False"
| "some_stale E lastError (c # cs) =
     (if cond_Status c \<noteq> ConditionTrue then
        (if lastError \<noteq> None then State_Monad.return True
         else do {
           t \<leftarrow> time_now E;
           if cond_LastTransitionTime c + 600 * second_ns < t then State_Monad.return True
           else some_stale E lastError cs
         })
      else some_stale E lastError cs)"

definition effective_max_retries :: "SnapshotPodTaskSpec \<Rightarrow> int32" where
  "effective_max_retries spec = (if spts_MaxRetries spec = 0 then 3 else spts_MaxRetries spec)"

definition set_task_status :: "(SnapshotPodTaskStatus \<Rightarrow> SnapshotPodTaskStatus) \<Rightarrow> SnapshotPodTask \<Rightarrow> SnapshotPodTask" where
  "set_task_status f spt = spt\<lparr>spt_Status := f (spt_Status spt)\<rparr>"

definition settle_phase :: "'w env \<Rightarrow> SnapshotPodTask \<Rightarrow> go_error option \<Rightarrow> ('w, SnapshotPodTask) go" where
  "settle_phase E spt lastError =
     (if list_all (\<lambda>c. cond_Status c = ConditionTrue) (sptst_Conditions (spt_Status spt))
      then State_Monad.return (set_task_status (\<lambda>st. st\<lparr>sptst_Phase := PhaseCompleted\<rparr>) spt)
      else do {
        stale \<leftarrow> some_stale E lastError (sptst_Conditions (spt_Status spt));
        if stale then do {
          t \<leftarrow> time_now E;
          let spt1 = set_task_status (\<lambda>st. st\<lparr>sptst_RetryCount := sptst_RetryCount st + 1,
            sptst_LastRetryTime := Some t\<rparr>) spt;
          RecordSnapshotTaskRetry (om_Namespace (spt_meta spt)) (getSnapshotName spt) (om_Name (spt_meta spt));
          if sint (effective_max_retries (spt_Spec spt)) \<le> sint (sptst_RetryCount (spt_Status spt1)) then do {
            RecordTaskFailed (om_Namespace (spt_meta spt)) (getSnapshotName spt) (om_Name (spt_meta spt));
            State_Monad.return (set_task_status (\<lambda>st. st\<lparr>sptst_Phase := PhaseFailed\<rparr>) spt1)
          } else State_Monad.return spt1
        } else State_Monad.return (set_task_status (\<lambda>st. st\<lparr>sptst_Phase := PhaseCreated\<rparr>) spt)
      })"

text \<open>\<^verbatim>\<open>time.Second * time.Duration(RetryDelaySeconds)\<close> is a 64-bit multiplication.\<close>
definition retry_delay :: "SnapshotPodTaskSpec \<Rightarrow> int64" where
  "retry_delay spec =
     (if 0 < sint (spts_RetryDelaySeconds spec) then 1000000000 * scast (spts_RetryDelaySeconds spec)
      else 1000000000 * 30)"

definition finish_task ::
  "'w env \<Rightarrow> gotime \<Rightarrow> SnapshotPodTask \<Rightarrow> ('w, (ctrl_Result \<times> go_error option) outcome) go" where
  "finish_task E startTime spt0 = do {
     u \<leftarrow> in_world (env_update_task_status E spt0);
     (case u of
        Inl err \<Rightarrow> State_Monad.return (Done (no_requeue, Some err))
      | Inr spt \<Rightarrow>
          if terminal_phase (sptst_Phase (spt_Status spt)) then do {
            let status = (if sptst_Phase (spt_Status spt) = PhaseCompleted then SnapshotTaskStatusSuccess
                          else SnapshotTaskStatusFailed);
            d \<leftarrow> (if om_CreationTimestamp (spt_meta spt) \<noteq> 0
                 then do { t \<leftarrow> time_now E; State_Monad.return (t - om_CreationTimestamp (spt_meta spt)) }
                 else State_Monad.return 0);
            RecordSnapshotTask status (om_Namespace (spt_meta spt)) (getSnapshotName spt0) d;
            t \<leftarrow> time_now E;
            RecordControllerReconcile ''snapshotpodtask'' ControllerResultSuccess (t - startTime);
            State_Monad.return (Done (no_requeue, None))
          } else do {
            t \<leftarrow> time_now E;
            RecordControllerReconcile ''snapshotpodtask'' ControllerResultRequeue (t - startTime);
            State_Monad.return (Done (\<lparr>RequeueAfter = sint (retry_delay (spt_Spec spt))\<rparr>, None))
          })
   }"

text \<open>The body of \<^verbatim>\<open>Reconcile\<close> behind its guards: the loop, the phase, the final update.\<close>
definition attempt_task ::
  "'w env \<Rightarrow> 'w SnapshotPodTaskReconciler \<Rightarrow> gotime \<Rightarrow> SnapshotPodTask \<Rightarrow>
    ('w, (ctrl_Result \<times> go_error option) outcome) go" where
  "attempt_task E r startTime spt1 = do {
     ex \<leftarrow> run_recs E (task_recs E r) spt1;
     (case ex of
        LoopPanic m \<Rightarrow> State_Monad.return (Panicked m)
      | LoopReturn err \<Rightarrow> State_Monad.return (Done (no_requeue, Some err))
      | LoopEnd spt2 lastError \<Rightarrow> do {
          spt3 \<leftarrow> settle_phase E spt2 lastError;
          finish_task E startTime spt3
        })
   }"

definition Task_Reconcile ::
  "'w env \<Rightarrow> 'w SnapshotPodTaskReconciler \<Rightarrow> string \<Rightarrow> string \<Rightarrow> ('w, (ctrl_Result \<times> go_error option) outcome) go" where
  "Task_Reconcile E r ns nm = do {
     startTime \<leftarrow> time_now E;
     got \<leftarrow> in_world (env_get_task E ns nm);
     (case got of
        Inl err \<Rightarrow>
          if IsNotFound err then State_Monad.return (Done (no_requeue, None))
          else do {
            RecordControllerError ''snapshotpodtask'' ''get_instance_error'';
            t \<leftarrow> time_now E;
            RecordControllerReconcile ''snapshotpodtask'' ControllerResultError (t - startTime);
            State_Monad.return (Done (no_requeue, Some err))
          }
      | Inr spt \<Rightarrow>
          if spts_NodeName (spt_Spec spt) \<noteq> tr_NodeName r then State_Monad.return (Done (no_requeue, None))
          else if terminal_phase (sptst_Phase (spt_Status spt)) then State_Monad.return (Done (no_requeue, None))
          else do {
            let spt1 = (if sint (sptst_RetryCount (spt_Status spt)) < 0
                        then set_task_status (\<lambda>st. st\<lparr>sptst_RetryCount := 0\<rparr>) spt else spt);
            attempt_task E r startTime spt1
          })
   }"

text \<open>\<^verbatim>\<open>SetupWithManager\<close>, up to the registration with the manager.\<close>
definition Task_SetupWithManager ::
  "'w env \<Rightarrow> 'w SnapshotPodTaskReconciler \<Rightarrow> ('w, (go_error + 'w SnapshotPodTaskReconciler) outcome) go" where
  "Task_SetupWithManager E r = do {
     c \<leftarrow> NewContainerdCompatibleRuntime E ''nerdctl'' [''--debug'', ''-n'', ''k8s.io''];
     (case c of
        Panicked m \<Rightarrow> State_Monad.return (Panicked m)
      | Done (Inl err) \<Rightarrow> State_Monad.return (Done (Inl (PlainError
          (''failed to create containerd compatible runtime: '' @ error_text err))))
      | Done (Inr containerdCompatible) \<Rightarrow> State_Monad.return (Done (Inr (r\<lparr>tr_runtimeMap := [
          (dockerRuntime, NewDockerCompatibleRuntime E ''docker'' [''--debug'']),
          (containerdRuntime, containerd_runtime E containerdCompatible)]\<rparr>))))
   }"

end
