(* ===== verification/TaskRefinement.thy ===== *)
theory TaskRefinement
  imports TaskController
begin

text \<open>
  The abstract machine behind the task reconciler, and the proof that \<open>Task_Reconcile\<close> refines it.
  A task is abstracted to the number of steps that hold, its retry count, its retry limit and its
  phase; \<open>task_step\<close> lists the moves: a step gets done, the finished task completes, a failed attempt
  is counted, the last allowed attempt fails the task. \<open>task_world\<close> is the interface the proof is
  carried out against: an API server that keeps task objects, and runtimes that do not touch it. The
  loop is proved against \<open>task_runtimes\<close>, which says nothing about reads.
\<close>

section \<open>The abstract machine\<close>

record task_abs =
  ta_done :: nat
  ta_retries :: int
  ta_max :: int
  ta_phase :: SnapshotPodTaskPhase

definition step_names :: "string list" where
  "step_names = [''Accept'', ''Commit'', ''Push'']"

inductive task_step :: "task_abs \<Rightarrow> task_abs \<Rightarrow> bool" where
  advance: "\<not> terminal_phase (ta_phase a) \<Longrightarrow> ta_done a < 3 \<Longrightarrow> task_step a (a\<lparr>ta_done := Suc (ta_done a)\<rparr>)"
| complete: "\<not> terminal_phase (ta_phase a) \<Longrightarrow> ta_done a = 3 \<Longrightarrow> task_step a (a\<lparr>ta_phase := PhaseCompleted\<rparr>)"
| retry: "\<not> terminal_phase (ta_phase a) \<Longrightarrow> ta_done a < 3 \<Longrightarrow> ta_retries a + 1 < ta_max a \<Longrightarrow>
    task_step a (a\<lparr>ta_retries := ta_retries a + 1\<rparr>)"
| give_up: "\<not> terminal_phase (ta_phase a) \<Longrightarrow> ta_done a < 3 \<Longrightarrow> ta_max a \<le> ta_retries a + 1 \<Longrightarrow>
    task_step a (a\<lparr>ta_retries := ta_retries a + 1, ta_phase := PhaseFailed\<rparr>)"

inductive_cases task_stepE: "task_step a b"

definition abs_task :: "SnapshotPodTask \<Rightarrow> task_abs" where
  "abs_task t = \<lparr>ta_done = done_count (sptst_Conditions (spt_Status t)),
     ta_retries = sint (sptst_RetryCount (spt_Status t)),
     ta_max = sint (effective_max_retries (spt_Spec t)),
     ta_phase = sptst_Phase (spt_Status t)\<rparr>"

text \<open>Well-formed tasks: what the reconciler itself writes, starting from an empty status.\<close>
definition task_wf :: "SnapshotPodTask \<Rightarrow> bool" where
  "task_wf t \<longleftrightarrow> follows step_names (sptst_Conditions (spt_Status t)) \<and>
     0 \<le> sint (sptst_RetryCount (spt_Status t)) \<and>
     (\<not> terminal_phase (sptst_Phase (spt_Status t)) \<longrightarrow>
        sptst_RetryCount (spt_Status t) = 0 \<or>
        sint (sptst_RetryCount (spt_Status t)) < sint (effective_max_retries (spt_Spec t))) \<and>
     (sptst_Phase (spt_Status t) = PhaseCompleted \<longrightarrow> done_count (sptst_Conditions (spt_Status t)) = 3) \<and>
     (sptst_Phase (spt_Status t) = PhaseFailed \<longrightarrow> done_count (sptst_Conditions (spt_Status t)) < 3)"

text \<open>Two versions of one object that differ in nothing but status and resource version.\<close>
definition same_task :: "SnapshotPodTask \<Rightarrow> SnapshotPodTask \<Rightarrow> bool" where
  "same_task t t' \<longleftrightarrow> (\<exists>st v. t' = t\<lparr>spt_Status := st, spt_meta := (spt_meta t)\<lparr>om_ResourceVersion := v\<rparr>\<rparr>)"

lemma abs_task_sel [simp]:
  "ta_done (abs_task t) = done_count (sptst_Conditions (spt_Status t))"
  "ta_retries (abs_task t) = sint (sptst_RetryCount (spt_Status t))"
  "ta_max (abs_task t) = sint (effective_max_retries (spt_Spec t))"
  "ta_phase (abs_task t) = sptst_Phase (spt_Status t)"
  by (simp_all add: abs_task_def)

lemma same_taskI:
  "t' = t\<lparr>spt_Status := st, spt_meta := (spt_meta t)\<lparr>om_ResourceVersion := v\<rparr>\<rparr> \<Longrightarrow> same_task t t'"
  unfolding same_task_def by blast

lemma same_task_refl [simp]: "same_task t t"
  by (rule same_taskI [where st = "spt_Status t" and v = "om_ResourceVersion (spt_meta t)"]) simp

lemma same_task_trans:
  assumes "same_task t u" and "same_task u v"
  shows "same_task t v"
proof -
  obtain s1 v1 s2 v2 where
    u: "u = t\<lparr>spt_Status := s1, spt_meta := (spt_meta t)\<lparr>om_ResourceVersion := v1\<rparr>\<rparr>" and
    v: "v = u\<lparr>spt_Status := s2, spt_meta := (spt_meta u)\<lparr>om_ResourceVersion := v2\<rparr>\<rparr>"
    using assms unfolding same_task_def by blast
  show ?thesis by (rule same_taskI [where st = s2 and v = v2]) (simp add: u v)
qed

lemma same_task_sel:
  assumes "same_task t t'"
  shows "spt_Spec t' = spt_Spec t" "task_key t' = task_key t"
    "om_Labels (spt_meta t') = om_Labels (spt_meta t)"
    "om_CreationTimestamp (spt_meta t') = om_CreationTimestamp (spt_meta t)"
  using assms by (auto simp: same_task_def)

lemma same_task_set [simp]:
  "same_task t (set_task_conditions conds t)" "same_task t (set_task_status f t)"
  by (rule same_taskI [where v = "om_ResourceVersion (spt_meta t)"],
    simp add: set_task_conditions_def set_task_status_def)+

lemma step_names_simps [simp]: "length step_names = 3" "distinct step_names"
  by (simp_all add: step_names_def)

text \<open>Terminal tasks do not move; the machine never forgets a step or an attempt; it only stops in
  one of the two final phases.\<close>
lemma terminal_no_step: "terminal_phase (ta_phase a) \<Longrightarrow> \<not> task_step a b"
  by (auto elim: task_stepE)

lemma step_monotone: "task_step a b \<Longrightarrow> ta_done a \<le> ta_done b \<and> ta_retries a \<le> ta_retries b \<and> ta_max b = ta_max a"
  by (auto elim: task_stepE)

lemma steps_monotone: "task_step\<^sup>*\<^sup>* a b \<Longrightarrow> ta_done a \<le> ta_done b \<and> ta_retries a \<le> ta_retries b \<and> ta_max b = ta_max a"
  by (induction rule: rtranclp_induct) (auto dest: step_monotone)

lemma terminal_no_steps: "task_step\<^sup>*\<^sup>* a b \<Longrightarrow> terminal_phase (ta_phase a) \<Longrightarrow> b = a"
  by (induction rule: converse_rtranclp_induct) (auto dest: terminal_no_step)

lemma advance_steps:
  assumes "ta_done a + k \<le> 3" and "\<not> terminal_phase (ta_phase a)"
  shows "task_step\<^sup>*\<^sup>* a (a\<lparr>ta_done := ta_done a + k\<rparr>)"
  using assms(1)
proof (induction k)
  case (Suc k)
  then have "task_step\<^sup>*\<^sup>* a (a\<lparr>ta_done := ta_done a + k\<rparr>)" by simp
  moreover have "task_step (a\<lparr>ta_done := ta_done a + k\<rparr>) (a\<lparr>ta_done := ta_done a + Suc k\<rparr>)"
    using task_step.advance [of "a\<lparr>ta_done := ta_done a + k\<rparr>"] Suc.prems assms(2) by simp
  ultimately show ?case by (rule rtranclp.rtrancl_into_rtrancl)
qed simp

section \<open>The world of a reconciler\<close>

text \<open>\<open>unseen obs\<close>: the observed part of the world is unchanged (metrics may be recorded).\<close>
definition unseen :: "('w \<Rightarrow> 'o) \<Rightarrow> 'w gstate \<Rightarrow> 'w gstate \<Rightarrow> bool" where
  "unseen obs s t \<longleftrightarrow> obs (gs_world t) = obs (gs_world s)"

interpretation unseen_frame: frame_rel "unseen obs" for obs :: "'w \<Rightarrow> 'o"
  by unfold_locales (auto simp: unseen_def)

lemma quiet_unseen: "keeps (quiet obs) m \<Longrightarrow> keeps (unseen obs) m"
  by (simp add: keeps_def quiet_def unseen_def)

lemma unseen_emit: "keeps (unseen obs) (emit ops)"
  by (simp add: keeps_def unseen_def)

lemma unseen_record:
  "keeps (unseen obs) (RecordSnapshotTask a b c d)"
  "keeps (unseen obs) (RecordSnapshotTaskRetry a b c)"
  "keeps (unseen obs) (RecordControllerReconcile a b d)"
  "keeps (unseen obs) (RecordControllerError a b)"
  "keeps (unseen obs) (RecordImagePush a b c e d)"
  "keeps (unseen obs) (RecordTaskFailed a b c)"
  by (simp_all add: record_defs unseen_emit)

lemma unseen_in_world: "(\<And>w. obs (snd (run_state m w)) = obs w) \<Longrightarrow> keeps (unseen obs) (in_world m)"
  by (simp add: keeps_def unseen_def)

locale task_runtimes = task_store E tasks
  for E :: "'w env" and tasks :: "'w \<Rightarrow> (string \<times> string \<rightharpoonup> SnapshotPodTask)" +
  fixes r :: "'w SnapshotPodTaskReconciler"
  assumes runtimes_quiet: "(n, rt) \<in> set (tr_runtimeMap r) \<Longrightarrow> runtime_contract rt tasks"
begin

lemma unseen_now: "keeps (unseen tasks) (time_now E)"
  by (rule quiet_unseen) (rule quiet_now)

lemma unseen_getImageAuth: "keeps (unseen tasks) (getImageAuthWithSecret E ns sec img)"
  unfolding getImageAuthWithSecret_def
  by (intro unseen_frame.keeps_rules unseen_in_world get_secret_quiet)

lemma known_runtime:
  "getRuntimeAndContainerID r c = Done (Inr (n, rt, cid)) \<Longrightarrow> runtime_contract rt tasks"
  by (auto simp: getRuntimeAndContainerID_def Let_def split: option.splits list.splits
    dest!: map_of_SomeD runtimes_quiet)

lemma unseen_push_exit: "keeps (unseen tasks) (push_exit E spt t reg err)"
  unfolding push_exit_def by (intro unseen_frame.keeps_rules unseen_now unseen_record)

lemma unseen_push: "keeps (unseen tasks) (reconcilePushImage E r spt)"
  unfolding reconcilePushImage_def pull_origin_def
  by (intro unseen_frame.keeps_rules unseen_now unseen_push_exit unseen_getImageAuth quiet_unseen)
    (auto dest: known_runtime intro: runtime_contract.quiet_ImageExists runtime_contract.quiet_Pull
      runtime_contract.quiet_Push)

lemma unseen_commit: "keeps (unseen tasks) (reconcileCommit E r spt)"
  unfolding reconcileCommit_def Let_def
  by (intro unseen_frame.keeps_rules quiet_unseen)
    (auto dest: known_runtime intro: runtime_contract.quiet_Commit)

lemma unseen_steps: "(n, f) \<in> set (task_recs E r) \<Longrightarrow> keeps (unseen tasks) (f t)"
  by (auto simp: task_recs_def reconcileAccept_def intro: unseen_push unseen_commit unseen_frame.keeps_return)

end

text \<open>With reads that are up to date.\<close>
locale task_world = task_runtimes E tasks r + task_api E tasks
  for E :: "'w env" and tasks :: "'w \<Rightarrow> (string \<times> string \<rightharpoonup> SnapshotPodTask)"
    and r :: "'w SnapshotPodTaskReconciler"

lemma task_worldI:
  "task_api E tasks \<Longrightarrow> (\<And>n rt. (n, rt) \<in> set (tr_runtimeMap r) \<Longrightarrow> runtime_contract rt tasks) \<Longrightarrow> task_world E tasks r"
  by (simp add: task_world_def task_runtimes_def task_runtimes_axioms_def task_api_def)

section \<open>The loop only moves forward\<close>

text \<open>One object moved on: further steps hold, phase and retry count are untouched.\<close>
definition moved :: "SnapshotPodTask \<Rightarrow> SnapshotPodTask \<Rightarrow> bool" where
  "moved t t' \<longleftrightarrow> same_task t t' \<and> follows step_names (sptst_Conditions (spt_Status t')) \<and>
     sptst_Phase (spt_Status t') = sptst_Phase (spt_Status t) \<and>
     sptst_RetryCount (spt_Status t') = sptst_RetryCount (spt_Status t) \<and>
     done_count (sptst_Conditions (spt_Status t)) \<le> done_count (sptst_Conditions (spt_Status t'))"

lemma moved_refl: "follows step_names (sptst_Conditions (spt_Status t)) \<Longrightarrow> moved t t"
  by (simp add: moved_def)

lemma moved_trans: "moved t u \<Longrightarrow> moved u v \<Longrightarrow> moved t v"
  unfolding moved_def by (auto intro: same_task_trans)

lemma set_task_conditions_sel [simp]:
  "spt_Spec (set_task_conditions cs t) = spt_Spec t"
  "spt_meta (set_task_conditions cs t) = spt_meta t"
  "sptst_Conditions (spt_Status (set_task_conditions cs t)) = cs"
  "sptst_Phase (spt_Status (set_task_conditions cs t)) = sptst_Phase (spt_Status t)"
  "sptst_RetryCount (spt_Status (set_task_conditions cs t)) = sptst_RetryCount (spt_Status t)"
  "sptst_LastRetryTime (spt_Status (set_task_conditions cs t)) = sptst_LastRetryTime (spt_Status t)"
  by (simp_all add: set_task_conditions_def)

lemma set_task_conditions_same [simp]:
  "set_task_conditions (sptst_Conditions (spt_Status t)) t = t"
  "set_task_conditions cs (set_task_conditions cs' t) = set_task_conditions cs t"
  by (simp_all add: set_task_conditions_def)

text \<open>Storing the conditions of step \<open>j\<close> with the last one replaced.\<close>
lemma moved_set_condition:
  assumes "ready_for step_names j conds" and "cond_Type c = cond_Type (conds ! j)"
    and "done_count (sptst_Conditions (spt_Status t)) = j"
    and "same_task t t'" and "spt_Status t' = wire_task_status (spt_Status (set_task_conditions (conds[j := c]) t))"
  shows "moved t t' \<and> length (sptst_Conditions (spt_Status t')) = Suc j \<and>
    done_count (sptst_Conditions (spt_Status t')) = (if cond_Status c = ConditionTrue then Suc j else j)"
  using assms ready_for_set [OF assms(1,2)] by (simp add: moved_def ready_for_def)

text \<open>The clock has been read, or nothing has happened.\<close>
definition ticked :: "'w env \<Rightarrow> 'w gstate \<Rightarrow> 'w gstate \<Rightarrow> bool" where
  "ticked E s s' \<longleftrightarrow> s' = s \<or> s' = snd (run_state (time_now E) s)"

lemma succeed_condition_sel:
  assumes "run_state (succeed_condition E c) s = (c', s')"
  shows "cond_Type c' = cond_Type c \<and> cond_Status c' = ConditionTrue \<and> cond_Message c' = [] \<and> ticked E s s'"
  using assms by (auto simp: succeed_condition_def ticked_def Let_def split: if_splits prod.splits)

lemma ensure_condition_sel:
  assumes "run_state (ensure_condition E n conds) s = ((conds', i), s')"
  shows "i < length conds' \<and> cond_Type (conds' ! i) = n \<and> ticked E s s' \<and>
    (cond_Status (conds' ! i) = ConditionTrue \<longrightarrow> conds' = conds)"
  using assms by (auto simp: ensure_condition_def new_condition_def nth_append ticked_def
    dest: find_index_of_Some split: option.splits)

text \<open>One iteration of the loop, by what becomes of the step.\<close>
inductive iteration for E n f recs t s where
  held: "run_state (ensure_condition E n (sptst_Conditions (spt_Status t))) s = ((conds, i), s1) \<Longrightarrow>
    cond_Status (conds ! i) = ConditionTrue \<Longrightarrow>
    run_state (run_recs E recs (set_task_conditions conds t)) s1 = (ex, s') \<Longrightarrow>
    iteration E n f recs t s ex s'"
| panicked: "run_state (ensure_condition E n (sptst_Conditions (spt_Status t))) s = ((conds, i), s1) \<Longrightarrow>
    cond_Status (conds ! i) \<noteq> ConditionTrue \<Longrightarrow>
    run_state (f (set_task_conditions conds t)) s1 = (Panicked m, s') \<Longrightarrow>
    iteration E n f recs t s (LoopPanic m) s'"
| failed: "run_state (ensure_condition E n (sptst_Conditions (spt_Status t))) s = ((conds, i), s1) \<Longrightarrow>
    cond_Status (conds ! i) \<noteq> ConditionTrue \<Longrightarrow>
    run_state (f (set_task_conditions conds t)) s1 = (Done (Some err), s2) \<Longrightarrow>
    run_state (env_update_task_status E (set_task_conditions
      (conds[i := (conds ! i)\<lparr>cond_Status := ConditionFalse, cond_Message := error_text err\<rparr>]) t)) (gs_world s2) = (u, w) \<Longrightarrow>
    iteration E n f recs t s (case u of Inl e \<Rightarrow> LoopReturn e | Inr t2 \<Rightarrow> LoopEnd t2 (Some err)) (s2\<lparr>gs_world := w\<rparr>)"
| refused: "run_state (ensure_condition E n (sptst_Conditions (spt_Status t))) s = ((conds, i), s1) \<Longrightarrow>
    cond_Status (conds ! i) \<noteq> ConditionTrue \<Longrightarrow>
    run_state (f (set_task_conditions conds t)) s1 = (Done None, s2) \<Longrightarrow>
    run_state (succeed_condition E (conds ! i)) s2 = (c, s3) \<Longrightarrow>
    run_state (env_update_task_status E (set_task_conditions (conds[i := c]) t)) (gs_world s3) = (Inl e, w) \<Longrightarrow>
    iteration E n f recs t s (LoopReturn e) (s3\<lparr>gs_world := w\<rparr>)"
| passed: "run_state (ensure_condition E n (sptst_Conditions (spt_Status t))) s = ((conds, i), s1) \<Longrightarrow>
    cond_Status (conds ! i) \<noteq> ConditionTrue \<Longrightarrow>
    run_state (f (set_task_conditions conds t)) s1 = (Done None, s2) \<Longrightarrow>
    run_state (succeed_condition E (conds ! i)) s2 = (c, s3) \<Longrightarrow>
    run_state (env_update_task_status E (set_task_conditions (conds[i := c]) t)) (gs_world s3) = (Inr v, w) \<Longrightarrow>
    run_state (run_recs E recs v) (s3\<lparr>gs_world := w\<rparr>) = (ex, s') \<Longrightarrow>
    iteration E n f recs t s ex s'"

lemma run_recs_iteration:
  assumes run: "run_state (run_recs E ((n, f) # recs) t) s = (ex, s')"
  shows "iteration E n f recs t s ex s'"
proof -
  obtain conds i s1 where ens: "run_state (ensure_condition E n (sptst_Conditions (spt_Status t))) s = ((conds, i), s1)"
    by (metis prod.collapse)
  show ?thesis
  proof (cases "cond_Status (conds ! i) = ConditionTrue")
    case True
    then show ?thesis using run ens by (intro held [OF ens]) (simp_all add: Let_def)
  next
    case False
    obtain res s2 where step: "run_state (f (set_task_conditions conds t)) s1 = (res, s2)" by (metis prod.collapse)
    consider (panic) m where "res = Panicked m" | (fail) err where "res = Done (Some err)" | (ok) "res = Done None"
      by (metis outcome.exhaust option.exhaust)
    then show ?thesis
    proof cases
      case panic
      then show ?thesis using run ens False step panicked [where f = f, OF ens False] by (auto simp: Let_def)
    next
      case fail
      obtain u w where upd: "run_state (env_update_task_status E (set_task_conditions
          (conds[i := (conds ! i)\<lparr>cond_Status := ConditionFalse, cond_Message := error_text err\<rparr>]) t)) (gs_world s2) = (u, w)"
        by (metis prod.collapse)
      from failed [where f = f, OF ens False step [unfolded fail] upd] show ?thesis
        using run ens False step fail upd by (cases u) (auto simp: Let_def)
    next
      case ok
      obtain c s3 where suc: "run_state (succeed_condition E (conds ! i)) s2 = (c, s3)" by (metis prod.collapse)
      obtain u w where upd: "run_state (env_update_task_status E (set_task_conditions (conds[i := c]) t)) (gs_world s3) = (u, w)"
        by (metis prod.collapse)
      note step = step [unfolded ok]
      show ?thesis
      proof (cases u)
        case (Inl e)
        from refused [where f = f, OF ens False step suc upd [unfolded Inl]] show ?thesis
          using run ens False step suc upd Inl by (auto simp: Let_def)
      next
        case (Inr v)
        show ?thesis by (rule passed [where f = f, OF ens False step suc upd [unfolded Inr]])
          (use run ens False step suc upd Inr in \<open>auto simp: Let_def\<close>)
      qed
    qed
  qed
qed

context task_runtimes
begin

lemma update_stored:
  assumes "tasks w (task_key cur) = Some cur" and "same_task cur t"
    and "run_state (env_update_task_status E t) w = (u, w')"
  obtains t' where "tasks w' = (tasks w)(task_key cur \<mapsto> t')" and "same_task cur t'"
    and "t' = cur \<and> (\<exists>e. u = Inl e) \<or> spt_Status t' = wire_task_status (spt_Status t)"
    and "\<And>t2. u = Inr t2 \<Longrightarrow> t2 = t' \<and> spt_Status t' = wire_task_status (spt_Status t)"
proof -
  have key: "task_key t = task_key cur" by (rule same_task_sel(2) [OF assms(2)])
  show thesis
  proof (cases u)
    case (Inl e)
    with update_task_err [of t w e w'] assms(3)
    consider "tasks w' = tasks w"
      | t' where "status_written cur t t'" "tasks w' = (tasks w)(task_key cur \<mapsto> t')"
      using assms(1) key by auto
    then show ?thesis
    proof cases
      case 1
      with assms(1) Inl show ?thesis by (intro that [of cur]) (simp_all add: fun_upd_idem)
    next
      case 2
      then show ?thesis using Inl by (intro that [of t']) (auto simp: status_written_def intro: same_taskI)
    qed
  next
    case (Inr t')
    with update_task_ok [of t w t' w'] assms(3) have "status_written cur t t'" "tasks w' = (tasks w)(task_key cur \<mapsto> t')"
      using assms(1) key by auto
    then show ?thesis using Inr by (intro that [of t']) (auto simp: status_written_def intro: same_taskI)
  qed
qed

lemma tasks_unseen: "keeps (unseen tasks) m \<Longrightarrow> run_state m s = (a, s') \<Longrightarrow> tasks (gs_world s') = tasks (gs_world s)"
  by (drule (1) keepsD) (simp add: unseen_def)

lemma tasks_now: "tasks (gs_world (snd (run_state (time_now E) s))) = tasks (gs_world s)"
  using tasks_unseen [OF unseen_now] by (metis prod.collapse)

lemma tasks_ticked: "ticked E s s' \<Longrightarrow> tasks (gs_world s') = tasks (gs_world s)"
  unfolding ticked_def using tasks_now by auto

text \<open>One status update of the loop: the object stays, or the last condition is replaced by \<open>c\<close>.\<close>
lemma loop_update:
  assumes "tasks w (task_key t) = Some t" and "ready_for step_names j conds"
    and "done_count (sptst_Conditions (spt_Status t)) = j" and "follows step_names (sptst_Conditions (spt_Status t))"
    and "cond_Type c = cond_Type (conds ! j)"
    and "run_state (env_update_task_status E (set_task_conditions (conds[j := c]) t)) w = (u, w')"
  obtains t' where "tasks w' = (tasks w)(task_key t \<mapsto> t')" and "moved t t'"
    and "\<And>t2. u = Inr t2 \<Longrightarrow> t2 = t' \<and> length (sptst_Conditions (spt_Status t')) = Suc j \<and>
      done_count (sptst_Conditions (spt_Status t')) = (if cond_Status c = ConditionTrue then Suc j else j)"
proof -
  obtain t' where t': "tasks w' = (tasks w)(task_key t \<mapsto> t')" "same_task t t'"
      "t' = t \<and> (\<exists>e. u = Inl e) \<or>
        spt_Status t' = wire_task_status (spt_Status (set_task_conditions (conds[j := c]) t))"
      "\<And>t2. u = Inr t2 \<Longrightarrow> t2 = t' \<and>
        spt_Status t' = wire_task_status (spt_Status (set_task_conditions (conds[j := c]) t))"
    by (rule update_stored [OF assms(1) same_task_set(1) assms(6)]) blast
  note set = moved_set_condition [OF assms(2,5,3) t'(2)]
  show thesis
  proof (rule that [OF t'(1)])
    show "moved t t'" using t'(3) set moved_refl [OF assms(4)] by blast
    show "t2 = t' \<and> length (sptst_Conditions (spt_Status t')) = Suc j \<and> done_count (sptst_Conditions (spt_Status t')) =
        (if cond_Status c = ConditionTrue then Suc j else j)" if "u = Inr t2" for t2
      using t'(4) [OF that] set by blast
  qed
qed

text \<open>What one iteration may do: hand a moved-on object to the remaining steps, or end the loop.\<close>
definition goes_on :: "'w task_rec list \<Rightarrow> nat \<Rightarrow> SnapshotPodTask \<Rightarrow> 'w gstate \<Rightarrow> loop_exit \<Rightarrow> 'w gstate \<Rightarrow> bool" where
  "goes_on recs j t s ex s' \<longleftrightarrow> (\<exists>t1 s1. tasks (gs_world s1) = (tasks (gs_world s))(task_key t \<mapsto> t1) \<and> moved t t1 \<and>
     Suc j \<le> done_count (sptst_Conditions (spt_Status t1)) \<and> run_state (run_recs E recs t1) s1 = (ex, s'))"

definition stops :: "nat \<Rightarrow> SnapshotPodTask \<Rightarrow> 'w gstate \<Rightarrow> loop_exit \<Rightarrow> 'w gstate \<Rightarrow> bool" where
  "stops j t s ex s' \<longleftrightarrow> (\<exists>t1. tasks (gs_world s') = (tasks (gs_world s))(task_key t \<mapsto> t1) \<and> moved t t1 \<and>
     (\<forall>t2 err. ex = LoopEnd t2 err \<longrightarrow> t2 = t1 \<and> err \<noteq> None \<and>
       done_count (sptst_Conditions (spt_Status t1)) = j \<and> length (sptst_Conditions (spt_Status t1)) = Suc j))"

lemma stopsI:
  "tasks (gs_world s') = (tasks (gs_world s))(task_key t \<mapsto> t1) \<Longrightarrow> moved t t1 \<Longrightarrow>
   (\<And>t2 err. ex = LoopEnd t2 err \<Longrightarrow> t2 = t1 \<and> err \<noteq> None \<and>
       done_count (sptst_Conditions (spt_Status t1)) = j \<and> length (sptst_Conditions (spt_Status t1)) = Suc j) \<Longrightarrow>
   stops j t s ex s'"
  unfolding stops_def by blast

text \<open>The condition of the next step, held or to be tried.\<close>
lemma ensure_next:
  assumes "run_state (ensure_condition E (step_names ! j) (sptst_Conditions (spt_Status t))) s = ((conds, i), s1)"
    and "j < 3" and fol: "follows step_names (sptst_Conditions (spt_Status t))"
    and "j \<le> done_count (sptst_Conditions (spt_Status t))"
  shows "i = j" and "tasks (gs_world s1) = tasks (gs_world s)"
    and "cond_Status (conds ! i) = ConditionTrue \<Longrightarrow>
      conds = sptst_Conditions (spt_Status t) \<and> Suc j \<le> done_count (sptst_Conditions (spt_Status t))"
    and "cond_Status (conds ! i) \<noteq> ConditionTrue \<Longrightarrow>
      ready_for step_names j conds \<and> done_count (sptst_Conditions (spt_Status t)) = j"
  using ensure_follows [OF fol step_names_simps(2) _ assms(4,1)] assms(2) tasks_now by auto

lemma loop_body:
  assumes f: "\<And>t. keeps (unseen tasks) (f t)" and j: "j < 3" and n: "n = step_names ! j"
    and fol: "follows step_names (sptst_Conditions (spt_Status t))" and dj: "j \<le> done_count (sptst_Conditions (spt_Status t))"
    and stored: "tasks (gs_world s) (task_key t) = Some t"
    and run: "run_state (run_recs E ((n, f) # recs) t) s = (ex, s')"
  shows "goes_on recs j t s ex s' \<or> stops j t s ex s'"
  using run_recs_iteration [OF run]
proof cases
  case (held conds i s1)
  note e = ensure_next [OF held(1) [unfolded n] j fol dj]
  have "goes_on recs j t s ex s'" unfolding goes_on_def
    using held(3) e(2) e(3) [OF held(2)] stored
    by (intro exI [of _ t] exI [of _ s1]) (auto simp: moved_refl [OF fol] fun_upd_idem)
  then show ?thesis ..
next
  case (panicked conds i s1 m)
  have "tasks (gs_world s') = tasks (gs_world s)"
    using tasks_unseen [OF f panicked(4)] ensure_next(2) [OF panicked(2) [unfolded n] j fol dj] by simp
  then have "stops j t s ex s'"
    using panicked(1) stored by (intro stopsI [of _ _ t t]) (auto simp: moved_refl [OF fol] fun_upd_idem)
  then show ?thesis ..
next
  case (failed conds i s1 err s2 u w)
  note e = ensure_next [OF failed(3) [unfolded n] j fol dj]
  have s2: "tasks (gs_world s2) = tasks (gs_world s)" using tasks_unseen [OF f failed(5)] e(2) by simp
  obtain t' where t': "tasks w = (tasks (gs_world s2))(task_key t \<mapsto> t')" "moved t t'"
      "\<And>t2. u = Inr t2 \<Longrightarrow> t2 = t' \<and> length (sptst_Conditions (spt_Status t')) = Suc j \<and>
        done_count (sptst_Conditions (spt_Status t')) = j"
    by (rule loop_update [OF _ _ _ fol _ failed(6) [unfolded e(1)]]) (use e(1) e(4) failed(4) s2 stored in auto)
  then have "stops j t s ex s'" using failed(1,2) s2 by (intro stopsI [of _ _ t t']) (auto split: sum.splits)
  then show ?thesis ..
next
  case (refused conds i s1 s2 c s3 e w)
  note e = ensure_next [OF refused(3) [unfolded n] j fol dj]
  note c = succeed_condition_sel [OF refused(6)]
  have s3: "tasks (gs_world s3) = tasks (gs_world s)" using tasks_unseen [OF f refused(5)] e(2) c tasks_ticked by metis
  obtain t' where "tasks w = (tasks (gs_world s3))(task_key t \<mapsto> t')" "moved t t'"
    by (rule loop_update [OF _ _ _ fol _ refused(7) [unfolded e(1)]]) (use e(1) e(4) c refused(4) s3 stored in auto)
  then have "stops j t s ex s'" using refused(1,2) s3 by (intro stopsI [of _ _ t t']) auto
  then show ?thesis ..
next
  case (passed conds i s1 s2 c s3 v w)
  note e = ensure_next [OF passed(1) [unfolded n] j fol dj]
  note c = succeed_condition_sel [OF passed(4)]
  have s3: "tasks (gs_world s3) = tasks (gs_world s)" using tasks_unseen [OF f passed(3)] e(2) c tasks_ticked by metis
  obtain t' where t': "tasks w = (tasks (gs_world s3))(task_key t \<mapsto> t')" "moved t t'"
      "\<And>t2. Inr v = Inr t2 \<Longrightarrow> t2 = t' \<and> length (sptst_Conditions (spt_Status t')) = Suc j \<and>
        done_count (sptst_Conditions (spt_Status t')) = Suc j"
    by (rule loop_update [OF _ _ _ fol _ passed(5) [unfolded e(1)]]) (use e(1) e(4) c passed(2) s3 stored in auto)
  then have "goes_on recs j t s ex s'" unfolding goes_on_def
    using s3 passed(6) by (intro exI [of _ t'] exI [of _ "s3\<lparr>gs_world := w\<rparr>"]) auto
  then show ?thesis ..
qed

text \<open>
  The loop over the remaining steps, from any point: it moves the stored object on and touches no
  other, and if it runs to its end, it hands on the stored object, with every step done exactly when
  no step failed.
\<close>
lemma run_recs_moves:
  assumes "\<forall>p\<in>set recs. \<forall>t. keeps (unseen tasks) (snd p t)"
    and "map fst recs = drop j step_names" and "j \<le> 3"
    and "follows step_names (sptst_Conditions (spt_Status t))" and "j \<le> done_count (sptst_Conditions (spt_Status t))"
    and "tasks (gs_world s) (task_key t) = Some t"
    and "run_state (run_recs E recs t) s = (ex, s')"
  shows "\<exists>t'. tasks (gs_world s') = (tasks (gs_world s))(task_key t \<mapsto> t') \<and> moved t t' \<and>
    (\<forall>t2 err. ex = LoopEnd t2 err \<longrightarrow> t2 = t' \<and> (err = None \<longleftrightarrow> done_count (sptst_Conditions (spt_Status t')) = 3) \<and>
       (err \<noteq> None \<longrightarrow> length (sptst_Conditions (spt_Status t')) = Suc (done_count (sptst_Conditions (spt_Status t')))))"
  using assms
proof (induction recs arbitrary: j t s)
  case Nil
  then have "done_count (sptst_Conditions (spt_Status t)) = 3" using follows_done_le [OF Nil.prems(4)] by simp
  with Nil.prems show ?case by (intro exI [of _ t]) (auto simp: moved_refl fun_upd_idem)
next
  case (Cons rec recs)
  obtain n f where rec: "rec = (n, f)" by (cases rec)
  have j: "j < 3" and n: "n = step_names ! j" and recs: "map fst recs = drop (Suc j) step_names"
    using Cons.prems(2) rec by (auto simp: Cons_nth_drop_Suc [symmetric] step_names_def
      numeral_eq_Suc less_Suc_eq_le le_Suc_eq drop_Cons' split: if_splits)
  have frame: "\<forall>p\<in>set recs. \<forall>t. keeps (unseen tasks) (snd p t)" and f: "\<And>t. keeps (unseen tasks) (f t)"
    using Cons.prems(1) rec by auto
  from loop_body [OF f j n Cons.prems(4,5,6) Cons.prems(7) [unfolded rec]] show ?case
  proof
    assume "stops j t s ex s'"
    then show ?thesis using j unfolding stops_def by (elim exE conjE) (rule exI, auto)
  next
    assume "goes_on recs j t s ex s'"
    then obtain t1 s1 where t1: "tasks (gs_world s1) = (tasks (gs_world s))(task_key t \<mapsto> t1)" "moved t t1"
        "Suc j \<le> done_count (sptst_Conditions (spt_Status t1))" "run_state (run_recs E recs t1) s1 = (ex, s')"
      unfolding goes_on_def by blast
    have key: "task_key t1 = task_key t" and fol: "follows step_names (sptst_Conditions (spt_Status t1))"
      using t1(2) same_task_sel(2) by (auto simp: moved_def)
    have "Suc j \<le> 3" and "tasks (gs_world s1) (task_key t1) = Some t1" using j t1(1) key by auto
    from Cons.IH [OF frame recs this(1) fol t1(3) this(2) t1(4)]
    obtain t2 where t2: "tasks (gs_world s') = (tasks (gs_world s1))(task_key t1 \<mapsto> t2)" "moved t1 t2"
        "\<forall>t3 err. ex = LoopEnd t3 err \<longrightarrow> t3 = t2 \<and> (err = None \<longleftrightarrow> done_count (sptst_Conditions (spt_Status t2)) = 3) \<and>
          (err \<noteq> None \<longrightarrow> length (sptst_Conditions (spt_Status t2)) = Suc (done_count (sptst_Conditions (spt_Status t2))))"
      by blast
    show ?thesis using t2 t1(1) key moved_trans [OF t1(2) t2(2)] by (intro exI [of _ t2]) auto
  qed
qed

end

end
