(* ===== verification/TaskProperties.thy ===== *)
theory TaskProperties
  imports TaskRefinement
begin

text \<open>
  From the loop to \<open>Task_Reconcile\<close>: the choice of the phase is one step of the abstract machine, the
  final update stores it or fails, and so a whole call is a sequence of abstract steps. The
  properties of the task controller follow.
\<close>

section \<open>The phase\<close>

lemma set_task_status_sel [simp]:
  "spt_Spec (set_task_status f t) = spt_Spec t" "spt_meta (set_task_status f t) = spt_meta t"
  "spt_Status (set_task_status f t) = f (spt_Status t)"
  by (simp_all add: set_task_status_def)

lemma some_stale_error: "run_state (some_stale E (Some e) cs) s = (done_count cs \<noteq> length cs, s)"
  by (induction cs) (use done_count_le in \<open>auto simp: Suc_le_eq\<close>)

text \<open>An attempt is counted without wrap-around, because the count is below a 32-bit limit.\<close>
lemma sint_suc_below:
  fixes x m :: int32
  assumes "x = 0 \<or> sint x < sint m"
  shows "sint (x + 1) = sint x + 1"
proof -
  have "sint m < 2 ^ 31" and "- (2 ^ 31) \<le> sint x" using sint_lt [of m] sint_ge [of x] by simp_all
  then have "sint x + 1 < 2 ^ 31" using assms by auto
  with \<open>- (2 ^ 31) \<le> sint x\<close> show ?thesis
    by (simp add: sint_word_add signed_take_bit_int_eq_self)
qed

text \<open>Where a reconciliation goes once its loop has ended.\<close>
definition settled :: "SnapshotPodTask \<Rightarrow> SnapshotPodTask \<Rightarrow> bool" where
  "settled t t' \<longleftrightarrow> task_step (abs_task t) (abs_task t') \<and> task_wf t' \<and> same_task t t' \<and>
     sptst_Conditions (spt_Status t') = sptst_Conditions (spt_Status t) \<and>
     (terminal_phase (sptst_Phase (spt_Status t')) \<or>
      sint (sptst_RetryCount (spt_Status t')) = sint (sptst_RetryCount (spt_Status t)) + 1)"

lemma settle_completed:
  assumes wf: "task_wf t" "\<not> terminal_phase (sptst_Phase (spt_Status t))"
    and d: "done_count (sptst_Conditions (spt_Status t)) = 3"
    and run: "run_state (settle_phase E t err) s = (t', s')"
  shows "settled t t' \<and> s' = s \<and> sptst_Phase (spt_Status t') = PhaseCompleted"
proof -
  have "length (sptst_Conditions (spt_Status t)) = 3"
    using wf(1) d done_count_le [of "sptst_Conditions (spt_Status t)"] by (auto simp: task_wf_def follows_def)
  then have t': "t' = set_task_status (\<lambda>st. st\<lparr>sptst_Phase := PhaseCompleted\<rparr>) t" and "s' = s"
    using run d by (simp_all add: settle_phase_def done_count_all)
  have abs: "abs_task t' = (abs_task t)\<lparr>ta_phase := PhaseCompleted\<rparr>" by (simp add: t' abs_task_def)
  have "task_step (abs_task t) (abs_task t')" unfolding abs using wf d by (intro task_step.complete) simp_all
  moreover have "task_wf t'" using wf d by (simp add: t' task_wf_def)
  ultimately show ?thesis unfolding settled_def by (simp add: t' \<open>s' = s\<close>)
qed

lemma settle_failed:
  assumes wf: "task_wf t" "\<not> terminal_phase (sptst_Phase (spt_Status t))"
    and d: "done_count (sptst_Conditions (spt_Status t)) < 3"
      "length (sptst_Conditions (spt_Status t)) = Suc (done_count (sptst_Conditions (spt_Status t)))"
    and run: "run_state (settle_phase E t (Some err)) s = (t', s')"
  shows "settled t t'"
proof -
  let ?r = "sptst_RetryCount (spt_Status t)" and ?m = "sint (effective_max_retries (spt_Spec t))"
  have suc: "sint (?r + 1) = sint ?r + 1"
    using wf by (intro sint_suc_below [where m = "effective_max_retries (spt_Spec t)"]) (auto simp: task_wf_def)
  obtain now where t': "t' = set_task_status (\<lambda>st. st\<lparr>sptst_RetryCount := sptst_RetryCount st + 1,
      sptst_LastRetryTime := Some now, sptst_Phase := (if ?m \<le> sint ?r + 1 then PhaseFailed else sptst_Phase st)\<rparr>) t"
    using run d by (auto simp: settle_phase_def done_count_all some_stale_error record_defs Let_def suc
      set_task_status_def split: if_splits prod.splits)
  have wf': "task_wf t'" using wf d by (auto simp: t' task_wf_def suc)
  show ?thesis
  proof (cases "?m \<le> sint ?r + 1")
    case True
    then have "abs_task t' = (abs_task t)\<lparr>ta_retries := ta_retries (abs_task t) + 1, ta_phase := PhaseFailed\<rparr>"
      by (simp add: t' abs_task_def suc)
    then have "task_step (abs_task t) (abs_task t')"
      using task_step.give_up [of "abs_task t"] wf d True by simp
    then show ?thesis using wf' True by (simp add: settled_def t' suc)
  next
    case False
    then have "abs_task t' = (abs_task t)\<lparr>ta_retries := ta_retries (abs_task t) + 1\<rparr>"
      by (simp add: t' abs_task_def suc)
    then have "task_step (abs_task t) (abs_task t')"
      using task_step.retry [of "abs_task t"] wf d False by simp
    then show ?thesis using wf' by (simp add: settled_def t' suc)
  qed
qed

text \<open>The guards in front: whose task it is, and whether it is still to be worked on.\<close>
definition to_do :: "'w SnapshotPodTaskReconciler \<Rightarrow> SnapshotPodTask \<Rightarrow> bool" where
  "to_do r t \<longleftrightarrow> spts_NodeName (spt_Spec t) = tr_NodeName r \<and> \<not> terminal_phase (sptst_Phase (spt_Status t))"

section \<open>The final update\<close>

lemma wire_task:
  assumes "spt_Status u = wire_task_status (spt_Status t)" and "spt_Spec u = spt_Spec t"
  shows "abs_task u = abs_task t" and "task_wf u = task_wf t"
  using assms by (simp_all add: abs_task_def task_wf_def)

lemma same_task_key: "same_task t u \<Longrightarrow> task_key u = task_key t"
  by (rule same_task_sel(2))

text \<open>What a call needs of a frame, outside the steps and the update of the task.\<close>
locale task_ops = frame_rel R for R :: "'w gstate \<Rightarrow> 'w gstate \<Rightarrow> bool" +
  fixes E :: "'w env"
  assumes R_now: "keeps R (time_now E)" and R_emit: "keeps R (emit ops)"
begin

lemma frame_record:
  "keeps R (RecordSnapshotTask a b c d)" "keeps R (RecordSnapshotTaskRetry a b c)"
  "keeps R (RecordControllerReconcile a b d)" "keeps R (RecordControllerError a b)" "keeps R (RecordTaskFailed a b c)"
  by (simp_all add: record_defs R_emit)

lemma frame_stale: "keeps R (some_stale E e cs)"
  by (induction cs) (auto intro!: keeps_rules R_now simp del: run_time_now)

lemma frame_settle: "keeps R (settle_phase E t e)"
  unfolding settle_phase_def Let_def by (intro keeps_rules R_now frame_record frame_stale)

lemma frame_rest_of_finish:
  "keeps R (do {
     let status = (if sptst_Phase (spt_Status spt) = PhaseCompleted then SnapshotTaskStatusSuccess
                   else SnapshotTaskStatusFailed);
     d \<leftarrow> (if om_CreationTimestamp (spt_meta spt) \<noteq> 0
          then do { t \<leftarrow> time_now E; State_Monad.return (t - om_CreationTimestamp (spt_meta spt)) }
          else State_Monad.return 0);
     RecordSnapshotTask status (om_Namespace (spt_meta spt)) nm d;
     t \<leftarrow> time_now E;
     RecordControllerReconcile ''snapshotpodtask'' ControllerResultSuccess (t - startTime);
     State_Monad.return (Done (no_requeue, None))
   })"
  "keeps R (do {
     t \<leftarrow> time_now E;
     RecordControllerReconcile ''snapshotpodtask'' ControllerResultRequeue (t - startTime);
     State_Monad.return x
   })"
  unfolding Let_def by (intro keeps_rules R_now frame_record)+

text \<open>The final update and what follows it.\<close>
lemma finish_parts:
  assumes run: "run_state (finish_task E t0 t) s = (res, s')"
  obtains u w where "run_state (env_update_task_status E t) (gs_world s) = (u, w)" and "R (s\<lparr>gs_world := w\<rparr>) s'"
    and "res = Done (case u of Inl e \<Rightarrow> (no_requeue, Some e)
      | Inr v \<Rightarrow> (if terminal_phase (sptst_Phase (spt_Status v)) then no_requeue
                  else \<lparr>RequeueAfter = sint (retry_delay (spt_Spec v))\<rparr>, None))"
proof -
  obtain u w where upd: "run_state (env_update_task_status E t) (gs_world s) = (u, w)" by (metis prod.collapse)
  have res: "res = Done (case u of Inl e \<Rightarrow> (no_requeue, Some e)
      | Inr v \<Rightarrow> (if terminal_phase (sptst_Phase (spt_Status v)) then no_requeue
                  else \<lparr>RequeueAfter = sint (retry_delay (spt_Spec v))\<rparr>, None))"
    using run upd by (auto simp: finish_task_def Let_def record_defs split: sum.splits if_splits prod.splits)
  have "R (s\<lparr>gs_world := w\<rparr>) s'"
  proof (cases u)
    case (Inl e)
    then show ?thesis using run upd refl_R by (simp add: finish_task_def)
  next
    case (Inr v)
    show ?thesis
      using run upd Inr
        keepsD [OF frame_rest_of_finish(1) [of v "getSnapshotName t" t0], of "s\<lparr>gs_world := w\<rparr>" res s']
        keepsD [OF frame_rest_of_finish(2) [of t0 "Done (\<lparr>RequeueAfter = sint (retry_delay (spt_Spec v))\<rparr>, None)"],
          of "s\<lparr>gs_world := w\<rparr>" res s']
      by (auto simp: finish_task_def split: if_splits)
  qed
  then show thesis by (rule that [OF upd _ res])
qed

text \<open>A call up to its attempt: it ends at the guards, or it attempts the task it has read.\<close>
lemma call_parts:
  assumes run: "run_state (Task_Reconcile E r ns nm) s = (res, s')"
  obtains (not_read) s1 e w where "R s s1" and "run_state (env_get_task E ns nm) (gs_world s1) = (Inl e, w)"
      and "res = Done (no_requeue, if IsNotFound e then None else Some e)" and "R (s1\<lparr>gs_world := w\<rparr>) s'"
  | (not_to_do) s1 t w where "R s s1" and "run_state (env_get_task E ns nm) (gs_world s1) = (Inr t, w)"
      and "\<not> to_do r t" and "res = Done (no_requeue, None)" and "s' = s1\<lparr>gs_world := w\<rparr>"
  | (attempt) s1 t w t0 where "R s s1" and "run_state (env_get_task E ns nm) (gs_world s1) = (Inr t, w)"
      and "to_do r t" and "gs_metrics s1 = gs_metrics s"
      and "run_state (attempt_task E r t0 (if sint (sptst_RetryCount (spt_Status t)) < 0
        then set_task_status (\<lambda>st. st\<lparr>sptst_RetryCount := 0\<rparr>) t else t)) (s1\<lparr>gs_world := w\<rparr>) = (res, s')"
proof -
  obtain t0 s1 where now: "run_state (time_now E) s = (t0, s1)" by (metis prod.collapse)
  have s1: "R s s1" by (rule keepsD [OF R_now now])
  obtain got w where get: "run_state (env_get_task E ns nm) (gs_world s1) = (got, w)" by (metis prod.collapse)
  let ?s2 = "s1\<lparr>gs_world := w\<rparr>"
  show thesis
  proof (cases got)
    case (Inl e)
    let ?tail = "if IsNotFound e then State_Monad.return (Done (no_requeue, None))
      else do { RecordControllerError ''snapshotpodtask'' ''get_instance_error''; t \<leftarrow> time_now E;
        RecordControllerReconcile ''snapshotpodtask'' ControllerResultError (t - t0); State_Monad.return (Done (no_requeue, Some e)) }"
    have quiet: "keeps R ?tail" by (intro keeps_rules R_now frame_record)
    have tail: "run_state ?tail ?s2 = (res, s')" using run now get Inl by (simp add: Task_Reconcile_def del: run_time_now)
    have "res = Done (no_requeue, if IsNotFound e then None else Some e)" using tail by (auto simp: record_defs split: if_splits)
    then show thesis by (rule not_read [OF s1 get [unfolded Inl] _ keepsD [OF quiet tail]])
  next
    case (Inr t)
    show thesis
    proof (cases "to_do r t")
      case False
      then have "res = Done (no_requeue, None)" "s' = ?s2"
        using run now get Inr by (auto simp: Task_Reconcile_def to_do_def simp del: run_time_now split: if_splits)
      then show thesis by (rule not_to_do [OF s1 get [unfolded Inr] False])
    next
      case True
      then have "run_state (attempt_task E r t0 (if sint (sptst_RetryCount (spt_Status t)) < 0
          then set_task_status (\<lambda>st. st\<lparr>sptst_RetryCount := 0\<rparr>) t else t)) ?s2 = (res, s')"
        using run now get Inr by (auto simp: Task_Reconcile_def to_do_def Let_def simp del: run_time_now split: if_splits)
      then show thesis using now by (intro attempt [OF s1 get [unfolded Inr] True]) auto
    qed
  qed
qed

end

text \<open>A frame that also allows the update of the task holds for a whole call, if it holds for the steps.\<close>
locale task_frame = task_ops R E for R :: "'w gstate \<Rightarrow> 'w gstate \<Rightarrow> bool" and E :: "'w env" +
  assumes R_update: "keeps R (in_world (env_update_task_status E t))"
begin

lemma frame_loop:
  assumes "\<forall>p\<in>set recs. \<forall>t. keeps R (snd p t)"
  shows "keeps R (run_recs E recs t)"
  using assms
proof (induction recs arbitrary: t)
  case (Cons rec recs)
  obtain n f where rec: "rec = (n, f)" by (cases rec)
  show ?case using Cons unfolding rec run_recs.simps succeed_condition_def ensure_condition_def Let_def
    by (intro keeps_rules R_now R_update) auto
qed (simp add: keeps_return)

lemma frame_attempt:
  assumes "\<forall>p\<in>set (task_recs E r). \<forall>t. keeps R (snd p t)"
  shows "keeps R (attempt_task E r t0 t)"
proof -
  have "keeps R (finish_task E t0 t2)" for t2
    unfolding finish_task_def Let_def by (intro keeps_rules R_now R_update frame_record)
  then show ?thesis unfolding attempt_task_def
    by (intro keeps_rules frame_loop assms, split loop_exit.split) (auto intro!: keeps_rules frame_settle)
qed

end

text \<open>Nobody else writes: the tasks stay as they are.\<close>
sublocale task_runtimes \<subseteq> unseen_ops: task_ops "unseen tasks" E
  by unfold_locales (simp_all add: unseen_emit unseen_now unseen_frame.refl_R)

context task_runtimes
begin

lemma finish_moves:
  assumes stored: "tasks (gs_world s) (task_key t) = Some t" and st: "settled t t'" and wf: "task_wf t"
    and run: "run_state (finish_task E t0 t') s = (res, s')"
  shows "\<exists>u. tasks (gs_world s') = (tasks (gs_world s))(task_key t \<mapsto> u) \<and> same_task t u \<and> task_wf u \<and>
    (abs_task u = abs_task t \<or> abs_task u = abs_task t') \<and>
    (\<exists>q err. res = Done (q, err) \<and> (err = None \<longrightarrow> abs_task u = abs_task t' \<and>
      q = (if terminal_phase (ta_phase (abs_task t')) then no_requeue
           else \<lparr>RequeueAfter = sint (retry_delay (spt_Spec t))\<rparr>)))"
proof -
  have same: "same_task t t'" and wf': "task_wf t'" using st by (simp_all add: settled_def)
  from run obtain v w1 where upd: "run_state (env_update_task_status E t') (gs_world s) = (v, w1)"
    and w: "unseen tasks (s\<lparr>gs_world := w1\<rparr>) s'"
    and res: "res = Done (case v of Inl e \<Rightarrow> (no_requeue, Some e)
      | Inr v \<Rightarrow> (if terminal_phase (sptst_Phase (spt_Status v)) then no_requeue
                  else \<lparr>RequeueAfter = sint (retry_delay (spt_Spec v))\<rparr>, None))"
    by (rule unseen_ops.finish_parts)
  obtain u where u: "tasks w1 = (tasks (gs_world s))(task_key t \<mapsto> u)" "same_task t u"
      "u = t \<and> (\<exists>e. v = Inl e) \<or> spt_Status u = wire_task_status (spt_Status t')"
      "\<And>t2. v = Inr t2 \<Longrightarrow> t2 = u \<and> spt_Status u = wire_task_status (spt_Status t')"
    by (rule update_stored [OF stored same upd]) blast
  have spec: "spt_Spec u = spt_Spec t'" using same_task_sel(1) [OF same] same_task_sel(1) [OF u(2)] by simp
  have eff: "task_wf u \<and> (abs_task u = abs_task t \<or> abs_task u = abs_task t')"
    using u(3) wire_task [OF _ spec] wf wf' by auto
  have w1: "tasks (gs_world s') = tasks w1" using w by (simp add: unseen_def)
  show ?thesis
  proof (cases v)
    case (Inl e)
    then show ?thesis using u eff w1 res by (intro exI [of _ u]) auto
  next
    case (Inr t2)
    then have t2: "t2 = u" and abs: "abs_task u = abs_task t'" using u(4) wire_task(1) [OF _ spec] by auto
    have "sptst_Phase (spt_Status u) = ta_phase (abs_task t')" using abs by (metis abs_task_sel(4))
    then show ?thesis using w1 u(1,2) abs eff res Inr t2 same_task_sel(1) [OF u(2)] by (intro exI [of _ u]) auto
  qed
qed

text \<open>The loop over all three steps, started on a stored task that is not terminal.\<close>
lemma all_recs_move:
  assumes stored: "tasks (gs_world s) (task_key t) = Some t" and wf: "task_wf t"
    and nonterm: "\<not> terminal_phase (sptst_Phase (spt_Status t))"
    and loop: "run_state (run_recs E (task_recs E r) t) s = (ex, s1)"
  obtains t1 where "tasks (gs_world s1) = (tasks (gs_world s))(task_key t \<mapsto> t1)" and "same_task t t1" and "task_wf t1"
    and "\<not> terminal_phase (sptst_Phase (spt_Status t1))" and "task_step\<^sup>*\<^sup>* (abs_task t) (abs_task t1)"
    and "ta_retries (abs_task t1) = ta_retries (abs_task t)"
    and "\<And>t2 err. ex = LoopEnd t2 err \<Longrightarrow> t2 = t1 \<and> (err = None \<longleftrightarrow> done_count (sptst_Conditions (spt_Status t1)) = 3) \<and>
      (err \<noteq> None \<longrightarrow> done_count (sptst_Conditions (spt_Status t1)) < 3 \<and>
        length (sptst_Conditions (spt_Status t1)) = Suc (done_count (sptst_Conditions (spt_Status t1))))"
proof -
  have fol: "follows step_names (sptst_Conditions (spt_Status t))" using wf by (simp add: task_wf_def)
  have frames: "\<forall>p\<in>set (task_recs E r). \<forall>t. keeps (unseen tasks) (snd p t)" using unseen_steps by auto
  have names: "map fst (task_recs E r) = drop 0 step_names" by (simp add: task_recs_def step_names_def)
  obtain t1 where t1: "tasks (gs_world s1) = (tasks (gs_world s))(task_key t \<mapsto> t1)" "moved t t1"
      "\<And>t2 err. ex = LoopEnd t2 err \<Longrightarrow> t2 = t1 \<and> (err = None \<longleftrightarrow> done_count (sptst_Conditions (spt_Status t1)) = 3) \<and>
       (err \<noteq> None \<longrightarrow> length (sptst_Conditions (spt_Status t1)) = Suc (done_count (sptst_Conditions (spt_Status t1))))"
    using run_recs_moves [OF frames names _ fol _ stored loop] by auto
  have same: "same_task t t1" using t1(2) by (simp add: moved_def)
  have le3: "done_count (sptst_Conditions (spt_Status t1)) \<le> 3"
    using t1(2) follows_done_le [of step_names] by (auto simp: moved_def)
  have wf1: "task_wf t1" and nonterm1: "\<not> terminal_phase (sptst_Phase (spt_Status t1))"
    using t1(2) wf nonterm same_task_sel(1) [OF same] by (auto simp: moved_def task_wf_def)
  let ?d = "done_count (sptst_Conditions (spt_Status t1)) - done_count (sptst_Conditions (spt_Status t))"
  have "abs_task t1 = (abs_task t)\<lparr>ta_done := ta_done (abs_task t) + ?d\<rparr>"
    using t1(2) same_task_sel(1) [OF same] by (simp add: abs_task_def moved_def)
  then have steps: "task_step\<^sup>*\<^sup>* (abs_task t) (abs_task t1)"
    using advance_steps [of "abs_task t" ?d] le3 nonterm t1(2) by (simp add: moved_def)
  show thesis
    by (rule that [OF t1(1) same wf1 nonterm1 steps]) (use t1(2,3) le3 in \<open>auto simp: moved_def le_less\<close>)
qed

text \<open>The choice of the phase after the loop.\<close>
lemma settle_outcome:
  assumes wf: "task_wf t1" and nonterm: "\<not> terminal_phase (sptst_Phase (spt_Status t1))"
    and loop: "err = None \<longleftrightarrow> done_count (sptst_Conditions (spt_Status t1)) = 3"
      "err \<noteq> None \<longrightarrow> done_count (sptst_Conditions (spt_Status t1)) < 3 \<and>
        length (sptst_Conditions (spt_Status t1)) = Suc (done_count (sptst_Conditions (spt_Status t1)))"
    and settle: "run_state (settle_phase E t1 err) s1 = (t3, s2)"
  shows "settled t1 t3 \<and> (sptst_Phase (spt_Status t3) = PhaseCompleted \<longleftrightarrow> err = None)"
proof (cases err)
  case None
  then show ?thesis using settle_completed [OF wf nonterm _ settle] loop(1) by blast
next
  case (Some e)
  then have d: "done_count (sptst_Conditions (spt_Status t1)) < 3"
      "length (sptst_Conditions (spt_Status t1)) = Suc (done_count (sptst_Conditions (spt_Status t1)))"
    using loop(2) by auto
  from settle_failed [OF wf nonterm this settle [unfolded Some]] d(1) Some show ?thesis
    by (auto simp: settled_def task_wf_def)
qed

text \<open>The part of \<^verbatim>\<open>Reconcile\<close> after the guards, on a stored task that is not terminal.\<close>
lemma attempt_moves:
  assumes stored: "tasks (gs_world s) (task_key t) = Some t" and wf: "task_wf t"
    and nonterm: "\<not> terminal_phase (sptst_Phase (spt_Status t))"
    and run: "run_state (attempt_task E r t0 t) s = (res, s')"
  shows "\<exists>u. tasks (gs_world s') = (tasks (gs_world s))(task_key t \<mapsto> u) \<and> same_task t u \<and> task_wf u \<and>
    task_step\<^sup>*\<^sup>* (abs_task t) (abs_task u) \<and>
    (\<forall>q. res = Done (q, None) \<longrightarrow>
      (\<exists>t2 err. fst (run_state (run_recs E (task_recs E r) t) s) = LoopEnd t2 err \<and>
        (sptst_Phase (spt_Status u) = PhaseCompleted \<longleftrightarrow> err = None)) \<and>
      (if terminal_phase (sptst_Phase (spt_Status u)) then q = no_requeue
       else ta_retries (abs_task u) = ta_retries (abs_task t) + 1 \<and>
         q = \<lparr>RequeueAfter = sint (retry_delay (spt_Spec t))\<rparr>))"
proof -
  note run = run [unfolded attempt_task_def]
  obtain ex s1 where loop: "run_state (run_recs E (task_recs E r) t) s = (ex, s1)" by (metis prod.collapse)
  from all_recs_move [OF stored wf nonterm loop] obtain t1 where
    t1: "tasks (gs_world s1) = (tasks (gs_world s))(task_key t \<mapsto> t1)" "same_task t t1" "task_wf t1"
      "\<not> terminal_phase (sptst_Phase (spt_Status t1))" "task_step\<^sup>*\<^sup>* (abs_task t) (abs_task t1)"
      "ta_retries (abs_task t1) = ta_retries (abs_task t)"
      "\<And>t2 err. ex = LoopEnd t2 err \<Longrightarrow> t2 = t1 \<and> (err = None \<longleftrightarrow> done_count (sptst_Conditions (spt_Status t1)) = 3) \<and>
        (err \<noteq> None \<longrightarrow> done_count (sptst_Conditions (spt_Status t1)) < 3 \<and>
          length (sptst_Conditions (spt_Status t1)) = Suc (done_count (sptst_Conditions (spt_Status t1))))" by blast
  have key: "task_key t1 = task_key t" by (rule same_task_sel(2) [OF t1(2)])
  show ?thesis
  proof (cases ex)
    case (LoopEnd t2 err)
    then have ex: "ex = LoopEnd t1 err" using t1(7) by blast
    obtain t3 s2 where settle: "run_state (settle_phase E t1 err) s1 = (t3, s2)" by (metis prod.collapse)
    have st: "settled t1 t3" "sptst_Phase (spt_Status t3) = PhaseCompleted \<longleftrightarrow> err = None"
      using settle_outcome [OF t1(3,4) _ _ settle] t1(7) [OF ex] by blast+
    have s2: "tasks (gs_world s2) = tasks (gs_world s1)" by (rule tasks_unseen [OF unseen_ops.frame_settle settle])
    have fin: "run_state (finish_task E t0 t3) s2 = (res, s')" using run loop ex settle by simp
    have stored2: "tasks (gs_world s2) (task_key t1) = Some t1" using s2 t1(1) key by simp
    from finish_moves [OF stored2 st(1) t1(3) fin] obtain u q err' where
      u: "tasks (gs_world s') = (tasks (gs_world s2))(task_key t1 \<mapsto> u)" "same_task t1 u" "task_wf u"
        "abs_task u = abs_task t1 \<or> abs_task u = abs_task t3" "res = Done (q, err')"
        "err' = None \<Longrightarrow> abs_task u = abs_task t3 \<and> q = (if terminal_phase (ta_phase (abs_task t3)) then no_requeue
           else \<lparr>RequeueAfter = sint (retry_delay (spt_Spec t1))\<rparr>)" by blast
    have more: "task_step\<^sup>*\<^sup>* (abs_task t) (abs_task u)"
      using u(4) t1(5) st(1) by (auto simp: settled_def intro: rtranclp.rtrancl_into_rtrancl)
    have ph: "sptst_Phase (spt_Status u) = ta_phase (abs_task u)" by simp
    have "(sptst_Phase (spt_Status u) = PhaseCompleted \<longleftrightarrow> err = None) \<and>
        (if terminal_phase (sptst_Phase (spt_Status u)) then q = no_requeue
        else ta_retries (abs_task u) = ta_retries (abs_task t) + 1 \<and> q = \<lparr>RequeueAfter = sint (retry_delay (spt_Spec t))\<rparr>)"
      if "err' = None"
      unfolding ph using u(6) [OF that] st t1(6) same_task_sel(1) [OF t1(2)] by (auto simp: settled_def)
    then show ?thesis using u(1,2,3,5) s2 t1(1) key more same_task_trans [OF t1(2) u(2)] loop ex
      by (intro exI [of _ u]) auto
  qed (use run loop t1 in \<open>auto intro!: exI [of _ t1]\<close>)
qed

text \<open>A call up to its attempt: it ends at the guards, or it attempts the task it has read.\<close>
lemma reconcile_read:
  assumes run: "run_state (Task_Reconcile E r ns nm) s = (res, s')"
  obtains (not_read) w e where "tasks w = tasks (gs_world s)" and "fst (run_state (env_get_task E ns nm) w) = Inl e"
      and "res = Done (no_requeue, if IsNotFound e then None else Some e)" and "tasks (gs_world s') = tasks (gs_world s)"
  | (not_to_do) w t where "tasks w = tasks (gs_world s)" and "fst (run_state (env_get_task E ns nm) w) = Inr t"
      and "\<not> to_do r t" and "res = Done (no_requeue, None)" and "tasks (gs_world s') = tasks (gs_world s)"
  | (attempt) w t t0 s2 where "tasks w = tasks (gs_world s)" and "fst (run_state (env_get_task E ns nm) w) = Inr t"
      and "to_do r t" and "tasks (gs_world s2) = tasks (gs_world s)" and "gs_metrics s2 = gs_metrics s"
      and "run_state (attempt_task E r t0 (if sint (sptst_RetryCount (spt_Status t)) < 0
        then set_task_status (\<lambda>st. st\<lparr>sptst_RetryCount := 0\<rparr>) t else t)) s2 = (res, s')"
proof -
  have get: "tasks w = tasks (gs_world s1)" if "run_state (env_get_task E ns nm) (gs_world s1) = (got, w)" for s1 got w
    using get_task_quiet [of ns nm "gs_world s1"] that by simp
  show thesis using run
  proof (cases rule: unseen_ops.call_parts)
    case (not_read s1 e w)
    then show thesis using get [OF not_read(2)] by (intro that(1) [of "gs_world s1" e]) (simp_all add: unseen_def)
  next
    case (not_to_do s1 t w)
    then show thesis using get [OF not_to_do(2)] by (intro that(2) [of "gs_world s1" t]) (simp_all add: unseen_def)
  next
    case (attempt s1 t w t0)
    then show thesis using get [OF attempt(2)]
      by (intro that(3) [of "gs_world s1" t "s1\<lparr>gs_world := w\<rparr>" t0]) (simp_all add: unseen_def)
  qed
qed

end

context task_world
begin

lemma reconcile_missing:
  assumes none: "tasks (gs_world s) (ns, nm) = None" and run: "run_state (Task_Reconcile E r ns nm) s = (res, s')"
  shows "tasks (gs_world s') = tasks (gs_world s)"
  using run
proof (cases rule: reconcile_read)
  case (attempt w t t0 s2)
  then show ?thesis using get_task_ok [of ns nm w t] none by simp
qed simp_all

text \<open>A final update that succeeds has stored the status it was given.\<close>
lemma finish_stores:
  assumes "run_state (finish_task E t0 t) s = (Done (q, None), s')"
  shows "\<exists>u. tasks (gs_world s') (task_key t) = Some u \<and> spt_Status u = wire_task_status (spt_Status t)"
proof -
  obtain v w where upd: "run_state (env_update_task_status E t) (gs_world s) = (v, w)" and w: "unseen tasks (s\<lparr>gs_world := w\<rparr>) s'"
    and res: "Done (q, None) = Done (case v of Inl e \<Rightarrow> (no_requeue, Some e)
      | Inr v \<Rightarrow> (if terminal_phase (sptst_Phase (spt_Status v)) then no_requeue
                  else \<lparr>RequeueAfter = sint (retry_delay (spt_Spec v))\<rparr>, None))"
    by (rule unseen_ops.finish_parts [OF assms]) blast
  from res obtain u where "v = Inr u" by (cases v) auto
  from update_task_ok [OF upd [unfolded this]] w show ?thesis by (auto simp: status_written_def unseen_def)
qed

text \<open>A call on a stored task reads that task, or reports the error of the read.\<close>
lemma reconcile_stored:
  assumes stored: "tasks (gs_world s) (ns, nm) = Some t" and wf: "task_wf t"
    and run: "run_state (Task_Reconcile E r ns nm) s = (res, s')"
  obtains (idle) "tasks (gs_world s') = tasks (gs_world s)" and "\<And>q. res = Done (q, None) \<Longrightarrow> \<not> to_do r t \<and> q = no_requeue"
  | (attempt) t0 s2 where "to_do r t" and "tasks (gs_world s2) = tasks (gs_world s)" and "gs_metrics s2 = gs_metrics s"
      and "run_state (attempt_task E r t0 t) s2 = (res, s')"
  using run
proof (cases rule: reconcile_read)
  case (not_read w e)
  then show thesis using get_task_not_found [of ns nm w e] stored by (intro idle) (auto split: if_splits)
next
  case (not_to_do w u)
  then have "u = t" using get_task_ok [of ns nm w u] stored by simp
  then show thesis using not_to_do by (intro idle) auto
next
  case (attempt w u t0 s2)
  then have u: "u = t" using get_task_ok [of ns nm w u] stored by simp
  have "0 \<le> sint (sptst_RetryCount (spt_Status t))" using wf by (simp add: task_wf_def)
  then show thesis using attempt u by (intro that(2)) simp_all
qed

text \<open>A call without error on a task that is to do gets to the attempt.\<close>
lemma reconcile_attempt:
  assumes stored: "tasks (gs_world s) (ns, nm) = Some t" and wf: "task_wf t" and todo: "to_do r t"
    and run: "run_state (Task_Reconcile E r ns nm) s = (Done (q, None), s')"
  obtains t0 s2 where "tasks (gs_world s2) = tasks (gs_world s)" and "gs_metrics s2 = gs_metrics s"
    and "task_key t = (ns, nm)" and "run_state (attempt_task E r t0 t) s2 = (Done (q, None), s')"
  using stored wf run
proof (cases rule: reconcile_stored)
  case idle
  then show thesis using todo by blast
next
  case (attempt t0 s2)
  then show thesis by (intro that task_keyed [OF stored])
qed

lemma reconcile_moves:
  assumes stored: "tasks (gs_world s) (ns, nm) = Some t" and wf: "task_wf t"
    and run: "run_state (Task_Reconcile E r ns nm) s = (res, s')"
  shows "\<exists>u. tasks (gs_world s') = (tasks (gs_world s))((ns, nm) \<mapsto> u) \<and> same_task t u \<and> task_wf u \<and>
    task_step\<^sup>*\<^sup>* (abs_task t) (abs_task u) \<and> (\<not> to_do r t \<longrightarrow> u = t) \<and>
    (\<forall>q. res = Done (q, None) \<longrightarrow>
      (to_do r t \<longrightarrow> (\<exists>s2 t2 err. fst (run_state (run_recs E (task_recs E r) t) s2) = LoopEnd t2 err \<and>
        (sptst_Phase (spt_Status u) = PhaseCompleted \<longleftrightarrow> err = None))) \<and>
      (if to_do r t \<and> \<not> terminal_phase (sptst_Phase (spt_Status u))
       then ta_retries (abs_task u) = ta_retries (abs_task t) + 1 \<and> q = \<lparr>RequeueAfter = sint (retry_delay (spt_Spec t))\<rparr>
       else q = no_requeue))"
  using stored wf run
proof (cases rule: reconcile_stored)
  case idle
  then show ?thesis using stored wf by (intro exI [of _ t]) (auto simp: fun_upd_idem)
next
  case (attempt t0 s2)
  have key: "task_key t = (ns, nm)" by (rule task_keyed [OF stored])
  obtain u where
    u: "tasks (gs_world s') = (tasks (gs_world s2))(task_key t \<mapsto> u)" "same_task t u" "task_wf u"
      "task_step\<^sup>*\<^sup>* (abs_task t) (abs_task u)"
      "\<And>q. res = Done (q, None) \<Longrightarrow>
        (\<exists>t2 err. fst (run_state (run_recs E (task_recs E r) t) s2) = LoopEnd t2 err \<and>
          (sptst_Phase (spt_Status u) = PhaseCompleted \<longleftrightarrow> err = None)) \<and>
        (if terminal_phase (sptst_Phase (spt_Status u)) then q = no_requeue
         else ta_retries (abs_task u) = ta_retries (abs_task t) + 1 \<and>
           q = \<lparr>RequeueAfter = sint (retry_delay (spt_Spec t))\<rparr>)"
    using attempt_moves [OF _ wf _ attempt(4)] attempt(1,2) stored key by (auto simp: to_do_def)
  show ?thesis
    using u(1-4) attempt(1,2) key u(5) by (intro exI [of _ u] conjI allI impI) (auto | metis)+
qed

text \<open>A call that reports no error, on a task that is to do.\<close>
lemma reconcile_done:
  assumes "tasks (gs_world s) (ns, nm) = Some t" and "task_wf t" and "to_do r t"
    and "run_state (Task_Reconcile E r ns nm) s = (Done (q, None), s')"
  obtains u where "tasks (gs_world s') = (tasks (gs_world s))((ns, nm) \<mapsto> u)" and "same_task t u" and "task_wf u"
    and "terminal_phase (sptst_Phase (spt_Status u)) \<and> q = no_requeue \<or>
      \<not> terminal_phase (sptst_Phase (spt_Status u)) \<and>
      sint (sptst_RetryCount (spt_Status u)) = sint (sptst_RetryCount (spt_Status t)) + 1 \<and>
      q = \<lparr>RequeueAfter = sint (retry_delay (spt_Spec t))\<rparr>"
    and "\<exists>s2 t2 err. fst (run_state (run_recs E (task_recs E r) t) s2) = LoopEnd t2 err \<and>
      (sptst_Phase (spt_Status u) = PhaseCompleted \<longleftrightarrow> err = None)"
  using reconcile_moves [OF assms(1,2,4)] assms(3) by (auto split: if_splits)

end

section \<open>Repeated calls\<close>

text \<open>What the work queue does with a task while no call reports an error: call \<^verbatim>\<open>Reconcile\<close> again.\<close>
fun reconcile_times :: "'w env \<Rightarrow> 'w SnapshotPodTaskReconciler \<Rightarrow> string \<Rightarrow> string \<Rightarrow> nat \<Rightarrow> ('w, bool) go" where
  "reconcile_times E r ns nm 0 = State_Monad.return True"
| "reconcile_times E r ns nm (Suc n) = do {
     res \<leftarrow> Task_Reconcile E r ns nm;
     (case res of
        Done (q, None) \<Rightarrow> reconcile_times E r ns nm n
      | _ \<Rightarrow> State_Monad.return False)
   }"

lemma reconcile_times_Suc:
  assumes "run_state (reconcile_times E r ns nm (Suc n)) s = (True, s')"
  obtains q s1 where "run_state (Task_Reconcile E r ns nm) s = (Done (q, None), s1)"
    and "run_state (reconcile_times E r ns nm n) s1 = (True, s')"
  using assms by (auto split: prod.splits outcome.splits option.splits)

context task_world
begin

lemma times_terminal:
  assumes "tasks (gs_world s) (ns, nm) = Some t" and "task_wf t" and "terminal_phase (sptst_Phase (spt_Status t))"
    and "run_state (reconcile_times E r ns nm n) s = (True, s')"
  shows "tasks (gs_world s') (ns, nm) = Some t"
  using assms
proof (induction n arbitrary: s)
  case (Suc n)
  obtain q s1 where "run_state (Task_Reconcile E r ns nm) s = (Done (q, None), s1)"
    and rest: "run_state (reconcile_times E r ns nm n) s1 = (True, s')"
    by (rule reconcile_times_Suc [OF Suc.prems(4)])
  from reconcile_moves [OF Suc.prems(1,2) this(1)] Suc.prems(3)
  have "tasks (gs_world s1) (ns, nm) = Some t" by (auto simp: to_do_def)
  from Suc.IH [OF this Suc.prems(2,3) rest] show ?case .
qed simp

lemma times_bounded:
  assumes "tasks (gs_world s) (ns, nm) = Some t" and "task_wf t" and "spts_NodeName (spt_Spec t) = tr_NodeName r"
    and "sint (effective_max_retries (spt_Spec t)) - sint (sptst_RetryCount (spt_Status t)) \<le> int n" and "0 < n"
    and "run_state (reconcile_times E r ns nm n) s = (True, s')"
  shows "\<exists>u. tasks (gs_world s') (ns, nm) = Some u \<and> terminal_phase (sptst_Phase (spt_Status u))"
  using assms
proof (induction n arbitrary: s t)
  case (Suc n)
  show ?case
  proof (cases "terminal_phase (sptst_Phase (spt_Status t))")
    case True
    from times_terminal [OF Suc.prems(1,2) this Suc.prems(6)] True show ?thesis by blast
  next
    case False
    obtain q s1 where once: "run_state (Task_Reconcile E r ns nm) s = (Done (q, None), s1)"
      and rest: "run_state (reconcile_times E r ns nm n) s1 = (True, s')"
      by (rule reconcile_times_Suc [OF Suc.prems(6)])
    have "to_do r t" using False Suc.prems(3) by (simp add: to_do_def)
    from reconcile_done [OF Suc.prems(1,2) this once] obtain u where
      u: "tasks (gs_world s1) (ns, nm) = Some u" "task_wf u" "same_task t u"
        "terminal_phase (sptst_Phase (spt_Status u)) \<or> \<not> terminal_phase (sptst_Phase (spt_Status u)) \<and>
         sint (sptst_RetryCount (spt_Status u)) = sint (sptst_RetryCount (spt_Status t)) + 1"
      by (metis fun_upd_same)
    show ?thesis
    proof (cases "terminal_phase (sptst_Phase (spt_Status u))")
      case True
      from times_terminal [OF u(1,2) this rest] True show ?thesis by blast
    next
      case False
      note spec = same_task_sel(1) [OF u(3)]
      have c: "sint (sptst_RetryCount (spt_Status u)) = sint (sptst_RetryCount (spt_Status t)) + 1" using u(4) False by blast
      have "0 \<le> sint (sptst_RetryCount (spt_Status t))" using Suc.prems(2) by (simp add: task_wf_def)
      then have "sptst_RetryCount (spt_Status u) \<noteq> 0" using c by auto
      then have "sint (sptst_RetryCount (spt_Status u)) < sint (effective_max_retries (spt_Spec u))"
        using u(2) False by (simp add: task_wf_def)
      then have "0 < n" and "sint (effective_max_retries (spt_Spec u)) - sint (sptst_RetryCount (spt_Status u)) \<le> int n"
        using Suc.prems(4) c spec by auto
      from Suc.IH [OF u(1,2) _ this(2,1) rest] show ?thesis using spec Suc.prems(3) by simp
    qed
  qed
qed simp

end

text \<open>If no step of the loop can fail, the loop never ends with an error.\<close>
lemma run_recs_all_ok:
  assumes "\<forall>p\<in>set recs. \<forall>t s. fst (run_state (snd p t) s) = Done None"
  shows "fst (run_state (run_recs E recs t) s) \<noteq> LoopEnd t2 (Some e)"
  using assms
proof (induction recs arbitrary: t s)
  case (Cons rec recs)
  obtain n f where rec: "rec = (n, f)" by (cases rec)
  have f: "run_state (f t) s = (Done None, snd (run_state (f t) s))" for t s
    using Cons.prems rec by (metis list.set_intros(1) prod.collapse snd_conv)
  have IH: "fst (run_state (run_recs E recs t) s) \<noteq> LoopEnd t2 (Some e)" for t s
    using Cons by simp
  obtain conds i s1 where ens: "run_state (ensure_condition E n (sptst_Conditions (spt_Status t))) s = ((conds, i), s1)"
    by (metis prod.collapse)
  show ?case using IH f [of "set_task_conditions conds t" s1]
    by (auto simp: rec ens Let_def split: prod.splits sum.splits)
qed simp

end
