(* ===== verification/TaskIsolation.thy ===== *)
theory TaskIsolation
  imports TaskProperties
begin

text \<open>
  What a call of \<open>Task_Reconcile\<close> does not depend on. Replacing one operation of the runtimes by an
  arbitrary one and getting the same run means that the operation is not called: a held commit is not
  repeated, nothing is pushed before the commit holds, and finished or foreign tasks start nothing.
\<close>

section \<open>Reconcilers with operations replaced\<close>

definition on_runtimes :: "('w Runtime \<Rightarrow> 'w Runtime) \<Rightarrow> 'w SnapshotPodTaskReconciler \<Rightarrow> 'w SnapshotPodTaskReconciler" where
  "on_runtimes h r = r\<lparr>tr_runtimeMap := map (\<lambda>(n, rt). (n, h rt)) (tr_runtimeMap r)\<rparr>"

lemma on_runtimes_node [simp]: "tr_NodeName (on_runtimes h r) = tr_NodeName r"
  by (simp add: on_runtimes_def)

lemma getRuntime_on_runtimes:
  "getRuntimeAndContainerID (on_runtimes h r) c =
    (case getRuntimeAndContainerID r c of
       Panicked m \<Rightarrow> Panicked m
     | Done (Inl e) \<Rightarrow> Done (Inl e)
     | Done (Inr (n, rt, cid)) \<Rightarrow> Done (Inr (n, h rt, cid)))"
proof -
  have keys: "map (fst \<circ> (\<lambda>(n, rt). (n, h rt))) xs = map fst xs" for xs :: "(string \<times> 'a Runtime) list"
    by (induction xs) auto
  have look: "map_of (map (\<lambda>(n, rt). (n, h rt)) xs) k = map_option h (map_of xs k)" for xs :: "(string \<times> 'a Runtime) list" and k
    by (induction xs) auto
  show ?thesis
    by (simp add: getRuntimeAndContainerID_def on_runtimes_def keys look Let_def split: option.splits list.splits)
qed

text \<open>The push step reads every operation of a runtime but \<open>rt_Commit\<close>, the commit step only that one.\<close>
lemma push_ignores_commit:
  "reconcilePushImage E (on_runtimes (\<lambda>rt. rt\<lparr>rt_Commit := g\<rparr>) r) t = reconcilePushImage E r t"
  unfolding reconcilePushImage_def getRuntime_on_runtimes
  by (intro arg_cong [where f = "State_Monad.bind (time_now E)"] ext)
    (auto simp: pull_origin_def cong: sum.case_cong if_cong split: outcome.split sum.split)

lemma commit_ignores_push:
  "reconcileCommit E (on_runtimes (\<lambda>rt. rt\<lparr>rt_ImageExists := a, rt_Pull := b, rt_Push := c\<rparr>) r) t = reconcileCommit E r t"
  unfolding reconcileCommit_def getRuntime_on_runtimes
  by (auto simp: Let_def split: outcome.split sum.split)

section \<open>The loop\<close>

text \<open>A step whose condition holds is skipped without an effect.\<close>
lemma skip_step:
  assumes "follows step_names (sptst_Conditions (spt_Status t))" and "j < done_count (sptst_Conditions (spt_Status t))"
    and "n = step_names ! j"
  shows "run_recs E ((n, f) # recs) t = run_recs E recs t"
proof -
  let ?conds = "sptst_Conditions (spt_Status t)"
  have j: "j < length ?conds" "j < length step_names"
    using assms(1,2) done_count_le [of ?conds] by (auto simp: follows_def)
  have "find_index_of (\<lambda>c. cond_Type c = n) ?conds = Some j"
    using follows_find [OF assms(1) step_names_simps(2) j(2)] j(1) assms(3) by simp
  moreover have "cond_Status (?conds ! j) = ConditionTrue"
    using done_count_nth [of j ?conds] assms(2) j(1) by simp
  ultimately show ?thesis by (simp add: ensure_condition_def State_Monad.bind_def Let_def)
qed

text \<open>A step that never succeeds shields the steps behind it.\<close>
lemma shield_step:
  assumes "follows step_names (sptst_Conditions (spt_Status t))" and "done_count (sptst_Conditions (spt_Status t)) = j"
    and "n = step_names ! j" and "j < 3" and "\<And>t s. fst (run_state (f t) s) \<noteq> Done None"
  shows "run_state (run_recs E ((n, f) # recs) t) s = run_state (run_recs E ((n, f) # recs') t) s"
proof -
  let ?conds = "sptst_Conditions (spt_Status t)"
  obtain conds i s1 where ens: "run_state (ensure_condition E n ?conds) s = ((conds, i), s1)" by (metis prod.collapse)
  have open_cond: "cond_Status (conds ! i) \<noteq> ConditionTrue"
    using ensure_follows [OF assms(1) step_names_simps(2) _ _ ens [unfolded assms(3)]] assms(2,4) by auto
  obtain res s2 where step: "run_state (f (set_task_conditions conds t)) s1 = (res, s2)" by (metis prod.collapse)
  have "res \<noteq> Done None" using assms(5) [of "set_task_conditions conds t" s1] step by simp
  with ens open_cond step show ?thesis
    by (auto simp: Let_def split: outcome.splits option.splits)
qed

section \<open>Whole calls\<close>

text \<open>A loop on a task whose Commit condition holds comes to the push alone.\<close>
lemma attempt_no_commit:
  assumes fol: "follows step_names (sptst_Conditions (spt_Status t))" and two: "2 \<le> done_count (sptst_Conditions (spt_Status t))"
  shows "attempt_task E (on_runtimes (\<lambda>rt. rt\<lparr>rt_Commit := g\<rparr>) r) t0 t = attempt_task E r t0 t"
proof -
  have "run_recs E (task_recs E r') t = run_recs E [(''Push'', reconcilePushImage E r')] t" for r'
    unfolding task_recs_def using two
    by (simp add: skip_step [OF fol, of 0] skip_step [OF fol, of 1] step_names_def del: run_recs.simps)
  moreover have "reconcilePushImage E (on_runtimes (\<lambda>rt. rt\<lparr>rt_Commit := g\<rparr>) r) = reconcilePushImage E r"
    by (rule ext) (rule push_ignores_commit)
  ultimately show ?thesis unfolding attempt_task_def by (simp only:)
qed

text \<open>What counts is the task the call reads, whatever is stored.\<close>
lemma reconcile_no_commit:
  assumes "fst (run_state (env_get_task E ns nm) (gs_world (snd (run_state (time_now E) s)))) = Inr t"
    and "follows step_names (sptst_Conditions (spt_Status t))" and "2 \<le> done_count (sptst_Conditions (spt_Status t))"
  shows "run_state (Task_Reconcile E (on_runtimes (\<lambda>rt. rt\<lparr>rt_Commit := g\<rparr>) r) ns nm) s = run_state (Task_Reconcile E r ns nm) s"
proof -
  obtain t0 s1 where now: "run_state (time_now E) s = (t0, s1)" by (metis prod.collapse)
  obtain w2 where get: "run_state (env_get_task E ns nm) (gs_world s1) = (Inr t, w2)" using assms(1) now by (metis prod.collapse snd_conv)
  let ?t1 = "if sint (sptst_RetryCount (spt_Status t)) < 0 then set_task_status (\<lambda>st. st\<lparr>sptst_RetryCount := 0\<rparr>) t else t"
  have "sptst_Conditions (spt_Status ?t1) = sptst_Conditions (spt_Status t)" by (simp add: set_task_status_def)
  then have "attempt_task E (on_runtimes (\<lambda>rt. rt\<lparr>rt_Commit := g\<rparr>) r) t0 ?t1 = attempt_task E r t0 ?t1"
    using assms(2,3) by (intro attempt_no_commit) (simp_all only:)
  then show ?thesis using now get by (simp add: Task_Reconcile_def del: run_time_now)
qed

context task_world
begin

text \<open>Two reconcilers of one node whose loops agree on the stored task behave alike.\<close>
lemma reconcile_same_loop:
  assumes stored: "tasks (gs_world s) (ns, nm) = Some t" and wf: "task_wf t" and node: "tr_NodeName r' = tr_NodeName r"
    and loop: "\<And>s1. tasks (gs_world s1) = tasks (gs_world s) \<Longrightarrow> to_do r t \<Longrightarrow>
      run_state (run_recs E (task_recs E r') t) s1 = run_state (run_recs E (task_recs E r) t) s1"
  shows "run_state (Task_Reconcile E r' ns nm) s = run_state (Task_Reconcile E r ns nm) s"
proof -
  obtain t0 s1 where now: "run_state (time_now E) s = (t0, s1)" by (metis prod.collapse)
  have s1: "tasks (gs_world s1) = tasks (gs_world s)" by (rule tasks_unseen [OF unseen_now now])
  obtain got w2 where get: "run_state (env_get_task E ns nm) (gs_world s1) = (got, w2)" by (metis prod.collapse)
  have w2: "tasks w2 = tasks (gs_world s)" using get_task_quiet [of ns nm "gs_world s1"] get s1 by simp
  show ?thesis
  proof (cases got)
    case (Inl e)
    then show ?thesis using now get by (simp add: Task_Reconcile_def del: run_time_now)
  next
    case (Inr t2)
    then have t2: "t2 = t" using get_task_ok [of ns nm "gs_world s1" t2] get stored s1 by auto
    have "0 \<le> sint (sptst_RetryCount (spt_Status t))" using wf by (simp add: task_wf_def)
    then show ?thesis using now get Inr t2 node loop [of "s1\<lparr>gs_world := w2\<rparr>"] w2
      by (auto simp: Task_Reconcile_def attempt_task_def to_do_def simp del: run_time_now)
  qed
qed

lemma reconcile_foreign:
  assumes "tasks (gs_world s) (ns, nm) = Some t" and "task_wf t" and "\<not> to_do r t" and "tr_NodeName r' = tr_NodeName r"
  shows "run_state (Task_Reconcile E r' ns nm) s = run_state (Task_Reconcile E r ns nm) s"
  by (rule reconcile_same_loop [OF assms(1,2,4)]) (use assms(3) in blast)

text \<open>The Accept step in front of a commit that never succeeds.\<close>
lemma accept_then_shield:
  assumes stored: "tasks (gs_world s) (task_key t) = Some t" and fol: "follows step_names (sptst_Conditions (spt_Status t))"
    and d: "done_count (sptst_Conditions (spt_Status t)) \<le> 1"
    and shield: "\<And>t s. fst (run_state (f t) s) \<noteq> Done None"
  shows "run_state (run_recs E ((''Accept'', reconcileAccept) # (''Commit'', f) # recs) t) s =
    run_state (run_recs E ((''Accept'', reconcileAccept) # (''Commit'', f) # recs') t) s"
proof (cases "done_count (sptst_Conditions (spt_Status t)) = 1")
  case True
  have n: "''Accept'' = step_names ! 0" "''Commit'' = step_names ! 1" by (simp_all add: step_names_def)
  have skip: "run_recs E ((''Accept'', reconcileAccept) # xs) t = run_recs E xs t" for xs
    by (rule skip_step [OF fol _ n(1)]) (simp add: True)
  show ?thesis
    unfolding skip by (rule shield_step [OF fol True n(2) _ shield]) simp
next
  case False
  then have d0: "done_count (sptst_Conditions (spt_Status t)) = 0" using d by simp
  have n: "''Accept'' = step_names ! 0" "''Commit'' = step_names ! 1" by (simp_all add: step_names_def)
  obtain conds i s1 where ens: "run_state (ensure_condition E ''Accept'' (sptst_Conditions (spt_Status t))) s = ((conds, i), s1)"
    by (metis prod.collapse)
  note e = ensure_follows [OF fol step_names_simps(2) _ _ ens [unfolded n(1)], unfolded d0]
  have i: "i = 0" and oc: "cond_Status (conds ! 0) \<noteq> ConditionTrue" and rdy: "ready_for step_names 0 conds" and s1: "tasks (gs_world s1) = tasks (gs_world s)"
    using e tasks_now d0 by auto
  obtain c s2 where suc: "run_state (succeed_condition E (conds ! 0)) s1 = (c, s2)" by (metis prod.collapse)
  note c = succeed_condition_sel [OF suc]
  have s2: "tasks (gs_world s2) = tasks (gs_world s)" using c tasks_ticked s1 by metis
  obtain u w3 where upd: "run_state (env_update_task_status E (set_task_conditions (conds[0 := c]) t)) (gs_world s2) = (u, w3)"
    by (metis prod.collapse)
  obtain t' where t': "tasks w3 = (tasks (gs_world s2))(task_key t \<mapsto> t')" "moved t t'"
      "\<And>t2. u = Inr t2 \<Longrightarrow> t2 = t' \<and> done_count (sptst_Conditions (spt_Status t')) = 1"
    by (rule loop_update [OF _ rdy d0 fol _ upd]) (use c s2 stored in auto)
  have fol': "follows step_names (sptst_Conditions (spt_Status t'))" using t'(2) by (simp add: moved_def)
  show ?thesis
  proof (cases u)
    case (Inl e)
    then show ?thesis using ens i oc suc upd by (simp add: Let_def reconcileAccept_def)
  next
    case (Inr t2)
    then have t2: "t2 = t'" and "done_count (sptst_Conditions (spt_Status t')) = 1" using t'(3) by auto
    from shield_step [OF fol' this(2) n(2) _ shield]
    have "run_state (run_recs E ((''Commit'', f) # recs) t') s = run_state (run_recs E ((''Commit'', f) # recs') t') s" for s
      by simp
    then show ?thesis using ens i oc suc upd Inr t2
      by (simp add: Let_def reconcileAccept_def run_recs.simps(2) [of _ "''Accept''"] del: run_recs.simps)
  qed
qed

lemma reconcile_no_push:
  assumes "tasks (gs_world s) (ns, nm) = Some t" and wf: "task_wf t" and d: "done_count (sptst_Conditions (spt_Status t)) \<le> 1"
    and shield: "\<And>t s. fst (run_state (reconcileCommit E r t) s) \<noteq> Done None"
  shows "run_state (Task_Reconcile E (on_runtimes (\<lambda>rt. rt\<lparr>rt_ImageExists := a, rt_Pull := b, rt_Push := c\<rparr>) r) ns nm) s =
    run_state (Task_Reconcile E r ns nm) s"
proof (rule reconcile_same_loop [OF assms(1) wf on_runtimes_node])
  fix s1 :: "'w gstate" assume "tasks (gs_world s1) = tasks (gs_world s)"
  moreover have "task_key t = (ns, nm)" by (rule task_keyed [OF assms(1)])
  ultimately have stored: "tasks (gs_world s1) (task_key t) = Some t" using assms(1) by simp
  have fol: "follows step_names (sptst_Conditions (spt_Status t))" using wf by (simp add: task_wf_def)
  have "reconcileCommit E (on_runtimes (\<lambda>rt. rt\<lparr>rt_ImageExists := a, rt_Pull := b, rt_Push := c\<rparr>) r) = reconcileCommit E r"
    by (rule ext) (rule commit_ignores_push)
  then show "run_state (run_recs E (task_recs E (on_runtimes (\<lambda>rt. rt\<lparr>rt_ImageExists := a, rt_Pull := b, rt_Push := c\<rparr>) r)) t) s1 =
      run_state (run_recs E (task_recs E r) t) s1"
    unfolding task_recs_def by (simp only:) (rule accept_then_shield [OF stored fol d shield])
qed

end

end
