(* ===== verification/TaskErrors.thy ===== *)
theory TaskErrors
  imports TaskProperties
begin

text \<open>
  What a failed step leaves behind: the error that breaks off the loop is an error some step
  returned for this task, and the stored object carries it in the condition of that step.
\<close>

text \<open>The conditions of a task blame step \<open>n\<close> for the error \<open>e\<close>.\<close>
definition blames :: "condition list \<Rightarrow> string \<Rightarrow> go_error \<Rightarrow> bool" where
  "blames conds n e \<longleftrightarrow>
     (\<exists>c\<in>set conds. cond_Type c = n \<and> cond_Status c = ConditionFalse \<and> cond_Message c = error_text e)"

lemma blames_wire [simp]: "blames (map wire_condition conds) n e = blames conds n e"
  by (simp add: blames_def)

lemma blames_set: "i < length conds \<Longrightarrow> cond_Type (conds ! i) = n \<Longrightarrow>
  blames (conds[i := (conds ! i)\<lparr>cond_Status := ConditionFalse, cond_Message := error_text e\<rparr>]) n e"
  unfolding blames_def by (intro bexI [OF _ set_update_memI]) auto

context task_world
begin

lemma run_recs_error:
  assumes "\<forall>p\<in>set recs. \<forall>t. keeps (unseen tasks) (snd p t)"
    and "tasks (gs_world s) (task_key t) = Some t"
    and "run_state (run_recs E recs t) s = (LoopEnd t2 (Some e), s')"
  shows "\<exists>n f t0 s0. (n, f) \<in> set recs \<and> spt_Spec t0 = spt_Spec t \<and> fst (run_state (f t0) s0) = Done (Some e) \<and>
    blames (sptst_Conditions (spt_Status t2)) n e"
  using assms
proof (induction recs arbitrary: t s)
  case (Cons rec recs)
  obtain n f where rec: "rec = (n, f)" by (cases rec)
  have frame: "\<forall>p\<in>set recs. \<forall>t. keeps (unseen tasks) (snd p t)" and f: "\<And>t. keeps (unseen tasks) (f t)"
    using Cons.prems(1) rec by auto
  from run_recs_iteration [OF Cons.prems(3) [unfolded rec]] show ?case
  proof cases
    case (held conds i s1)
    note ec = ensure_condition_sel [OF held(1)]
    have "run_state (run_recs E recs t) s1 = (LoopEnd t2 (Some e), s')" using held(2,3) ec by simp
    moreover have "tasks (gs_world s1) = tasks (gs_world s)" using ec tasks_ticked by blast
    ultimately show ?thesis using Cons.IH [OF frame, of s1 t] Cons.prems(2) by (auto simp: rec)
  next
    case (failed conds i s1 err s2 u w)
    note ec = ensure_condition_sel [OF failed(3)]
    have u: "u = Inr t2" and e: "err = e" using failed(1) by (auto split: sum.splits)
    have "blames (sptst_Conditions (spt_Status t2)) n e"
      using update_task_ok [OF failed(6) [unfolded u]] blames_set ec e by (auto simp: status_written_def)
    then show ?thesis using failed(5) e rec
      by (intro exI [of _ n] exI [of _ f] exI [of _ "set_task_conditions conds t"] exI [of _ s1]) auto
  next
    case (passed conds i s1 s2 c s3 v w)
    have "tasks (gs_world s3) = tasks (gs_world s)"
      using ensure_condition_sel [OF passed(1)] tasks_unseen [OF f passed(3)] succeed_condition_sel [OF passed(4)]
        tasks_ticked by metis
    with update_task_ok [OF passed(5)] Cons.prems(2)
    have v: "spt_Spec v = spt_Spec t" "tasks w (task_key v) = Some v" by (auto simp: status_written_def)
    from Cons.IH [OF frame _ passed(6)] v show ?thesis by (auto simp: rec)
  qed
qed simp

lemma settle_conditions:
  "run_state (settle_phase E t e) s = (t', s') \<Longrightarrow>
    sptst_Conditions (spt_Status t') = sptst_Conditions (spt_Status t) \<and> task_key t' = task_key t"
  by (auto simp: settle_phase_def Let_def record_defs set_task_status_def split: if_splits prod.splits)

lemma reconcile_explains:
  assumes stored: "tasks (gs_world s) (ns, nm) = Some t" and wf: "task_wf t" and todo: "to_do r t"
    and run: "run_state (Task_Reconcile E r ns nm) s = (Done (q, None), s')"
  shows "\<exists>u. tasks (gs_world s') (ns, nm) = Some u \<and>
    (sptst_Phase (spt_Status u) = PhaseCompleted \<or>
     (\<exists>n f t0 s0 e. (n, f) \<in> set (task_recs E r) \<and> spt_Spec t0 = spt_Spec t \<and>
       fst (run_state (f t0) s0) = Done (Some e) \<and> blames (sptst_Conditions (spt_Status u)) n e))"
proof (rule reconcile_attempt [OF assms])
  fix t0 s2
  assume s2: "tasks (gs_world s2) = tasks (gs_world s)" and key: "task_key t = (ns, nm)"
    and att: "run_state (attempt_task E r t0 t) s2 = (Done (q, None), s')"
  obtain ex s3 where loop: "run_state (run_recs E (task_recs E r) t) s2 = (ex, s3)" by (metis prod.collapse)
  then obtain t1 err where ex: "ex = LoopEnd t1 err" using att by (cases ex) (auto simp: attempt_task_def)
  obtain t3 s4 where settle: "run_state (settle_phase E t1 err) s3 = (t3, s4)" by (metis prod.collapse)
  have fin: "run_state (finish_task E t0 t3) s4 = (Done (q, None), s')"
    using att loop ex settle by (simp add: attempt_task_def)
  have st: "tasks (gs_world s2) (task_key t) = Some t" using s2 stored key by simp
  have nonterm: "\<not> terminal_phase (sptst_Phase (spt_Status t))" using todo by (simp add: to_do_def)
  have frame: "\<forall>p\<in>set (task_recs E r). \<forall>t. keeps (unseen tasks) (snd p t)" using unseen_steps by auto
  have fol: "follows step_names (sptst_Conditions (spt_Status t))" using wf by (simp add: task_wf_def)
  from run_recs_moves [OF frame _ _ fol _ st loop, of 0] have k1: "task_key t1 = (ns, nm)"
    using same_task_key key by (auto simp: task_recs_def step_names_def ex moved_def)
  obtain u where u: "tasks (gs_world s') (ns, nm) = Some u" "spt_Status u = wire_task_status (spt_Status t3)"
    using finish_stores [OF fin] settle_conditions [OF settle] k1 by auto
  show ?thesis
  proof (cases err)
    case None
    from attempt_moves [OF st wf nonterm att] u(1) key loop ex None
    have "sptst_Phase (spt_Status u) = PhaseCompleted" by auto
    with u show ?thesis by blast
  next
    case (Some e)
    from run_recs_error [OF frame st loop [unfolded ex Some]] u settle_conditions [OF settle]
    have "\<exists>n f t0 s0. (n, f) \<in> set (task_recs E r) \<and> spt_Spec t0 = spt_Spec t \<and>
      fst (run_state (f t0) s0) = Done (Some e) \<and> blames (sptst_Conditions (spt_Status u)) n e" by simp
    with u show ?thesis by blast
  qed
qed

end

end
