(* ===== verification/TaskMetrics.thy ===== *)
theory TaskMetrics
  imports TaskProperties
begin

text \<open>
  The metrics of the task controller: every operation of a call is well-labelled, and the failure
  counter \<^verbatim>\<open>snapshot_task_failed_total\<close> moves exactly when a task is given up.
\<close>

section \<open>Well-labelled operations\<close>

lemma quiet_metrics_ok: "keeps (quiet obs) m \<Longrightarrow> keeps metrics_ok m"
  by (auto simp: keeps_def quiet_def metrics_ok_def)

lemma metrics_ok_run_recs:
  assumes "\<forall>p\<in>set recs. \<forall>t. keeps metrics_ok (snd p t)"
  shows "keeps metrics_ok (run_recs E recs t)"
  using assms
proof (induction recs arbitrary: t)
  case (Cons rec recs)
  obtain n f where rec: "rec = (n, f)" by (cases rec)
  show ?case using Cons unfolding rec run_recs.simps succeed_condition_def Let_def
    by (intro metrics_ok_rules ensure_condition_metrics) auto
qed (simp add: metrics_frame.keeps_return)

lemma metrics_ok_stale: "keeps metrics_ok (some_stale E e cs)"
  by (induction cs) (auto intro!: metrics_ok_rules simp del: run_time_now)

lemma metrics_ok_settle: "keeps metrics_ok (settle_phase E t e)"
  unfolding settle_phase_def Let_def by (intro metrics_ok_rules metrics_ok_stale)

lemma metrics_ok_finish: "keeps metrics_ok (finish_task E t0 t)"
  unfolding finish_task_def Let_def by (intro metrics_ok_rules)

lemma metrics_ok_image_auth: "keeps metrics_ok (getImageAuthWithSecret E ns sec img)"
  unfolding getImageAuthWithSecret_def by (intro metrics_ok_rules)

section \<open>The failure counter\<close>

definition failures :: "'w gstate \<Rightarrow> string list \<Rightarrow> nat" where
  "failures s = counter_value (gs_metrics s) ''snapshot_task_failed_total''"

definition same_failures :: "'w gstate \<Rightarrow> 'w gstate \<Rightarrow> bool" where
  "same_failures s t \<longleftrightarrow> failures t = failures s"

interpretation failures_frame: frame_rel same_failures
  by unfold_locales (auto simp: same_failures_def)

lemma quiet_failures: "keeps (quiet obs) m \<Longrightarrow> keeps same_failures m"
  by (auto simp: keeps_def quiet_def same_failures_def failures_def)

lemma failures_in_world: "keeps same_failures (in_world m)" "keeps same_failures (time_now E)"
  by (auto simp: keeps_def same_failures_def failures_def)

lemma failures_emit:
  "(\<And>ls. CounterInc ''snapshot_task_failed_total'' ls \<notin> set ops) \<Longrightarrow> keeps same_failures (emit ops)"
  by (auto simp: keeps_def same_failures_def failures_def fun_eq_iff metric_log.counter_append_none)

lemma failures_record:
  "keeps same_failures (RecordSnapshotTask a b c d)"
  "keeps same_failures (RecordSnapshotTaskRetry a b c)"
  "keeps same_failures (RecordControllerReconcile a b d)"
  "keeps same_failures (RecordControllerError a b)"
  "keeps same_failures (RecordImagePush a b c e d)"
  by (auto simp: record_defs intro!: failures_emit)

lemmas failures_rules = failures_frame.keeps_rules failures_in_world failures_record

lemma failures_run_recs:
  assumes "\<forall>p\<in>set recs. \<forall>t. keeps same_failures (snd p t)"
  shows "keeps same_failures (run_recs E recs t)"
  using assms
proof (induction recs arbitrary: t)
  case (Cons rec recs)
  obtain n f where rec: "rec = (n, f)" by (cases rec)
  show ?case using Cons unfolding rec run_recs.simps succeed_condition_def Let_def ensure_condition_def
    by (intro failures_rules) auto
qed (simp add: failures_frame.keeps_return)

lemma failures_stale: "keeps same_failures (some_stale E e cs)"
  by (induction cs) (auto intro!: failures_rules simp del: run_time_now)

lemma failures_finish: "keeps same_failures (finish_task E t0 t)"
  unfolding finish_task_def Let_def by (intro failures_rules)

lemma failures_image_auth: "keeps same_failures (getImageAuthWithSecret E ns sec img)"
  unfolding getImageAuthWithSecret_def by (intro failures_rules)

text \<open>The labels of a task in the failure counter.\<close>
definition failure_labels :: "SnapshotPodTask \<Rightarrow> string list" where
  "failure_labels t = [om_Namespace (spt_meta t), getSnapshotName t, om_Name (spt_meta t)]"

lemma failure_labels_same: "same_task t u \<Longrightarrow> failure_labels u = failure_labels t"
  by (auto simp: failure_labels_def same_task_def getSnapshotName_def)

lemma settle_failures:
  assumes "\<not> terminal_phase (sptst_Phase (spt_Status t))" and "run_state (settle_phase E t err) s = (t', s')"
  shows "failures s' = (failures s)(failure_labels t :=
    failures s (failure_labels t) + (if sptst_Phase (spt_Status t') = PhaseFailed then 1 else 0))"
proof -
  obtain stale s1 where st: "run_state (some_stale E err (sptst_Conditions (spt_Status t))) s = (stale, s1)"
    by (metis prod.collapse)
  have "failures s1 = failures s" using keepsD [OF failures_stale st] by (simp add: same_failures_def)
  then show ?thesis
    using assms st
    by (auto simp: settle_phase_def Let_def record_defs failures_def fun_eq_iff counter_value_def failure_labels_def
      terminal_phase_def split: if_splits)
qed

context task_world
begin

lemmas contract_of_known = known_runtime [THEN runtime_contract.quiet_Commit] known_runtime [THEN runtime_contract.quiet_ImageExists]
  known_runtime [THEN runtime_contract.quiet_Pull] known_runtime [THEN runtime_contract.quiet_Push]

lemma push_metrics: "keeps metrics_ok (reconcilePushImage E r t)"
  unfolding reconcilePushImage_def pull_origin_def push_exit_def
  by (intro metrics_ok_rules metrics_ok_image_auth quiet_metrics_ok [where obs = tasks]) (auto intro: contract_of_known)

lemma commit_metrics: "keeps metrics_ok (reconcileCommit E r t)"
  unfolding reconcileCommit_def Let_def
  by (intro metrics_ok_rules quiet_metrics_ok [where obs = tasks]) (auto intro: contract_of_known)

lemma push_failures: "keeps same_failures (reconcilePushImage E r t)"
  unfolding reconcilePushImage_def pull_origin_def push_exit_def
  by (intro failures_rules failures_image_auth quiet_failures [where obs = tasks]) (auto intro: contract_of_known)

lemma commit_failures: "keeps same_failures (reconcileCommit E r t)"
  unfolding reconcileCommit_def Let_def
  by (intro failures_rules quiet_failures [where obs = tasks]) (auto intro: contract_of_known)

lemma steps_metrics:
  "\<forall>p\<in>set (task_recs E r). \<forall>t. keeps metrics_ok (snd p t)"
  "\<forall>p\<in>set (task_recs E r). \<forall>t. keeps same_failures (snd p t)"
  using push_metrics commit_metrics push_failures commit_failures
  by (auto simp: task_recs_def reconcileAccept_def intro: metrics_frame.keeps_return failures_frame.keeps_return)

lemma reconcile_metrics: "keeps metrics_ok (Task_Reconcile E r ns nm)"
proof -
  have tail: "keeps metrics_ok (case ex of
      LoopPanic m \<Rightarrow> State_Monad.return (Panicked m)
    | LoopReturn err \<Rightarrow> State_Monad.return (Done (no_requeue, Some err))
    | LoopEnd spt2 lastError \<Rightarrow> do { spt3 \<leftarrow> settle_phase E spt2 lastError; finish_task E t0 spt3 })" for ex t0
    by (cases ex) (auto intro!: metrics_ok_rules metrics_ok_settle metrics_ok_finish)
  show ?thesis unfolding Task_Reconcile_def attempt_task_def Let_def
    by (intro metrics_ok_rules metrics_ok_run_recs [OF steps_metrics(1)] tail)
qed

lemma attempt_failures:
  assumes stored: "tasks (gs_world s) (task_key t) = Some t" and wf: "task_wf t"
    and nonterm: "\<not> terminal_phase (sptst_Phase (spt_Status t))"
    and run: "run_state (attempt_task E r t0 t) s = (Done (q, None), s')"
  shows "\<exists>u. tasks (gs_world s') (task_key t) = Some u \<and> failures s' = (failures s)(failure_labels t :=
    failures s (failure_labels t) + (if sptst_Phase (spt_Status u) = PhaseFailed then 1 else 0))"
proof -
  note run = run [unfolded attempt_task_def]
  have fol: "follows step_names (sptst_Conditions (spt_Status t))" using wf by (simp add: task_wf_def)
  obtain ex s1 where loop: "run_state (run_recs E (task_recs E r) t) s = (ex, s1)" by (metis prod.collapse)
  then obtain t1 err where ex: "ex = LoopEnd t1 err" using run by (cases ex) auto
  have "\<forall>p\<in>set (task_recs E r). \<forall>t. keeps (unseen tasks) (snd p t)" using unseen_steps by auto
  from run_recs_moves [OF this _ _ fol _ stored loop, of 0] have mv: "moved t t1"
    by (auto simp: task_recs_def step_names_def ex)
  obtain t3 s2 where settle: "run_state (settle_phase E t1 err) s1 = (t3, s2)" by (metis prod.collapse)
  have fin: "run_state (finish_task E t0 t3) s2 = (Done (q, None), s')" using run loop ex settle by simp
  have "same_task t1 t3" using settle
    by (auto simp: settle_phase_def Let_def record_defs set_task_status_def split: if_splits prod.splits
      intro: same_taskI [where v = "om_ResourceVersion (spt_meta t1)"])
  then have key: "task_key t3 = task_key t" and lab: "failure_labels t1 = failure_labels t"
    using mv same_task_key failure_labels_same by (auto simp: moved_def)
  have "failures s1 = failures s"
    using keepsD [OF failures_run_recs [OF steps_metrics(2)] loop] by (simp add: same_failures_def)
  moreover have "failures s' = failures s2" using keepsD [OF failures_finish fin] by (simp add: same_failures_def)
  moreover have "\<not> terminal_phase (sptst_Phase (spt_Status t1))" using mv nonterm by (simp add: moved_def)
  ultimately show ?thesis
    using settle_failures [OF _ settle] finish_stores [OF fin] key lab by (metis (no_types, lifting) wire_task_status_sel(1))
qed

lemma reconcile_failures:
  assumes stored: "tasks (gs_world s) (ns, nm) = Some t" and wf: "task_wf t" and "to_do r t"
    and run: "run_state (Task_Reconcile E r ns nm) s = (Done (q, None), s')"
  shows "\<exists>u. tasks (gs_world s') (ns, nm) = Some u \<and> failures s' = (failures s)(failure_labels t :=
    failures s (failure_labels t) + (if sptst_Phase (spt_Status u) = PhaseFailed then 1 else 0))"
proof (rule reconcile_attempt [OF assms])
  fix t0 s2
  assume "tasks (gs_world s2) = tasks (gs_world s)" and m: "gs_metrics s2 = gs_metrics s" and key: "task_key t = (ns, nm)"
    and run: "run_state (attempt_task E r t0 t) s2 = (Done (q, None), s')"
  then have "tasks (gs_world s2) (task_key t) = Some t" using stored by simp
  from attempt_failures [OF this wf _ run] show ?thesis
    using m key assms(3) by (simp add: to_do_def failures_def)
qed

end

end
