(* ===== verification/TaskTheorems.thy ===== *)
theory TaskTheorems
  imports TaskIsolation TaskErrors TaskMetrics
begin

text \<open>
  The properties of the task controller, each with a run of the simulated world at which its
  hypotheses hold. The interpretation of \<open>task_world\<close> is on the reconciler as \<^verbatim>\<open>SetupWithManager\<close>
  leaves it: a docker and a nerdctl runtime.
\<close>

section \<open>A reconciler and its world\<close>

lemma setup_runtimes:
  assumes "run_state (Task_SetupWithManager E r) s = (Done (Inr r'), s')"
  shows "\<exists>c. r' = r\<lparr>tr_runtimeMap := [
    (dockerRuntime, docker_runtime E \<lparr>dcr_dockerCompatibleCommand = ''docker'', dcr_globalArgs = [''--debug'']\<rparr>),
    (containerdRuntime, containerd_runtime E c)]\<rparr>"
  using assms by (auto simp: Task_SetupWithManager_def NewDockerCompatibleRuntime_def
    split: outcome.splits sum.splits prod.splits)

lemma runtimes_task_world:
  assumes "task_api E tasks"
    and "\<And>n rt. (n, rt) \<in> set (tr_runtimeMap r) \<Longrightarrow> (\<exists>d. rt = docker_runtime E d) \<or> (\<exists>c. rt = containerd_runtime E c)"
  shows "task_world E tasks r"
proof -
  have os: "os_frame E tasks" using assms(1) by (simp add: task_api_def task_store_def)
  have "runtime_contract rt tasks" if "(n, rt) \<in> set (tr_runtimeMap r)" for n rt
    using assms(2) [OF that] os_frame.runtime_contracts [OF os] by blast
  with assms(1) show ?thesis by (rule task_worldI)
qed

text \<open>The containerd-compatible runtime of a node with recent versions.\<close>
definition sim_containerd :: containerdCompatibleRuntime where
  "sim_containerd = \<lparr>ccr_docker = \<lparr>dcr_dockerCompatibleCommand = ''nerdctl'', dcr_globalArgs = [''--debug'', ''-n'', ''k8s.io'']\<rparr>,
     ccr_IsNerdctlVersionSufficient = True, ccr_IsContainerdVersionSufficient = True\<rparr>"

definition sim_reconciler :: "sim_world SnapshotPodTaskReconciler" where
  "sim_reconciler = \<lparr>tr_NodeName = ''node1'', tr_runtimeMap = [
     (dockerRuntime, NewDockerCompatibleRuntime sim_env ''docker'' [''--debug'']),
     (containerdRuntime, containerd_runtime sim_env sim_containerd)]\<rparr>"

interpretation sim_node: task_world sim_env sim_task_store sim_reconciler
proof (rule runtimes_task_world)
  show "task_api sim_env sim_task_store" by (rule sim_tasks.task_api_axioms)
qed (auto simp: sim_reconciler_def NewDockerCompatibleRuntime_def)

definition sample_task :: SnapshotPodTask where
  "sample_task = \<lparr>spt_meta = \<lparr>om_Name = ''snap-1-app'', om_Namespace = ''default'', om_UID = ''u1'', om_ResourceVersion = 1,
     om_Labels = Some [(SnapshotNameLabel, ''snap'')], om_OwnerReferences = [], om_CreationTimestamp = 900 * second_ns,
     om_DeletionTimestamp = None\<rparr>,
   spt_Spec = \<lparr>spts_NodeName = ''node1'', spts_PodName = ''web'', spts_ContainerID = ''docker://abc'',
     spts_CommitOptions = \<lparr>co_PauseContainer = True, co_Timeout = [], co_Message = ''m'', co_Author = []\<rparr>,
     spts_OriginImage = ''nginx:1'', spts_OriginRegistrySecretRef = [], spts_CommitImage = ''reg.io/nginx:1-snapped'',
     spts_RegistrySecretRef = [], spts_MaxRetries = 2, spts_RetryDelaySeconds = 10\<rparr>,
   spt_Status = empty_task_status\<rparr>"

text \<open>A world with that task, one where in addition every push is refused, and runs from both.\<close>
definition sample_world :: sim_world where
  "sample_world = sim_start\<lparr>sw_tasks := [((''default'', ''snap-1-app''), sample_task)]\<rparr>"

definition refusing_world :: sim_world where
  "refusing_world = sample_world\<lparr>sw_script := (\<lambda>n args.
     ([], if ''push'' \<in> set args then Some (PlainError ''denied'') else None))\<rparr>"

abbreviation sample_run :: "sim_world \<Rightarrow> (ctrl_Result \<times> go_error option) outcome \<times> sim_world gstate" where
  "sample_run w \<equiv> run_state (Task_Reconcile sim_env sim_reconciler ''default'' ''snap-1-app'') (sim_state w)"

lemma sample_stored:
  "sim_task_store (gs_world (sim_state sample_world)) (''default'', ''snap-1-app'') = Some sample_task"
  "sim_task_store (gs_world (sim_state refusing_world)) (''default'', ''snap-1-app'') = Some sample_task"
  by (simp_all add: sample_world_def refusing_world_def sim_task_store_def sample_task_def)

lemma fresh_task_wf: "spt_Status t = empty_task_status \<Longrightarrow> task_wf t"
  by (simp add: task_wf_def empty_task_status_def)

lemma sample_wf [simp]: "task_wf sample_task"
  by (rule fresh_task_wf) (simp add: sample_task_def)

lemma sample_to_do [simp]: "to_do sim_reconciler sample_task"
  by (simp add: to_do_def sample_task_def sim_reconciler_def empty_task_status_def)

section \<open>Refinement, progress and termination\<close>

text \<open>C1: one call of Reconcile on a stored, well-formed task object carries out a sequence of steps of
  the abstract machine on that object: conditions are only gained in the order Accept, Commit, Push,
  attempts are only counted, the phase only becomes final as the machine allows. The object keeps
  everything but its status and resource version, stays well-formed, and every other task object
  stays as it was. This holds whatever the runtimes do and whatever the API server answers.\<close>
theorem task_reconcile_refines:
  assumes "task_world E tasks r" and "tasks (gs_world s) (ns, nm) = Some t" and "task_wf t"
    and "run_state (Task_Reconcile E r ns nm) s = (res, s')"
  shows "\<exists>u. tasks (gs_world s') = (tasks (gs_world s))((ns, nm) \<mapsto> u) \<and> same_task t u \<and> task_wf u \<and>
    task_step\<^sup>*\<^sup>* (abs_task t) (abs_task u)"
  using task_world.reconcile_moves [OF assms] by (elim exE conjE) (intro exI conjI)

theorem task_reconcile_refines_witness:
  "\<exists>u. sim_task_store (gs_world (snd (sample_run refusing_world))) =
       (sim_task_store (gs_world (sim_state refusing_world)))((''default'', ''snap-1-app'') \<mapsto> u) \<and>
     same_task sample_task u \<and> task_wf u \<and> task_step\<^sup>*\<^sup>* (abs_task sample_task) (abs_task u)"
  by (rule task_reconcile_refines [OF sim_node.task_world_axioms sample_stored(2) sample_wf prod.collapse [symmetric]])

text \<open>A call that reports no error on a task of this node has made progress: either the task is in
  a final phase and is not queued again, or one more attempt is counted and the task is queued
  again after its retry delay.\<close>
theorem task_reconcile_progress:
  assumes "task_world E tasks r" and "tasks (gs_world s) (ns, nm) = Some t" and "task_wf t" and "to_do r t"
    and "run_state (Task_Reconcile E r ns nm) s = (Done (q, None), s')"
  shows "\<exists>u. tasks (gs_world s') (ns, nm) = Some u \<and>
    (if terminal_phase (sptst_Phase (spt_Status u)) then q = no_requeue
     else sint (sptst_RetryCount (spt_Status u)) = sint (sptst_RetryCount (spt_Status t)) + 1 \<and>
       q = \<lparr>RequeueAfter = sint (retry_delay (spt_Spec t))\<rparr>)"
  by (rule task_world.reconcile_done [OF assms]) auto

theorem task_reconcile_progress_witness:
  "\<exists>u. sim_task_store (gs_world (snd (sample_run refusing_world))) (''default'', ''snap-1-app'') = Some u \<and>
    (if terminal_phase (sptst_Phase (spt_Status u)) then \<lparr>RequeueAfter = 10000000000\<rparr> = no_requeue
     else sint (sptst_RetryCount (spt_Status u)) = sint (sptst_RetryCount (spt_Status sample_task)) + 1 \<and>
       \<lparr>RequeueAfter = 10000000000\<rparr> = \<lparr>RequeueAfter = sint (retry_delay (spt_Spec sample_task))\<rparr>)"
proof -
  have "fst (sample_run refusing_world) = Done (\<lparr>RequeueAfter = 10000000000\<rparr>, None)" by code_simp
  then have "sample_run refusing_world = (Done (\<lparr>RequeueAfter = 10000000000\<rparr>, None), snd (sample_run refusing_world))"
    by (metis prod.collapse)
  from task_reconcile_progress [OF sim_node.task_world_axioms sample_stored(2) sample_wf sample_to_do this] show ?thesis .
qed

text \<open>C8: calls without error lead to the end. If the remaining attempts of a task (its retry limit, 3 by
  default, less its retry count) are at most \<open>n\<close>, then after \<open>n\<close> calls that report no error the task
  is completed or failed, whatever its steps did.\<close>
theorem task_reconcile_terminates:
  assumes "task_world E tasks r" and "tasks (gs_world s) (ns, nm) = Some t" and "task_wf t"
    and "spts_NodeName (spt_Spec t) = tr_NodeName r" and "0 < n"
    and "sint (effective_max_retries (spt_Spec t)) - sint (sptst_RetryCount (spt_Status t)) \<le> int n"
    and "run_state (reconcile_times E r ns nm n) s = (True, s')"
  shows "\<exists>u. tasks (gs_world s') (ns, nm) = Some u \<and> terminal_phase (sptst_Phase (spt_Status u))"
  by (rule task_world.times_bounded [OF assms(1,2,3,4,6,5,7)])

theorem task_reconcile_terminates_witness:
  "\<exists>u. sim_task_store (gs_world (snd (run_state (reconcile_times sim_env sim_reconciler ''default'' ''snap-1-app'' 2)
      (sim_state refusing_world)))) (''default'', ''snap-1-app'') = Some u \<and> terminal_phase (sptst_Phase (spt_Status u))"
proof -
  let ?run = "run_state (reconcile_times sim_env sim_reconciler ''default'' ''snap-1-app'' 2) (sim_state refusing_world)"
  have "fst ?run = True" by code_simp
  then have run: "?run = (True, snd ?run)" by (metis prod.collapse)
  have "spts_NodeName (spt_Spec sample_task) = tr_NodeName sim_reconciler"
    and "sint (effective_max_retries (spt_Spec sample_task)) - sint (sptst_RetryCount (spt_Status sample_task)) \<le> int 2"
    by (simp_all add: sample_task_def sim_reconciler_def effective_max_retries_def empty_task_status_def)
  from task_reconcile_terminates [OF sim_node.task_world_axioms sample_stored(2) sample_wf this(1) _ this(2) run]
  show ?thesis by simp
qed

text \<open>C19: a call that reports no error either completes the task, or leaves in the condition of some
  step the status False and the message of the error which that step returned for this task. In
  particular a task whose steps all succeed is completed by one call.\<close>
theorem task_reconcile_explains:
  assumes "task_world E tasks r" and "tasks (gs_world s) (ns, nm) = Some t" and "task_wf t" and "to_do r t"
    and "run_state (Task_Reconcile E r ns nm) s = (Done (q, None), s')"
  shows "\<exists>u. tasks (gs_world s') (ns, nm) = Some u \<and>
    (sptst_Phase (spt_Status u) = PhaseCompleted \<or>
     (\<exists>n f t0 s0 e. (n, f) \<in> set (task_recs E r) \<and> spt_Spec t0 = spt_Spec t \<and>
       fst (run_state (f t0) s0) = Done (Some e) \<and> blames (sptst_Conditions (spt_Status u)) n e))"
  by (rule task_world.reconcile_explains [OF assms])

theorem task_reconcile_explains_witness:
  "\<exists>u. sim_task_store (gs_world (snd (sample_run sample_world))) (''default'', ''snap-1-app'') = Some u \<and>
    (sptst_Phase (spt_Status u) = PhaseCompleted \<or>
     (\<exists>n f t0 s0 e. (n, f) \<in> set (task_recs sim_env sim_reconciler) \<and> spt_Spec t0 = spt_Spec sample_task \<and>
       fst (run_state (f t0) s0) = Done (Some e) \<and> blames (sptst_Conditions (spt_Status u)) n e))"
proof -
  have "fst (sample_run sample_world) = Done (no_requeue, None)" by code_simp
  then have "sample_run sample_world = (Done (no_requeue, None), snd (sample_run sample_world))"
    by (metis prod.collapse)
  from task_reconcile_explains [OF sim_node.task_world_axioms sample_stored(1) sample_wf sample_to_do this] show ?thesis .
qed

section \<open>What is not done\<close>

text \<open>C13: a container is not committed again by a call that knows of the commit. If the Commit condition holds in
  the task the call has read, the call runs the same whatever the commit operation of the runtimes would do: it is
  not called. Nothing is assumed of the client. What counts is the task as it was read, not as it is stored: the
  cached client of the manager may answer with an older one, and then the commit is repeated
  (\<open>stale_call_commits_again\<close> in \<open>CachedTheorems\<close>).\<close>
theorem commit_not_repeated:
  assumes "fst (run_state (env_get_task E ns nm) (gs_world (snd (run_state (time_now E) s)))) = Inr t"
    and "follows step_names (sptst_Conditions (spt_Status t))"
    and "2 \<le> done_count (sptst_Conditions (spt_Status t))"
  shows "run_state (Task_Reconcile E (on_runtimes (\<lambda>rt. rt\<lparr>rt_Commit := g\<rparr>) r) ns nm) s =
    run_state (Task_Reconcile E r ns nm) s"
  by (rule reconcile_no_commit [OF assms])

definition committed_task :: SnapshotPodTask where
  "committed_task = set_task_conditions
     [(new_condition ''Accept'' 0)\<lparr>cond_Status := ConditionTrue\<rparr>, (new_condition ''Commit'' 0)\<lparr>cond_Status := ConditionTrue\<rparr>]
     sample_task"

definition committed_world :: sim_world where
  "committed_world = sim_start\<lparr>sw_tasks := [((''default'', ''snap-1-app''), committed_task)]\<rparr>"

lemma committed_facts:
  "sim_task_store (gs_world (sim_state committed_world)) (''default'', ''snap-1-app'') = Some committed_task"
  "task_wf committed_task" "2 \<le> done_count (sptst_Conditions (spt_Status committed_task))"
  by (simp_all add: committed_world_def sim_task_store_def committed_task_def sample_task_def task_wf_def
    follows_def step_names_def new_condition_def empty_task_status_def)

theorem commit_not_repeated_witness:
  "run_state (Task_Reconcile sim_env (on_runtimes (\<lambda>rt. rt\<lparr>rt_Commit :=
       (\<lambda>_ _ _ _ _ _. State_Monad.return (Some (PlainError ''commit called'')))\<rparr>) sim_reconciler) ''default'' ''snap-1-app'')
     (sim_state committed_world) = sample_run committed_world"
proof (rule commit_not_repeated)
  show "fst (run_state (env_get_task sim_env ''default'' ''snap-1-app'')
      (gs_world (snd (run_state (time_now sim_env) (sim_state committed_world))))) = Inr committed_task"
    by (simp add: committed_world_def sim_get_task_def lookup_api_def api_call_def Let_def sim_now_def committed_task_def
      sample_task_def set_task_conditions_def set_task_status_def)
  show "follows step_names (sptst_Conditions (spt_Status committed_task))" using committed_facts(2) by (simp add: task_wf_def)
  show "2 \<le> done_count (sptst_Conditions (spt_Status committed_task))" by (rule committed_facts(3))
qed

text \<open>C12: nothing is pushed before the commit. As long as the Commit condition does not hold and the commit
  fails, a call runs the same whatever the inspect, pull and push operations of the runtimes would do.\<close>
theorem push_only_after_commit:
  assumes "task_world E tasks r" and "tasks (gs_world s) (ns, nm) = Some t" and "task_wf t"
    and "done_count (sptst_Conditions (spt_Status t)) \<le> 1"
    and "\<And>t s. fst (run_state (reconcileCommit E r t) s) \<noteq> Done None"
  shows "run_state (Task_Reconcile E (on_runtimes (\<lambda>rt. rt\<lparr>rt_ImageExists := a, rt_Pull := b, rt_Push := c\<rparr>) r) ns nm) s =
    run_state (Task_Reconcile E r ns nm) s"
  by (rule task_world.reconcile_no_push [OF assms])

text \<open>A node whose one runtime cannot commit.\<close>
definition broken_runtime :: "sim_world Runtime" where
  "broken_runtime = (docker_runtime sim_env \<lparr>dcr_dockerCompatibleCommand = ''docker'', dcr_globalArgs = []\<rparr>)\<lparr>
     rt_Commit := (\<lambda>_ _ _ _ _ _. State_Monad.return (Some (PlainError ''no space left on device'')))\<rparr>"

definition broken_reconciler :: "sim_world SnapshotPodTaskReconciler" where
  "broken_reconciler = \<lparr>tr_NodeName = ''node1'', tr_runtimeMap = [(dockerRuntime, broken_runtime)]\<rparr>"

lemma broken_world: "task_world sim_env sim_task_store broken_reconciler"
proof -
  have "runtime_contract (docker_runtime sim_env \<lparr>dcr_dockerCompatibleCommand = ''docker'', dcr_globalArgs = []\<rparr>) sim_task_store"
    by (rule sim_tasks.runtime_contracts)
  then have "runtime_contract broken_runtime sim_task_store"
    by (simp add: runtime_contract_def broken_runtime_def quiet_frame.keeps_return)
  then show ?thesis
    by (intro task_worldI [OF sim_tasks.task_api_axioms]) (simp add: broken_reconciler_def)
qed

lemma broken_commit: "fst (run_state (reconcileCommit sim_env broken_reconciler t) s) \<noteq> Done None"
  by (auto simp: reconcileCommit_def getRuntimeAndContainerID_def broken_reconciler_def broken_runtime_def Let_def
    split: option.splits list.splits sum.splits)

theorem push_only_after_commit_witness:
  "run_state (Task_Reconcile sim_env (on_runtimes (\<lambda>rt. rt\<lparr>rt_ImageExists := (\<lambda>_ _. State_Monad.return True),
       rt_Pull := (\<lambda>_ _ _ _. State_Monad.return None), rt_Push := (\<lambda>_ _ _. State_Monad.return None)\<rparr>) broken_reconciler)
       ''default'' ''snap-1-app'') (sim_state sample_world) =
   run_state (Task_Reconcile sim_env broken_reconciler ''default'' ''snap-1-app'') (sim_state sample_world)"
  by (rule push_only_after_commit [OF broken_world sample_stored(1) sample_wf _ broken_commit])
    (simp add: sample_task_def empty_task_status_def)

text \<open>A task of another node, or one that is completed or failed, is left alone: the call neither
  changes a task object nor uses a runtime (it runs the same for any runtimes of the node).\<close>
theorem foreign_task_untouched:
  assumes "task_world E tasks r" and "tasks (gs_world s) (ns, nm) = Some t" and "task_wf t" and "\<not> to_do r t"
  shows "tasks (gs_world (snd (run_state (Task_Reconcile E r ns nm) s))) = tasks (gs_world s) \<and>
    run_state (Task_Reconcile E (r\<lparr>tr_runtimeMap := rts\<rparr>) ns nm) s = run_state (Task_Reconcile E r ns nm) s"
proof
  from task_world.reconcile_moves [OF assms(1,2,3) prod.collapse [symmetric]] assms(2,4)
  show "tasks (gs_world (snd (run_state (Task_Reconcile E r ns nm) s))) = tasks (gs_world s)"
    by (auto simp: fun_upd_idem)
  show "run_state (Task_Reconcile E (r\<lparr>tr_runtimeMap := rts\<rparr>) ns nm) s = run_state (Task_Reconcile E r ns nm) s"
    by (rule task_world.reconcile_foreign [OF assms]) simp
qed

definition other_node :: "sim_world SnapshotPodTaskReconciler" where
  "other_node = sim_reconciler\<lparr>tr_NodeName := ''node2''\<rparr>"

theorem foreign_task_untouched_witness:
  "sim_task_store (gs_world (snd (run_state (Task_Reconcile sim_env other_node ''default'' ''snap-1-app'') (sim_state sample_world)))) =
     sim_task_store (gs_world (sim_state sample_world)) \<and>
   run_state (Task_Reconcile sim_env (other_node\<lparr>tr_runtimeMap := []\<rparr>) ''default'' ''snap-1-app'') (sim_state sample_world) =
     run_state (Task_Reconcile sim_env other_node ''default'' ''snap-1-app'') (sim_state sample_world)"
proof -
  have w: "task_world sim_env sim_task_store other_node"
    using sim_node.runtimes_quiet by (intro task_worldI [OF sim_tasks.task_api_axioms]) (simp add: other_node_def)
  have n: "\<not> to_do other_node sample_task" by (simp add: to_do_def other_node_def sample_task_def)
  show ?thesis by (rule foreign_task_untouched [OF w sample_stored(1) sample_wf n])
qed

section \<open>Runtimes, delays and metrics\<close>

text \<open>The deadline a timeout stands for: five minutes if there is none.\<close>
definition timeout_ns :: "string \<Rightarrow> duration \<Rightarrow> bool" where
  "timeout_ns timeout d \<longleftrightarrow> (if timeout = [] then d = 300 * second_ns
     else \<exists>n u unit. timeout = int_string n @ u \<and> map_of unitMap u = Some unit \<and> \<bar>n\<bar> * unit < 2 ^ 63 \<and> d = n * unit)"



text \<open>The reconciler that \<^verbatim>\<open>SetupWithManager\<close> returns has runtimes for \<^verbatim>\<open>docker://\<close> and
  \<^verbatim>\<open>containerd://\<close> container ids and no others, and with these runtimes the contract behind the
  theorems above holds for every API server that keeps its own contract.\<close>
theorem setup_gives_world:
  assumes "task_api E tasks" and "run_state (Task_SetupWithManager E r) s = (Done (Inr r'), s')"
  shows "task_world E tasks r' \<and> map fst (tr_runtimeMap r') = [''docker'', ''containerd''] \<and> tr_NodeName r' = tr_NodeName r"
proof -
  obtain c where r': "r' = r\<lparr>tr_runtimeMap := [
      (dockerRuntime, docker_runtime E \<lparr>dcr_dockerCompatibleCommand = ''docker'', dcr_globalArgs = [''--debug'']\<rparr>),
      (containerdRuntime, containerd_runtime E c)]\<rparr>" using setup_runtimes [OF assms(2)] by blast
  then have "task_world E tasks r'" by (intro runtimes_task_world [OF assms(1)]) auto
  then show ?thesis by (simp add: r' dockerRuntime_def containerdRuntime_def)
qed

text \<open>A node on which \<^verbatim>\<open>nerdctl -v\<close> answers.\<close>
definition nerdctl_world :: sim_world where
  "nerdctl_world = sim_start\<lparr>sw_script := (\<lambda>n args. (''nerdctl version 2.1.3'' @ [CHR 0x0A], None))\<rparr>"

theorem setup_gives_world_witness:
  "\<exists>r'. fst (run_state (Task_SetupWithManager sim_env (sim_reconciler\<lparr>tr_runtimeMap := []\<rparr>)) (sim_state nerdctl_world)) = Done (Inr r') \<and>
    task_world sim_env sim_task_store r' \<and> map fst (tr_runtimeMap r') = [''docker'', ''containerd''] \<and>
    tr_NodeName r' = tr_NodeName (sim_reconciler\<lparr>tr_runtimeMap := []\<rparr>)"
proof -
  let ?run = "run_state (Task_SetupWithManager sim_env (sim_reconciler\<lparr>tr_runtimeMap := []\<rparr>)) (sim_state nerdctl_world)"
  have "case fst ?run of Done (Inr x) \<Rightarrow> True | _ \<Rightarrow> False" by code_simp
  then obtain r' where "fst ?run = Done (Inr r')" by (auto split: outcome.splits sum.splits)
  moreover from this have "?run = (Done (Inr r'), snd ?run)" by (metis prod.collapse)
  ultimately show ?thesis using setup_gives_world [OF sim_tasks.task_api_axioms] by blast
qed

text \<open>C35: \<^verbatim>\<open>getRuntimeAndContainerID\<close> panics (index out of range) for exactly the container ids that have no
  \<^verbatim>\<open>://\<close> and are the name of a known runtime, such as the id \<^verbatim>\<open>docker\<close>.\<close>
theorem container_id_panic:
  "(\<exists>m. getRuntimeAndContainerID r c = Panicked m) \<longleftrightarrow> \<not> str_contains c ''://'' \<and> c \<in> fst ` set (tr_runtimeMap r)"
proof (cases "str_contains c ''://''")
  case True
  then have "1 < length (str_split c ''://'')" using split_from_length [of "''://''" "[]" c] by (simp add: str_split_def)
  then obtain x y zs where "str_split c ''://'' = x # y # zs" by (cases "str_split c ''://''"; cases "tl (str_split c ''://'')") auto
  with True show ?thesis by (auto simp: getRuntimeAndContainerID_def Let_def split: option.splits)
next
  case False
  then have "str_split c ''://'' = [c]" by (simp add: str_split_def split_from_no_sep)
  with False show ?thesis
    by (auto simp: getRuntimeAndContainerID_def Let_def map_of_eq_None_iff split: option.splits intro: rev_image_eqI dest: map_of_SomeD)
qed

lemma split_scheme:
  assumes "\<not> str_contains n ''://''"
  shows "split_from ''://'' acc (n @ ''://'' @ cid) = (rev acc @ n) # split_from ''://'' [] cid"
  using assms
proof (induction n arbitrary: acc)
  case (Cons c n)
  have "\<not> prefix ''://'' ((c # n) @ ''://'' @ cid)"
    using Cons.prems by (cases n; cases "tl n") auto
  with Cons show ?case by simp
qed simp

text \<open>A container id \<^verbatim>\<open>runtime://id\<close> of a known runtime, as the kubelet reports it, is taken apart into
  that runtime and that id.\<close>
theorem container_id_roundtrip:
  assumes "map_of (tr_runtimeMap r) n = Some rt" and "\<not> str_contains n ''://''" and "\<not> str_contains cid ''://''"
  shows "getRuntimeAndContainerID r (n @ ''://'' @ cid) = Done (Inr (n, rt, cid))"
  using assms split_scheme [OF assms(2), of "[]" cid] split_from_no_sep [OF assms(3), of "[]"]
  by (simp add: getRuntimeAndContainerID_def str_split_def)

theorem container_id_roundtrip_witness:
  "getRuntimeAndContainerID sim_reconciler (''docker'' @ ''://'' @ ''abc'') =
     Done (Inr (''docker'', NewDockerCompatibleRuntime sim_env ''docker'' [''--debug''], ''abc''))"
  by (rule container_id_roundtrip) (simp_all add: sim_reconciler_def dockerRuntime_def)

text \<open>The retry delay is the configured number of seconds, 30 if there is none, in nanoseconds: the 64-bit
  product does not wrap around for any 32-bit number of seconds, and the delay is positive.\<close>
theorem retry_delay_exact:
  "sint (retry_delay spec) =
     1000000000 * (if 0 < sint (spts_RetryDelaySeconds spec) then sint (spts_RetryDelaySeconds spec) else 30) \<and>
   0 < sint (retry_delay spec)"
proof (cases "0 < sint (spts_RetryDelaySeconds spec)")
  case True
  let ?d = "spts_RetryDelaySeconds spec"
  have lt: "sint ?d < 2 ^ 31" using sint_lt [of ?d] by simp
  have s: "sint (scast ?d :: int64) = sint ?d"
    using True lt by (subst sint_up_scast) (simp_all add: is_up)
  have "sint (1000000000 * scast ?d :: int64) = 1000000000 * sint ?d"
    using True lt s by (simp add: sint_word_ariths signed_take_bit_int_eq_self)
  with True show ?thesis by (simp add: retry_delay_def)
qed (simp add: retry_delay_def)

text \<open>C37: whatever a call of Reconcile does, it only appends to the metric log, and every operation it
  appends names an existing vector with the right number of label values, so recording never panics.\<close>
theorem task_metrics_well_labelled:
  assumes "task_world E tasks r"
  shows "\<exists>ops. gs_metrics (snd (run_state (Task_Reconcile E r ns nm) s)) = gs_metrics s @ ops \<and> list_all well_labelled ops"
  using task_world.reconcile_metrics [OF assms, of ns nm] by (simp add: keeps_def metrics_ok_def)

theorem task_metrics_well_labelled_witness:
  "\<exists>ops. gs_metrics (snd (sample_run refusing_world)) = gs_metrics (sim_state refusing_world) @ ops \<and> list_all well_labelled ops"
  by (rule task_metrics_well_labelled [OF sim_node.task_world_axioms])

text \<open>\<^verbatim>\<open>snapshot_task_failed_total\<close> counts given-up tasks only. A call without error on a task that is to do
  raises the counter of exactly this task by one if it leaves the task failed, and leaves every counter as it was
  if not. So a step that errors is not counted as long as it will be retried, although the description
  of the metric in \<^verbatim>\<open>README.md\<close> says that the counter also increments when a step errors.\<close>
theorem failed_counter_exact:
  assumes "task_world E tasks r" and "tasks (gs_world s) (ns, nm) = Some t" and "task_wf t" and "to_do r t"
    and "run_state (Task_Reconcile E r ns nm) s = (Done (q, None), s')"
  shows "\<exists>u. tasks (gs_world s') (ns, nm) = Some u \<and> failures s' = (failures s)(failure_labels t :=
    failures s (failure_labels t) + (if sptst_Phase (spt_Status u) = PhaseFailed then 1 else 0))"
  by (rule task_world.reconcile_failures [OF assms])

theorem failed_counter_exact_witness:
  "\<exists>u. sim_task_store (gs_world (snd (sample_run refusing_world))) (''default'', ''snap-1-app'') = Some u \<and>
    failures (snd (sample_run refusing_world)) = (failures (sim_state refusing_world))(failure_labels sample_task :=
      failures (sim_state refusing_world) (failure_labels sample_task) +
      (if sptst_Phase (spt_Status u) = PhaseFailed then 1 else 0))"
proof -
  have "fst (sample_run refusing_world) = Done (\<lparr>RequeueAfter = 10000000000\<rparr>, None)" by code_simp
  then have "sample_run refusing_world = (Done (\<lparr>RequeueAfter = 10000000000\<rparr>, None), snd (sample_run refusing_world))"
    by (metis prod.collapse)
  from failed_counter_exact [OF sim_node.task_world_axioms sample_stored(2) sample_wf sample_to_do this] show ?thesis .
qed

end
