(* ===== verification/Webhook.thy ===== *)
theory Webhook
  imports Conditions SimWorld "HOL-Library.AList"
begin

text \<open>
  \<^verbatim>\<open>internal/webhooks/pod.go\<close>: the admission webhook. On the deletion of a pod it triggers a new round of
  the \<^verbatim>\<open>SnapshotPod\<close> that targets it, on a creation it answers with a JSON patch that replaces the images
  by snapshots. A request carries its raw objects as \<^verbatim>\<open>json.Unmarshal\<close> reads them, an error or a pod.
  \<^verbatim>\<open>sort.Slice\<close> does not fix the order of equal elements: it is a parameter, with its contract in the
  locale \<open>slice_sorter\<close>.
\<close>

section \<open>Requests and responses\<close>

record imageConfig =
  ic_image :: string
  ic_pullSecret :: string

record group_version_resource =
  gvr_Group :: string
  gvr_Version :: string
  gvr_Resource :: string

datatype admission_op = OpCreate | OpDelete | OpOther string

record admission_request =
  rq_UID :: string
  rq_Resource :: group_version_resource
  rq_Operation :: admission_op
  rq_Object :: "go_error + pod"
  rq_OldObject :: "go_error + pod"

text \<open>The values the patches carry: a string, a list of secret references, a secret reference.\<close>
datatype patch_value = PatchString string | PatchSecrets "string list" | PatchSecret string

record patch_op =
  po_Operation :: string
  po_Path :: string
  po_Value :: patch_value

record admission_response =
  rs_UID :: string
  rs_Allowed :: bool
  rs_Code :: int
  rs_Message :: string
  rs_Patches :: "patch_op list"

definition admission_Allowed :: "string \<Rightarrow> admission_response" where
  "admission_Allowed msg = \<lparr>rs_UID = [], rs_Allowed = True, rs_Code = 200, rs_Message = msg, rs_Patches = []\<rparr>"

definition admission_Errored :: "int \<Rightarrow> go_error \<Rightarrow> admission_response" where
  "admission_Errored code err = \<lparr>rs_UID = [], rs_Allowed = False, rs_Code = code, rs_Message = error_text err, rs_Patches = []\<rparr>"

section \<open>The handlers\<close>

text \<open>The predicate both handlers search with.\<close>
definition targets :: "SnapshotPod \<Rightarrow> pod \<Rightarrow> bool" where
  "targets item p =
     (let target = sps_Target (sp_Spec item) in
      if tp_Name target \<noteq> [] then tp_Name target = om_Name (pod_meta p)
      else tp_Selector target \<noteq> None \<and> om_Labels (pod_meta p) \<noteq> None \<and>
        list_all (\<lambda>(k, v). map_get (om_Labels (pod_meta p)) k = v) (map_entries (tp_Selector target)))"

definition handlePodUpdate :: "'w env \<Rightarrow> string \<Rightarrow> pod \<Rightarrow> ('w, int32 \<times> go_error option) go" where
  "handlePodUpdate E ns p = do {
     res \<leftarrow> in_world (env_list_snapshotpods E (Some ns));
     (case res of
        Inl err \<Rightarrow> State_Monad.return (0, Some err)
      | Inr items \<Rightarrow>
          (case find (\<lambda>item. targets item p) items of
             None \<Rightarrow> State_Monad.return (0, None)
           | Some sp \<Rightarrow>
               if \<not> aso_AutoSaveOnTermination (sps_AutoSaveOptions (sp_Spec sp)) then State_Monad.return (0, None)
               else do {
                 let sp1 = sp\<lparr>sp_Spec := (sp_Spec sp)\<lparr>sps_TriggerRound := sps_TriggerRound (sp_Spec sp) + 1\<rparr>\<rparr>;
                 u \<leftarrow> in_world (env_update_snapshotpod E sp1);
                 State_Monad.return (case u of
                   Inl err \<Rightarrow> (sps_TriggerRound (sp_Spec sp1), Some err)
                 | Inr sp2 \<Rightarrow> (sps_TriggerRound (sp_Spec sp2), None))
               }))
   }"

text \<open>\<^verbatim>\<open>out\<close> is a Go map from container names; an entry for a name that is there replaces it.\<close>
definition recovery_entry :: "SnapshotPod \<Rightarrow> SnapshotRunningStatus \<Rightarrow> imageConfig" where
  "recovery_entry sp item = \<lparr>ic_image = srs_ImageRef item,
     ic_pullSecret = iso_RegistrySecretRef (sps_ImageSaveOptions (sp_Spec sp))\<rparr>"

definition recovery_of_round :: "SnapshotPod \<Rightarrow> (string \<times> imageConfig) list" where
  "recovery_of_round sp = foldl (\<lambda>out item. AList.update (srs_ContainerName item) (recovery_entry sp item) out) []
     (filter (\<lambda>item. srs_TriggerRound item = sps_RecoveryRound (sp_Spec sp)) (spst_Snapshots (sp_Status sp)))"

definition recovery_of_latest ::
  "(SnapshotRunningStatus list \<Rightarrow> SnapshotRunningStatus list) \<Rightarrow> SnapshotPod \<Rightarrow> (string \<times> imageConfig) list" where
  "recovery_of_latest sort_slice sp = foldl (\<lambda>out item.
       if map_of out (srs_ContainerName item) \<noteq> None then out
       else if srs_Result item = ResultSuccess then AList.update (srs_ContainerName item) (recovery_entry sp item) out
       else out) []
     (sort_slice (spst_Snapshots (sp_Status sp)))"

definition handlePodCreate ::
  "'w env \<Rightarrow> (SnapshotRunningStatus list \<Rightarrow> SnapshotRunningStatus list) \<Rightarrow> pod \<Rightarrow>
    ('w, (string \<times> imageConfig) list \<times> bool) go" where
  "handlePodCreate E sort_slice p = do {
     res \<leftarrow> in_world (env_list_snapshotpods E (Some (om_Namespace (pod_meta p))));
     State_Monad.return (case res of
        Inl err \<Rightarrow> ([], False)
      | Inr items \<Rightarrow>
          (case find (\<lambda>item. targets item p) items of
             None \<Rightarrow> ([], False)
           | Some sp \<Rightarrow>
               if 0 < sint (sps_RecoveryRound (sp_Spec sp))
               then (recovery_of_round sp, 0 < length (recovery_of_round sp))
               else if sps_RecoveryRound (sp_Spec sp) = 0
               then (recovery_of_latest sort_slice sp, 0 < length (recovery_of_latest sort_slice sp))
               else ([], False)))
   }"

definition image_path :: "nat \<Rightarrow> string" where
  "image_path i = ''/spec/containers/'' @ int_string (int i) @ ''/image''"

text \<open>The patches for one container: its image, and its pull secret if the pod does not have it.\<close>
definition container_patches :: "pod \<Rightarrow> imageConfig \<Rightarrow> nat \<Rightarrow> patch_op list" where
  "container_patches p ic i =
     \<lparr>po_Operation = ''replace'', po_Path = image_path i, po_Value = PatchString (ic_image ic)\<rparr>
     # (if ic_pullSecret ic \<noteq> [] \<and> ic_pullSecret ic \<notin> set (pod_ImagePullSecrets p)
        then if length (pod_ImagePullSecrets p) = 0
          then [\<lparr>po_Operation = ''add'', po_Path = ''/spec/imagePullSecrets'', po_Value = PatchSecrets [ic_pullSecret ic]\<rparr>]
          else [\<lparr>po_Operation = ''add'', po_Path = ''/spec/imagePullSecrets/-'', po_Value = PatchSecret (ic_pullSecret ic)\<rparr>]
        else [])"

text \<open>The two nested loops, over the map in the order of its range and over the containers of the pod.\<close>
definition name_patches :: "pod \<Rightarrow> string \<times> imageConfig \<Rightarrow> patch_op list" where
  "name_patches p nic = concat (map (\<lambda>(i, c). if pc_Name c = fst nic then container_patches p (snd nic) i else [])
     (List.enumerate 0 (pod_Containers p)))"

definition patch_list :: "pod \<Rightarrow> (string \<times> imageConfig) list \<Rightarrow> patch_op list" where
  "patch_list p entries = concat (map (name_patches p) entries)"

text \<open>\<^verbatim>\<open>pod.DeletionTimestamp.IsZero()\<close>: a nil pointer or the zero time.\<close>
definition deletion_unset :: "pod \<Rightarrow> bool" where
  "deletion_unset p = (case om_DeletionTimestamp (pod_meta p) of None \<Rightarrow> True | Some t \<Rightarrow> t = 0)"

definition podGVR :: group_version_resource where
  "podGVR = \<lparr>gvr_Group = [], gvr_Version = ''v1'', gvr_Resource = ''pods''\<rparr>"

definition Webhook_Handle ::
  "'w env \<Rightarrow> (SnapshotRunningStatus list \<Rightarrow> SnapshotRunningStatus list) \<Rightarrow> admission_request \<Rightarrow>
    ('w, admission_response) go" where
  "Webhook_Handle E sort_slice request =
     (if rq_Resource request \<noteq> podGVR then State_Monad.return (admission_Allowed ''not pod'')
      else (case rq_Operation request of
        OpDelete \<Rightarrow>
          (case rq_OldObject request of
             Inl err \<Rightarrow> State_Monad.return (admission_Errored 500 err)
           | Inr p \<Rightarrow>
               if \<not> deletion_unset p then State_Monad.return (admission_Allowed ''already handled'')
               else do {
                 (trigger, err) \<leftarrow> handlePodUpdate E (om_Namespace (pod_meta p)) p;
                 State_Monad.return (admission_Allowed (''new round: '' @ int_string (sint trigger)))
               })
      | OpCreate \<Rightarrow>
          (case rq_Object request of
             Inl err \<Rightarrow> State_Monad.return (admission_Errored 500 err)
           | Inr p \<Rightarrow> do {
               (patchMap, needPatch) \<leftarrow> handlePodCreate E sort_slice p;
               if \<not> needPatch then State_Monad.return (admission_Allowed ''no need to patch'')
               else do {
                 ks \<leftarrow> in_world (env_map_order E (map fst patchMap));
                 State_Monad.return \<lparr>rs_UID = rq_UID request, rs_Allowed = True, rs_Code = 0, rs_Message = [],
                   rs_Patches = patch_list p (map (\<lambda>k. (k, the (map_of patchMap k))) ks)\<rparr>
               }
             })
      | OpOther op \<Rightarrow> State_Monad.return (admission_Allowed ''allowed'')))"

section \<open>The contract of the sort\<close>

text \<open>Descending by round, with less \<^verbatim>\<open>a.TriggerRound > b.TriggerRound\<close>; ties in any order.\<close>
locale slice_sorter =
  fixes sort_slice :: "SnapshotRunningStatus list \<Rightarrow> SnapshotRunningStatus list"
  assumes sort_mset: "mset (sort_slice xs) = mset xs"
    and sort_sorted: "sorted_wrt (\<lambda>a b. sint (srs_TriggerRound b) \<le> sint (srs_TriggerRound a)) (sort_slice xs)"
begin

lemma sort_set: "set (sort_slice xs) = set xs"
  by (rule mset_eq_setD [OF sort_mset])

text \<open>The first element with a property is one of the greatest round among those that have it.\<close>
lemma find_sorted:
  assumes "find P (sort_slice xs) = Some e"
  shows "e \<in> set xs \<and> P e \<and> (\<forall>e'\<in>set xs. P e' \<longrightarrow> sint (srs_TriggerRound e') \<le> sint (srs_TriggerRound e))"
proof -
  have "P e \<and> e \<in> set ys \<and> (\<forall>e'\<in>set ys. P e' \<longrightarrow> sint (srs_TriggerRound e') \<le> sint (srs_TriggerRound e))"
    if "find P ys = Some e" "sorted_wrt (\<lambda>a b. sint (srs_TriggerRound b) \<le> sint (srs_TriggerRound a)) ys" for ys
    using that by (induction ys) (auto split: if_splits)
  from this [OF assms sort_sorted] show ?thesis using sort_set by auto
qed

lemma find_sorted_None: "find P (sort_slice xs) = None \<longleftrightarrow> (\<forall>e\<in>set xs. \<not> P e)"
  using sort_set by (auto simp: find_None_iff)

end

text \<open>Up to 12 elements \<^verbatim>\<open>sort.Slice\<close> is an insertion sort, which is stable.\<close>
definition insertion_sort_slice :: "SnapshotRunningStatus list \<Rightarrow> SnapshotRunningStatus list" where
  "insertion_sort_slice = sort_key (\<lambda>e. - sint (srs_TriggerRound e))"

interpretation stable_slice: slice_sorter insertion_sort_slice
proof
  fix xs
  show "mset (insertion_sort_slice xs) = mset xs" by (simp add: insertion_sort_slice_def)
  have "sorted (map (\<lambda>e. - sint (srs_TriggerRound e)) (insertion_sort_slice xs))" by (simp add: insertion_sort_slice_def)
  then show "sorted_wrt (\<lambda>a b. sint (srs_TriggerRound b) \<le> sint (srs_TriggerRound a)) (insertion_sort_slice xs)"
    by (simp add: sorted_wrt_map)
qed

section \<open>What is recovered\<close>

lemma latest_fold:
  "map_of (foldl (\<lambda>out item. if map_of out (srs_ContainerName item) \<noteq> None then out
       else if srs_Result item = ResultSuccess then AList.update (srs_ContainerName item) (recovery_entry sp item) out
       else out) acc xs) c =
   (case map_of acc c of Some v \<Rightarrow> Some v
    | None \<Rightarrow> map_option (recovery_entry sp) (find (\<lambda>e. srs_ContainerName e = c \<and> srs_Result e = ResultSuccess) xs))"
proof (induction xs arbitrary: acc)
  case (Cons x xs)
  show ?case by (simp only: foldl.simps Cons) (auto simp: update_conv' split: option.splits)
qed (simp split: option.splits)

lemma recovery_of_latest_find:
  "map_of (recovery_of_latest sort_slice sp) c = map_option (recovery_entry sp)
     (find (\<lambda>e. srs_ContainerName e = c \<and> srs_Result e = ResultSuccess) (sort_slice (spst_Snapshots (sp_Status sp))))"
  unfolding recovery_of_latest_def latest_fold by simp

lemma round_fold:
  "map_of (foldl (\<lambda>out item. AList.update (srs_ContainerName item) (recovery_entry sp item) out) acc xs) c =
   (case find (\<lambda>e. srs_ContainerName e = c) (rev xs) of Some e \<Rightarrow> Some (recovery_entry sp e) | None \<Rightarrow> map_of acc c)"
proof (induction xs rule: rev_induct)
  case (snoc x xs)
  then show ?case by (auto simp: update_conv' split: option.splits)
qed simp

lemma in_set_update: "x \<in> set (AList.update k v al) \<Longrightarrow> x = (k, v) \<or> x \<in> set al"
  by (induction al) (auto split: if_splits)

text \<open>A Go map all of whose entries carry the same pull secret.\<close>
definition one_secret :: "string \<Rightarrow> (string \<times> imageConfig) list \<Rightarrow> bool" where
  "one_secret sec out \<longleftrightarrow> distinct (map fst out) \<and> (\<forall>x\<in>set out. ic_pullSecret (snd x) = sec)"

abbreviation sp_secret :: "SnapshotPod \<Rightarrow> string" where
  "sp_secret sp \<equiv> iso_RegistrySecretRef (sps_ImageSaveOptions (sp_Spec sp))"

lemma one_secret_update: "one_secret (sp_secret sp) out \<Longrightarrow> one_secret (sp_secret sp) (AList.update k (recovery_entry sp e) out)"
  by (auto simp: one_secret_def distinct_update recovery_entry_def dest!: in_set_update)

lemma one_secret_foldl: "(\<And>out e. R out \<Longrightarrow> R (f out e)) \<Longrightarrow> R out \<Longrightarrow> R (foldl f out xs)"
  by (induction xs arbitrary: out) simp_all

lemma one_secret_recovery:
  "one_secret (sp_secret sp) (recovery_of_latest srt sp)" "one_secret (sp_secret sp) (recovery_of_round sp)"
  unfolding recovery_of_latest_def recovery_of_round_def
  by (rule one_secret_foldl, auto simp: one_secret_update, simp add: one_secret_def)+

section \<open>What the patches do\<close>

text \<open>JSON patch (RFC 6902) on the fields the webhook touches: a replaced image, an added member, an
  element appended to an array.\<close>
definition apply_op :: "patch_op \<Rightarrow> pod \<Rightarrow> pod" where
  "apply_op x p = (case po_Value x of
     PatchString img \<Rightarrow> (case find_index_of (\<lambda>i. po_Path x = image_path i) [0..<length (pod_Containers p)] of
         None \<Rightarrow> p
       | Some i \<Rightarrow> p\<lparr>pod_Containers := (pod_Containers p)[i := (pod_Containers p ! i)\<lparr>pc_Image := img\<rparr>]\<rparr>)
   | PatchSecrets ss \<Rightarrow> if po_Path x = ''/spec/imagePullSecrets'' then p\<lparr>pod_ImagePullSecrets := ss\<rparr> else p
   | PatchSecret sec \<Rightarrow> if po_Path x = ''/spec/imagePullSecrets/-''
       then p\<lparr>pod_ImagePullSecrets := pod_ImagePullSecrets p @ [sec]\<rparr> else p)"

definition apply_patches :: "patch_op list \<Rightarrow> pod \<Rightarrow> pod" where
  "apply_patches ops p = foldl (\<lambda>p x. apply_op x p) p ops"

lemma apply_patches_simps [simp]:
  "apply_patches [] p = p" "apply_patches (x # xs) p = apply_patches xs (apply_op x p)"
  "apply_patches (xs @ ys) p = apply_patches ys (apply_patches xs p)"
  by (simp_all add: apply_patches_def)

lemma image_path_inj [simp]: "image_path i = image_path j \<longleftrightarrow> i = j"
proof
  assume "image_path i = image_path j"
  then have "digits_string (int i) = digits_string (int j)" by (simp add: image_path_def int_string_def)
  then show "i = j" using digits_inj [of "int i" "int j"] by simp
qed simp

lemma find_index_upt: "i < n \<Longrightarrow> find_index_of (\<lambda>j. i = j) [0..<n] = Some i"
  by (rule find_index_of_first) auto

lemma apply_op_frame: "\<exists>cs ss. apply_op x p = p\<lparr>pod_Containers := cs, pod_ImagePullSecrets := ss\<rparr>"
proof (cases "po_Value x")
  case (PatchString v)
  show ?thesis
  proof (cases "find_index_of (\<lambda>i. po_Path x = image_path i) [0..<length (pod_Containers p)]")
    case None
    then show ?thesis using PatchString
      by (intro exI [of _ "pod_Containers p"] exI [of _ "pod_ImagePullSecrets p"]) (simp add: apply_op_def)
  next
    case (Some i)
    then show ?thesis using PatchString
      by (intro exI [of _ "(pod_Containers p)[i := (pod_Containers p ! i)\<lparr>pc_Image := v\<rparr>]"] exI [of _ "pod_ImagePullSecrets p"])
        (simp add: apply_op_def)
  qed
next
  case (PatchSecrets ss)
  then show ?thesis
    by (intro exI [of _ "pod_Containers p"] exI [of _ "pod_ImagePullSecrets (apply_op x p)"]) (simp add: apply_op_def)
next
  case (PatchSecret sec)
  then show ?thesis
    by (intro exI [of _ "pod_Containers p"] exI [of _ "pod_ImagePullSecrets (apply_op x p)"]) (simp add: apply_op_def)
qed

lemma apply_patches_frame:
  "pod_meta (apply_patches ops p) = pod_meta p \<and> pod_NodeName (apply_patches ops p) = pod_NodeName p \<and>
   pod_Phase (apply_patches ops p) = pod_Phase p \<and> pod_ContainerStatuses (apply_patches ops p) = pod_ContainerStatuses p"
proof (induction ops arbitrary: p)
  case (Cons x ops)
  obtain cs ss where "apply_op x p = p\<lparr>pod_Containers := cs, pod_ImagePullSecrets := ss\<rparr>" using apply_op_frame by blast
  then show ?case using Cons [of "apply_op x p"] by simp
qed simp

lemma container_patches_containers:
  "i < length (pod_Containers q) \<Longrightarrow> pod_Containers (apply_patches (container_patches p ic i) q) =
     (pod_Containers q)[i := (pod_Containers q ! i)\<lparr>pc_Image := ic_image ic\<rparr>]"
  by (simp add: container_patches_def apply_op_def find_index_upt)

text \<open>The image a container gets from one entry, and from all of them.\<close>
definition set_image :: "string \<Rightarrow> imageConfig \<Rightarrow> pod_container \<Rightarrow> pod_container" where
  "set_image n ic c = (if pc_Name c = n then c\<lparr>pc_Image := ic_image ic\<rparr> else c)"

lemma set_image_name [simp]: "pc_Name (set_image n ic c) = pc_Name c"
  by (simp add: set_image_def)

lemma enumerate_patches:
  "pod_Containers q = pre @ cs' \<Longrightarrow> length pre = k \<Longrightarrow> map pc_Name cs' = map pc_Name cs \<Longrightarrow>
   pod_Containers (apply_patches (concat (map (\<lambda>(i, c). if pc_Name c = n then container_patches p ic i else [])
     (List.enumerate k cs))) q) = pre @ map (set_image n ic) cs'"
proof (induction cs arbitrary: k cs' pre q)
  case (Cons c cs)
  obtain c' ds where cs': "cs' = c' # ds" "pc_Name c' = pc_Name c" "map pc_Name ds = map pc_Name cs"
    using Cons.prems(3) by (cases cs') auto
  let ?q = "if pc_Name c = n then apply_patches (container_patches p ic k) q else q"
  have q: "pod_Containers ?q = (pre @ [set_image n ic c']) @ ds"
    using Cons.prems(1,2) cs' container_patches_containers [of k q p ic] by (auto simp: set_image_def nth_append list_update_append)
  have "length (pre @ [set_image n ic c']) = Suc k" using Cons.prems(2) by simp
  from Cons.IH [OF q this cs'(3)] show ?case using cs' by (auto split: if_splits)
qed simp

lemma patch_list_containers:
  assumes "map pc_Name (pod_Containers q) = map pc_Name (pod_Containers p)"
  shows "pod_Containers (apply_patches (patch_list p entries) q) =
    map (\<lambda>c. foldl (\<lambda>c (n, ic). set_image n ic c) c entries) (pod_Containers q)"
  using assms
proof (induction entries arbitrary: q)
  case Nil
  then show ?case by (simp add: patch_list_def)
next
  case (Cons e entries)
  obtain n ic where e: "e = (n, ic)" by (cases e)
  let ?q = "apply_patches (name_patches p e) q"
  have q: "pod_Containers ?q = map (set_image n ic) (pod_Containers q)"
    unfolding name_patches_def e fst_conv snd_conv
    using enumerate_patches [of q "[]" "pod_Containers q" 0 "pod_Containers p" n p ic] Cons.prems by simp
  then have "map pc_Name (pod_Containers ?q) = map pc_Name (pod_Containers p)" using Cons.prems by (simp add: comp_def)
  from Cons.IH [OF this] show ?case using q by (simp add: patch_list_def e comp_def)
qed

lemma set_image_distinct:
  "distinct (map fst entries) \<Longrightarrow> foldl (\<lambda>c (n, ic). set_image n ic c) c entries =
    (case map_of entries (pc_Name c) of None \<Rightarrow> c | Some ic \<Rightarrow> c\<lparr>pc_Image := ic_image ic\<rparr>)"
proof (induction entries arbitrary: c)
  case (Cons e entries)
  obtain n ic where e: "e = (n, ic)" by (cases e)
  have "pc_Name c = n \<Longrightarrow> map_of entries n = None" using Cons.prems e by (simp add: map_of_eq_None_iff)
  then show ?case using Cons e by (auto simp: set_image_def)
qed simp

text \<open>The pull secrets, when all entries carry the same one.\<close>
definition secret_op :: "pod \<Rightarrow> string \<Rightarrow> patch_op" where
  "secret_op p sec = (if length (pod_ImagePullSecrets p) = 0
     then \<lparr>po_Operation = ''add'', po_Path = ''/spec/imagePullSecrets'', po_Value = PatchSecrets [sec]\<rparr>
     else \<lparr>po_Operation = ''add'', po_Path = ''/spec/imagePullSecrets/-'', po_Value = PatchSecret sec\<rparr>)"

definition only_secret :: "pod \<Rightarrow> string \<Rightarrow> patch_op list \<Rightarrow> bool" where
  "only_secret p sec ops \<longleftrightarrow> (\<forall>x\<in>set ops. (\<exists>v. po_Value x = PatchString v) \<or> x = secret_op p sec)"

lemma apply_image_secrets: "po_Value x = PatchString v \<Longrightarrow> pod_ImagePullSecrets (apply_op x q) = pod_ImagePullSecrets q"
  by (simp add: apply_op_def split: option.splits)

lemma apply_secret_op:
  "pod_ImagePullSecrets (apply_op (secret_op p sec) q) = (if pod_ImagePullSecrets p = [] then [sec] else pod_ImagePullSecrets q @ [sec])"
  by (simp add: apply_op_def secret_op_def)

lemma patches_secrets:
  assumes "only_secret p sec ops" and "pod_ImagePullSecrets p = [] \<Longrightarrow> set (pod_ImagePullSecrets q) \<subseteq> {sec}"
  shows "set (pod_ImagePullSecrets (apply_patches ops q)) =
    set (pod_ImagePullSecrets q) \<union> (if secret_op p sec \<in> set ops then {sec} else {})"
  using assms
proof (induction ops arbitrary: q)
  case (Cons x ops)
  have ops: "only_secret p sec ops" using Cons.prems(1) by (simp add: only_secret_def)
  show ?case
  proof (cases "x = secret_op p sec")
    case True
    have q: "pod_ImagePullSecrets (apply_op x q) = (if pod_ImagePullSecrets p = [] then [sec] else pod_ImagePullSecrets q @ [sec])"
      by (simp add: True apply_secret_op)
    then have "pod_ImagePullSecrets p = [] \<Longrightarrow> set (pod_ImagePullSecrets (apply_op x q)) \<subseteq> {sec}" by simp
    from Cons.IH [OF ops this] show ?thesis using q True Cons.prems(2) by auto
  next
    case False
    then obtain v where "po_Value x = PatchString v" using Cons.prems(1) by (auto simp: only_secret_def)
    then have q: "pod_ImagePullSecrets (apply_op x q) = pod_ImagePullSecrets q" by (rule apply_image_secrets)
    from Cons.IH [OF ops] show ?thesis using q False Cons.prems(2) by auto
  qed
qed simp

lemma patch_list_member:
  "x \<in> set (patch_list p entries) \<longleftrightarrow> (\<exists>(n, ic)\<in>set entries. \<exists>i<length (pod_Containers p).
     pc_Name (pod_Containers p ! i) = n \<and> x \<in> set (container_patches p ic i))"
proof -
  have enum: "set (List.enumerate 0 cs) = {(i, cs ! i) |i. i < length cs}" for cs :: "pod_container list"
    by (auto simp: in_set_enumerate_eq)
  have "x \<in> set (name_patches p (n, ic)) \<longleftrightarrow> (\<exists>i<length (pod_Containers p). pc_Name (pod_Containers p ! i) = n \<and>
      x \<in> set (container_patches p ic i))" for n ic
    unfolding name_patches_def set_concat set_map enum fst_conv snd_conv by (auto split: if_splits)
  note one = this
  have "x \<in> set (patch_list p entries) \<longleftrightarrow> (\<exists>e\<in>set entries. x \<in> set (name_patches p e))" by (simp add: patch_list_def)
  also have "\<dots> \<longleftrightarrow> (\<exists>(n, ic)\<in>set entries. x \<in> set (name_patches p (n, ic)))" by (simp add: case_prod_unfold)
  finally show ?thesis unfolding one .
qed

lemma container_patches_secret:
  "ic_pullSecret ic = sec \<Longrightarrow> set (container_patches p ic i) =
    insert \<lparr>po_Operation = ''replace'', po_Path = image_path i, po_Value = PatchString (ic_image ic)\<rparr>
      (if sec \<noteq> [] \<and> sec \<notin> set (pod_ImagePullSecrets p) then {secret_op p sec} else {})"
  by (simp add: container_patches_def secret_op_def)

text \<open>The pod after the patches of a map with one pull secret.\<close>
definition patched :: "(string \<rightharpoonup> imageConfig) \<Rightarrow> pod \<Rightarrow> pod_container list" where
  "patched m p = map (\<lambda>c. case m (pc_Name c) of None \<Rightarrow> c | Some ic \<Rightarrow> c\<lparr>pc_Image := ic_image ic\<rparr>) (pod_Containers p)"

lemma patch_list_effect:
  fixes p :: pod
  assumes m: "one_secret sec m" and ks: "mset ks = mset (map fst m)"
  defines "ops \<equiv> patch_list p (map (\<lambda>k. (k, the (map_of m k))) ks)"
  shows "pod_Containers (apply_patches ops p) = patched (map_of m) p"
    and "set (pod_ImagePullSecrets (apply_patches ops p)) = set (pod_ImagePullSecrets p) \<union>
      (if sec \<noteq> [] \<and> (\<exists>c\<in>set (pod_Containers p). map_of m (pc_Name c) \<noteq> None) then {sec} else {})"
proof -
  let ?entries = "map (\<lambda>k. (k, the (map_of m k))) ks"
  have d: "distinct ks" "set ks = fst ` set m"
    using m mset_eq_imp_distinct_iff [OF ks] mset_eq_setD [OF ks] by (simp_all add: one_secret_def)
  have look: "map_of ?entries = map_of m" by (rule map_of_keys [OF d(2)])
  have dist: "distinct (map fst ?entries)" using d(1) by (simp add: comp_def)
  show "pod_Containers (apply_patches ops p) = patched (map_of m) p"
    unfolding ops_def patched_def using patch_list_containers [of p p ?entries] set_image_distinct [OF dist] look by simp
  have sec: "ic_pullSecret ic = sec" if "(n, ic) \<in> set ?entries" for n ic
  proof -
    have "map_of m n = Some ic" using that map_of_is_SomeI [OF dist that] look by simp
    then have "(n, ic) \<in> set m" by (rule map_of_SomeD)
    then show ?thesis using m by (auto simp: one_secret_def)
  qed
  have mem: "x \<in> set ops \<longleftrightarrow> (\<exists>(n, ic)\<in>set ?entries. \<exists>i<length (pod_Containers p). pc_Name (pod_Containers p ! i) = n \<and>
      (x = \<lparr>po_Operation = ''replace'', po_Path = image_path i, po_Value = PatchString (ic_image ic)\<rparr> \<or>
       x = secret_op p sec \<and> sec \<noteq> [] \<and> sec \<notin> set (pod_ImagePullSecrets p)))" for x
    unfolding ops_def patch_list_member
  proof (rule bex_cong [OF refl], clarify)
    fix n ic assume "(n, ic) \<in> set ?entries"
    from container_patches_secret [OF sec [OF this]]
    show "(\<exists>i<length (pod_Containers p). pc_Name (pod_Containers p ! i) = n \<and> x \<in> set (container_patches p ic i)) \<longleftrightarrow>
      (\<exists>i<length (pod_Containers p). pc_Name (pod_Containers p ! i) = n \<and>
       (x = \<lparr>po_Operation = ''replace'', po_Path = image_path i, po_Value = PatchString (ic_image ic)\<rparr> \<or>
        x = secret_op p sec \<and> sec \<noteq> [] \<and> sec \<notin> set (pod_ImagePullSecrets p)))" by auto
  qed
  have only: "only_secret p sec ops" unfolding only_secret_def
  proof
    fix x assume "x \<in> set ops"
    from this [unfolded mem] show "(\<exists>v. po_Value x = PatchString v) \<or> x = secret_op p sec" by auto
  qed
  have no: "secret_op p sec \<noteq> \<lparr>po_Operation = ''replace'', po_Path = y, po_Value = PatchString z\<rparr>" for y z
    by (simp add: secret_op_def)
  have "secret_op p sec \<in> set ops \<longleftrightarrow> sec \<noteq> [] \<and> sec \<notin> set (pod_ImagePullSecrets p) \<and>
      (\<exists>(n, ic)\<in>set ?entries. \<exists>i<length (pod_Containers p). pc_Name (pod_Containers p ! i) = n)"
    unfolding mem using no by auto
  also have "(\<exists>(n, ic)\<in>set ?entries. \<exists>i<length (pod_Containers p). pc_Name (pod_Containers p ! i) = n) \<longleftrightarrow>
      (\<exists>n\<in>set ks. n \<in> pc_Name ` set (pod_Containers p))"
    using nth_mem by (fastforce simp: in_set_conv_nth)
  also have "\<dots> \<longleftrightarrow> (\<exists>c\<in>set (pod_Containers p). pc_Name c \<in> set ks)" by blast
  also have "\<dots> \<longleftrightarrow> (\<exists>c\<in>set (pod_Containers p). map_of m (pc_Name c) \<noteq> None)"
    using d(2) by (auto simp: map_of_eq_None_iff)
  finally show "set (pod_ImagePullSecrets (apply_patches ops p)) = set (pod_ImagePullSecrets p) \<union>
      (if sec \<noteq> [] \<and> (\<exists>c\<in>set (pod_Containers p). map_of m (pc_Name c) \<noteq> None) then {sec} else {})"
    using patches_secrets [OF only, of p] by auto
qed

end
