(* ===== verification/ImageName.thy ===== *)
theory ImageName
  imports SimWorld
begin

text \<open>
  The name of the image a snapshot is committed to (\<^verbatim>\<open>withRandomTag\<close> and \<^verbatim>\<open>renderNewImageName\<close> of
  \<^verbatim>\<open>internal/controller/snapshotpod_controller.go\<close>): the placeholders of the format are replaced by
  the parts of the original reference, one after the other in the order Go ranges over a map, and the
  tag gets a suffix with the time and random hexadecimal digits. Parsing and printing of image
  references belong to the reference package and are operations of the environment.
\<close>

section \<open>The code\<close>

text \<open>\<^verbatim>\<open>time.Time.Unix\<close>: whole seconds since 1970, for a time counted from year 1.\<close>
definition unix_seconds :: "gotime \<Rightarrow> int" where
  "unix_seconds t = t div second_ns - 62135596800"

text \<open>The random part is the first eight of the 32 hexadecimal digits of a UUID.\<close>
definition withRandomTag :: "'w env \<Rightarrow> string \<Rightarrow> bool \<Rightarrow> ('w, string) go" where
  "withRandomTag E tag appendSnappedSuffix =
     (if \<not> appendSnappedSuffix then State_Monad.return tag
      else if str_contains tag ''snapped-'' then State_Monad.return tag
      else do {
        t \<leftarrow> time_now E;
        u \<leftarrow> in_world (env_uuid E);
        let suf = ''snapped-'' @ int_string (unix_seconds t) @ ''-'' @ take 8 (ReplaceAll u ''-'' []);
        State_Monad.return (if tag = [] \<or> tag = ''latest'' then suf else tag @ ''-'' @ suf)
      })"

text \<open>The loop over the map of placeholders, for one order of its entries.\<close>
definition expand_template :: "(string \<times> string) list \<Rightarrow> string \<Rightarrow> string" where
  "expand_template kvs fmt = foldl (\<lambda>f (k, v). ReplaceAll f (''{'' @ k @ ''}'') v) fmt kvs"

text \<open>The type switch over the parsed reference: its tag, else its digest, else nothing.\<close>
definition origin_tag :: "named_ref \<Rightarrow> string" where
  "origin_tag r = (case nr_Tag r of Some t \<Rightarrow> t | None \<Rightarrow> (case nr_DigestHex r of Some h \<Rightarrow> h | None \<Rightarrow> []))"

definition template_map :: "named_ref \<Rightarrow> (string \<times> string) list" where
  "template_map r = [(''domain'', nr_Domain r), (''repository'', nr_Path r),
     (''last_repository'', last (str_split (nr_Path r) ''/'')), (''tag'', origin_tag r)]"

definition renderNewImageName :: "'w env \<Rightarrow> string \<Rightarrow> string \<Rightarrow> bool \<Rightarrow> ('w, go_error + string) go" where
  "renderNewImageName E originImage fmt appendSnappedSuffix =
     (case env_parse_reference E (''//'' @ originImage) of
        Inl err \<Rightarrow> State_Monad.return (Inl err)
      | Inr r \<Rightarrow> do {
          ks \<leftarrow> in_world (env_map_order E (map fst (template_map r)));
          let expanded = expand_template (map (\<lambda>k. (k, the (map_of (template_map r) k))) ks) fmt;
          (case env_parse_reference E (''//'' @ expanded) of
             Inl err \<Rightarrow> State_Monad.return (Inl err)
           | Inr ref \<Rightarrow> do {
               newTag \<leftarrow> withRandomTag E (case nr_Tag ref of None \<Rightarrow> [] | Some t \<Rightarrow> t) appendSnappedSuffix;
               State_Monad.return (case env_with_tag E ref newTag of
                 Inl err \<Rightarrow> Inl err
               | Inr v \<Rightarrow> Inr (env_ref_string E v))
             })
        })"

section \<open>Templates\<close>

text \<open>
  A well-formed format is a sequence of literals and placeholders, none of which contains a brace.
  \<open>render\<close> is what it stands for; a placeholder that is not defined stands for itself.
\<close>
datatype token = Lit string | Var string

fun token_text :: "token \<Rightarrow> string" where
  "token_text (Lit s) = s"
| "token_text (Var k) = ''{'' @ k @ ''}''"

definition format_text :: "token list \<Rightarrow> string" where
  "format_text ts = concat (map token_text ts)"

definition brace_free :: "string \<Rightarrow> bool" where
  "brace_free s \<longleftrightarrow> CHR ''{'' \<notin> set s \<and> CHR ''}'' \<notin> set s"

fun token_ok :: "token \<Rightarrow> bool" where
  "token_ok (Lit s) = brace_free s"
| "token_ok (Var k) = brace_free k"

fun subst_token :: "(string \<rightharpoonup> string) \<Rightarrow> token \<Rightarrow> token" where
  "subst_token m (Lit s) = Lit s"
| "subst_token m (Var k) = (case m k of None \<Rightarrow> Var k | Some v \<Rightarrow> Lit v)"

definition render :: "(string \<rightharpoonup> string) \<Rightarrow> token list \<Rightarrow> string" where
  "render m ts = format_text (map (subst_token m) ts)"

lemma format_text_simps [simp]:
  "format_text [] = []" "format_text (t # ts) = token_text t @ format_text ts"
  by (simp_all add: format_text_def)

lemma ReplaceAll_literal:
  "CHR ''{'' \<notin> set s \<Longrightarrow> ReplaceAll (s @ rest) (CHR ''{'' # k) v = s @ ReplaceAll rest (CHR ''{'' # k) v"
  by (induction s) auto

lemma prefix_placeholder:
  assumes "brace_free k" and "brace_free k'"
  shows "prefix (k @ ''}'') (k' @ ''}'' @ rest) \<longleftrightarrow> k = k'"
  using assms
proof (induction k arbitrary: k')
  case Nil
  then show ?case by (cases k') (auto simp: brace_free_def)
next
  case (Cons c k)
  then show ?case by (cases k') (auto simp: brace_free_def)
qed

lemma ReplaceAll_format:
  assumes "list_all token_ok ts" and "brace_free k"
  shows "ReplaceAll (format_text ts) (''{'' @ k @ ''}'') v = format_text (map (subst_token [k \<mapsto> v]) ts)"
proof -
  define g where "g = subst_token [k \<mapsto> v]"
  have g [simp]: "g (Lit s) = Lit s" "g (Var k) = Lit v" "k' \<noteq> k \<Longrightarrow> g (Var k') = Var k'" for s k'
    by (simp_all add: g_def)
  have "ReplaceAll (format_text ts) (''{'' @ k @ ''}'') v = format_text (map g ts)"
    using assms(1)
  proof (induction ts)
    case (Cons t ts)
    show ?case
    proof (cases t)
      case (Lit s)
      then show ?thesis using Cons ReplaceAll_literal [of s "format_text ts" "k @ ''}''" v] by (simp add: brace_free_def)
    next
      case (Var k')
      have k': "brace_free k'" and IH: "ReplaceAll (format_text ts) (''{'' @ k @ ''}'') v = format_text (map g ts)"
        using Cons Var by auto
      show ?thesis
      proof (cases "k' = k")
        case True
        then show ?thesis using Var IH by simp
      next
        case False
        then have "\<not> prefix (k @ ''}'') (k' @ ''}'' @ format_text ts)" using prefix_placeholder [OF assms(2) k'] by simp
        moreover have "CHR ''{'' \<notin> set (k' @ ''}'')" using k' by (simp add: brace_free_def)
        ultimately show ?thesis
          using Var IH False ReplaceAll_literal [of "k' @ ''}''" "format_text ts" "k @ ''}''" v] by simp
      qed
    qed
  qed simp
  then show ?thesis by (simp only: g_def)
qed

lemma subst_token_ok: "token_ok t \<Longrightarrow> (\<And>k v. m k = Some v \<Longrightarrow> brace_free v) \<Longrightarrow> token_ok (subst_token m t)"
  by (cases t) (auto split: option.splits)

lemma subst_token_step:
  "k \<notin> dom m \<Longrightarrow> subst_token m (subst_token [k \<mapsto> v] t) = subst_token (m(k \<mapsto> v)) t"
  by (cases t) (auto split: option.splits)

lemma expand_format:
  assumes "list_all token_ok ts" and "distinct (map fst kvs)"
    and "\<And>k v. (k, v) \<in> set kvs \<Longrightarrow> brace_free k \<and> brace_free v"
  shows "expand_template kvs (format_text ts) = render (map_of kvs) ts"
  using assms
proof (induction kvs arbitrary: ts)
  case Nil
  have "subst_token Map.empty = id" by (rule ext) (metis eq_id_iff option.simps(4) subst_token.simps token.exhaust)
  then show ?case by (simp add: expand_template_def render_def)
next
  case (Cons kv kvs)
  obtain k v where kv: "kv = (k, v)" by (cases kv)
  have ok: "brace_free k" "brace_free v" and new: "k \<notin> dom (map_of kvs)"
    using Cons.prems kv by (auto simp: dom_map_of_conv_image_fst)
  have "list_all token_ok (map (subst_token [k \<mapsto> v]) ts)"
    using Cons.prems(1) ok by (auto simp: list_all_iff intro!: subst_token_ok split: if_splits)
  then have "expand_template kvs (format_text (map (subst_token [k \<mapsto> v]) ts)) =
      render (map_of kvs) (map (subst_token [k \<mapsto> v]) ts)"
    using Cons.prems kv by (intro Cons.IH) auto
  then show ?case
    using ReplaceAll_format [OF Cons.prems(1) ok(1)] subst_token_step [OF new]
    by (simp add: expand_template_def render_def kv comp_def fun_upd_def)
qed

lemma split_from_chars: "x \<in> set (split_from sep acc s) \<Longrightarrow> set x \<subseteq> set acc \<union> set s"
proof (induction sep acc s rule: split_from.induct)
  case (2 sep acc c cs)
  show ?case
  proof (cases "sep \<noteq> [] \<and> prefix sep (c # cs)")
    case True
    then have "x = rev acc \<or> x \<in> set (split_from sep [] (drop (length sep) (c # cs)))" using 2(3) by simp
    then show ?thesis using 2(1) [OF True] set_drop_subset [of "length sep" "c # cs"] by (elim disjE) force+
  next
    case False
    then show ?thesis using 2(2) [OF False] 2(3) by auto
  qed
qed simp

lemma brace_free_field: "brace_free s \<Longrightarrow> x \<in> set (str_split s sep) \<Longrightarrow> brace_free x"
  using split_from_chars [of x sep "[]" s] by (auto simp: brace_free_def str_split_def)

section \<open>Properties\<close>

text \<open>C27: on a well-formed format the placeholders are expanded simultaneously, whatever the order in which
  Go ranges over the map: the result is the format with every defined placeholder replaced by its
  value and every other text, undefined placeholders included, as it was. The values are parts of an
  image reference, whose grammar has no braces.\<close>
theorem template_order_independent:
  assumes "list_all token_ok ts" and "brace_free (nr_Domain r)" and "brace_free (nr_Path r)" and "brace_free (origin_tag r)"
    and "mset ks = mset (map fst (template_map r))"
  shows "expand_template (map (\<lambda>k. (k, the (map_of (template_map r) k))) ks) (format_text ts) =
    render (map_of (template_map r)) ts"
proof -
  let ?m = "template_map r" and ?kvs = "map (\<lambda>k. (k, the (map_of (template_map r) k))) ks"
  have d: "distinct (map fst ?m)" by (simp add: template_map_def)
  have ks: "distinct ks" "set ks = set (map fst ?m)"
    using d assms(5) by (metis mset_eq_imp_distinct_iff, metis mset_eq_setD)
  have "brace_free (last (str_split (nr_Path r) ''/''))"
    by (rule brace_free_field [OF assms(3), where sep = "''/''"]) (simp add: str_split_def)
  then have ok: "brace_free k \<and> brace_free v" if "(k, v) \<in> set ?m" for k v
    using that assms by (auto simp: template_map_def brace_free_def)
  have look: "map_of ?kvs = map_of ?m" using map_of_keys [of ks ?m] ks(2) by simp
  have vals: "brace_free k \<and> brace_free v" if "(k, v) \<in> set ?kvs" for k v
  proof -
    have "map_of ?kvs k = Some v" using that ks(1) by (intro map_of_is_SomeI) (auto simp: comp_def)
    then show ?thesis using ok look by (metis map_of_SomeD)
  qed
  have "distinct (map fst ?kvs)" using ks(1) by (simp add: comp_def)
  from expand_format [OF assms(1) this vals] show ?thesis by (simp only: look)
qed

definition sample_ref :: named_ref where
  "sample_ref = \<lparr>nr_Domain = ''docker.io'', nr_Path = ''library/nginx'', nr_Tag = Some ''1.27'', nr_DigestHex = None\<rparr>"

theorem template_order_independent_witness:
  "expand_template (map (\<lambda>k. (k, the (map_of (template_map sample_ref) k))) [''tag'', ''repository'', ''domain'', ''last_repository''])
     (format_text [Lit ''reg.io/'', Var ''last_repository'', Lit '':'', Var ''tag'']) =
   render (map_of (template_map sample_ref)) [Lit ''reg.io/'', Var ''last_repository'', Lit '':'', Var ''tag''] \<and>
   render (map_of (template_map sample_ref)) [Lit ''reg.io/'', Var ''last_repository'', Lit '':'', Var ''tag''] = ''reg.io/nginx:1.27''"
proof
  show "expand_template (map (\<lambda>k. (k, the (map_of (template_map sample_ref) k))) [''tag'', ''repository'', ''domain'', ''last_repository''])
     (format_text [Lit ''reg.io/'', Var ''last_repository'', Lit '':'', Var ''tag'']) =
   render (map_of (template_map sample_ref)) [Lit ''reg.io/'', Var ''last_repository'', Lit '':'', Var ''tag'']"
    by (rule template_order_independent)
      (simp_all add: brace_free_def sample_ref_def origin_tag_def template_map_def)
qed (code_simp)

text \<open>With nested braces the order does matter.\<close>
lemma template_order_matters:
  "expand_template [(''tag'', ''domain''), (''domain'', ''docker.io'')] ''{{tag}}'' \<noteq>
   expand_template [(''domain'', ''docker.io''), (''tag'', ''domain'')] ''{{tag}}''"
  by (simp add: expand_template_def)

lemma snapped_contains [simp]: "str_contains (a @ ''snapped-'' @ b) ''snapped-''" "str_contains (''snapped-'' @ b) ''snapped-''"
  using str_contains_append [of a "''snapped-''" b] str_contains_append [of "[]" "''snapped-''" b] by simp_all

lemma withRandomTag_fresh:
  assumes "\<not> str_contains tag ''snapped-''" and "run_state (withRandomTag E tag True) s = (tag', s')"
  obtains rest where "tag' = (if tag = [] \<or> tag = ''latest'' then [] else tag @ ''-'') @ ''snapped-'' @ rest"
proof
  show "tag' = (if tag = [] \<or> tag = ''latest'' then [] else tag @ ''-'') @ ''snapped-'' @
      int_string (unix_seconds (fst (run_state (time_now E) s))) @ ''-'' @
      take 8 (ReplaceAll (fst (run_state (in_world (env_uuid E)) (snd (run_state (time_now E) s)))) ''-'' [])"
    using assms by (auto simp: withRandomTag_def Let_def)
qed

text \<open>C26: with the suffix on, the new tag is marked as a snapshot, and it is a fixed point: rendering the image
  name of a container that already runs a snapshot keeps its tag, whatever the option, the clock and
  the random source, so that suffixes do not pile up over the rounds.\<close>
theorem snapped_tag_stable:
  assumes "run_state (withRandomTag E tag True) s = (tag', s')"
  shows "str_contains tag' ''snapped-'' \<and> run_state (withRandomTag E2 tag' b) s2 = (tag', s2)"
proof -
  have "str_contains tag' ''snapped-''"
  proof (cases "str_contains tag ''snapped-''")
    case True
    then show ?thesis using assms by (simp add: withRandomTag_def)
  next
    case False
    then obtain rest where "tag' = (if tag = [] \<or> tag = ''latest'' then [] else tag @ ''-'') @ ''snapped-'' @ rest"
      by (rule withRandomTag_fresh [OF _ assms])
    then show ?thesis by (simp only: snapped_contains(1))
  qed
  then show ?thesis by (simp add: withRandomTag_def)
qed

theorem snapped_tag_stable_witness:
  "str_contains (fst (run_state (withRandomTag sim_env ''1.27'' True) (sim_state sim_start))) ''snapped-'' \<and>
   run_state (withRandomTag sim_env (fst (run_state (withRandomTag sim_env ''1.27'' True) (sim_state sim_start))) True) (sim_state sim_start) =
     (fst (run_state (withRandomTag sim_env ''1.27'' True) (sim_state sim_start)), sim_state sim_start)"
  by (rule snapped_tag_stable [OF prod.collapse [symmetric]])

text \<open>A tag that is not a snapshot yet is never reused: the new tag differs from it, and unless the tag is
  empty or \<^verbatim>\<open>latest\<close> it is the old tag followed by \<^verbatim>\<open>-snapped-\<close> and more, so a commit does not replace the
  image it was made from.\<close>
theorem snapped_tag_extends:
  assumes "\<not> str_contains tag ''snapped-''" and "run_state (withRandomTag E tag True) s = (tag', s')"
  shows "tag' \<noteq> tag \<and> (tag \<noteq> [] \<and> tag \<noteq> ''latest'' \<longrightarrow> prefix (tag @ ''-snapped-'') tag')"
proof (rule withRandomTag_fresh [OF assms])
  fix rest
  assume "tag' = (if tag = [] \<or> tag = ''latest'' then [] else tag @ ''-'') @ ''snapped-'' @ rest"
  then show ?thesis by (auto simp: prefix_def)
qed

theorem snapped_tag_extends_witness:
  "prefix ''1.27-snapped-'' (fst (run_state (withRandomTag sim_env ''1.27'' True) (sim_state sim_start)))"
  using snapped_tag_extends [OF _ prod.collapse [symmetric], of "''1.27''" sim_env "sim_state sim_start"] by simp

end
