(* ===== verification/PodController.thy ===== *)
theory PodController
  imports Conditions ImageName
begin

text \<open>
  \<^verbatim>\<open>internal/controller/snapshotpod_controller.go\<close>: the reconciler that turns a trigger round of a
  \<^verbatim>\<open>SnapshotPod\<close> into one task per container and collects the results. One definition per method. The
  steps of \<^verbatim>\<open>Reconcile\<close> work on a pointer, so a step returns the object as it left it, also when it
  fails.
\<close>

section \<open>The target pod\<close>

definition getPod :: "'w env \<Rightarrow> SnapshotPod \<Rightarrow> ('w, go_error + pod) go" where
  "getPod E sp =
     (let target = sps_Target (sp_Spec sp) in
      if tp_Name target = [] \<and> tp_Selector target = None
      then State_Monad.return (Inl (PlainError ''target pod name or selector is required''))
      else if tp_Name target \<noteq> [] then in_world (env_get_pod E (om_Namespace (sp_meta sp)) (tp_Name target))
      else do {
        res \<leftarrow> in_world (env_list_pods E (om_Namespace (sp_meta sp)) (tp_Selector target));
        State_Monad.return (case res of
          Inl err \<Rightarrow> Inl (PlainError (''failed to list pods: '' @ error_text err))
        | Inr pods \<Rightarrow>
            (case filter (\<lambda>p. pod_Phase p = PodRunning) pods of
               [] \<Rightarrow> Inl (PlainError (''no running pod found with selector '' @ map_string (tp_Selector target)))
             | [p] \<Rightarrow> Inr p
             | ps \<Rightarrow> Inl (PlainError (''multiple running pods found with selector ''
                 @ map_string (tp_Selector target) @ '': '' @ str_join (map (\<lambda>p. om_Name (pod_meta p)) ps) '', ''))))
      })"

definition pod_validate :: "'w env \<Rightarrow> SnapshotPod \<Rightarrow> ('w, go_error option) go" where
  "pod_validate E sp =
     (if spst_LastTriggerRound (sp_Status sp) = sps_TriggerRound (sp_Spec sp) then State_Monad.return None
      else do {
        res \<leftarrow> getPod E sp;
        State_Monad.return (case res of
          Inl err \<Rightarrow> Some err
        | Inr p \<Rightarrow>
            (let wanted = tp_Containers (sps_Target (sp_Spec sp)) in
             if length wanted \<noteq> 0 \<and> length (Without wanted (map pc_Name (pod_Containers p))) \<noteq> 0
             then Some (PlainError (''containers '' @ strings_string wanted @ '' not valid''))
             else None))
      })"

section \<open>Creating the tasks of a round\<close>

definition snapshotPodOwner :: "'w env \<Rightarrow> SnapshotPod \<Rightarrow> owner_reference" where
  "snapshotPodOwner E s = env_new_controller_ref E (sp_meta s) GroupVersion ''SnapshotPod''"

text \<open>\<^verbatim>\<open>fmt.Sprintf("%s-%d-%s", sp.Name, sp.Spec.TriggerRound, c)\<close>\<close>
definition task_name :: "string \<Rightarrow> int32 \<Rightarrow> string \<Rightarrow> string" where
  "task_name sp_name trigger c = sp_name @ ''-'' @ int_string (sint trigger) @ ''-'' @ c"

definition new_task ::
  "'w env \<Rightarrow> SnapshotPod \<Rightarrow> pod \<Rightarrow> string \<Rightarrow> container_status \<Rightarrow> string \<Rightarrow> SnapshotPodTask" where
  "new_task E sp p c cs newImage =
     (let opts = sps_ImageSaveOptions (sp_Spec sp) in \<lparr>
       spt_meta = \<lparr>om_Name = task_name (om_Name (sp_meta sp)) (sps_TriggerRound (sp_Spec sp)) c,
         om_Namespace = om_Namespace (sp_meta sp), om_UID = [], om_ResourceVersion = 0,
         om_Labels = Some [(SnapshotNameLabel, om_Name (sp_meta sp))],
         om_OwnerReferences = [snapshotPodOwner E sp], om_CreationTimestamp = 0, om_DeletionTimestamp = None\<rparr>,
       spt_Spec = \<lparr>spts_NodeName = pod_NodeName p, spts_PodName = om_Name (pod_meta p),
         spts_ContainerID = cs_ContainerID cs, spts_CommitOptions = sps_CommitOptions (sp_Spec sp),
         spts_OriginImage = cs_Image cs, spts_OriginRegistrySecretRef = [], spts_CommitImage = newImage,
         spts_RegistrySecretRef = iso_RegistrySecretRef opts, spts_MaxRetries = iso_MaxRetries opts,
         spts_RetryDelaySeconds = iso_RetryDelaySeconds opts\<rparr>,
       spt_Status = empty_task_status\<rparr>)"

definition set_sp_status :: "(SnapshotPodStatus \<Rightarrow> SnapshotPodStatus) \<Rightarrow> SnapshotPod \<Rightarrow> SnapshotPod" where
  "set_sp_status f sp = sp\<lparr>sp_Status := f (sp_Status sp)\<rparr>"

text \<open>More than 20 entries are cut down to the last 5.\<close>
definition keep_last :: "SnapshotRunningStatus list \<Rightarrow> SnapshotRunningStatus list" where
  "keep_last xs = (if 20 < length xs then drop (length xs - 5) xs else xs)"

definition append_snapped_suffix :: "SnapshotPod \<Rightarrow> bool" where
  "append_snapped_suffix sp = (case iso_AppendSnappedSuffix (sps_ImageSaveOptions (sp_Spec sp)) of None \<Rightarrow> True | Some b \<Rightarrow> b)"

text \<open>The entry of a task, created or found to exist already, in the list of snapshots.\<close>
definition record_snapshot :: "SnapshotPod \<Rightarrow> string \<Rightarrow> SnapshotPodTask \<Rightarrow> gotime \<Rightarrow> SnapshotPod" where
  "record_snapshot sp c spt t = set_sp_status (\<lambda>st. st\<lparr>spst_Snapshots := keep_last (spst_Snapshots st @ [\<lparr>
     srs_TriggerRound = sps_TriggerRound (sp_Spec sp), srs_TriggerTime = t, srs_TaskName = om_Name (spt_meta spt),
     srs_ImageRef = spts_CommitImage (spt_Spec spt), srs_ContainerName = c, srs_Result = ResultCreated,
     srs_FailedReason = [], srs_CompletedAt = None\<rparr>])\<rparr>) sp"

text \<open>One iteration of the loop over the containers.\<close>
definition snapshot_container :: "'w env \<Rightarrow> pod \<Rightarrow> string \<Rightarrow> SnapshotPod \<Rightarrow> ('w, SnapshotPod \<times> go_error option) go" where
  "snapshot_container E p c sp =
     (case filter (\<lambda>cs. cs_Name cs = c) (pod_ContainerStatuses p) of
        [] \<Rightarrow> State_Monad.return (sp, Some (PlainError (''container status of '' @ om_Namespace (pod_meta p) @ ''/''
          @ om_Name (pod_meta p) @ ''/'' @ c @ '' not found'')))
      | cs # _ \<Rightarrow>
          if cs_ContainerID cs = [] then State_Monad.return (sp, Some (PlainError (''container '' @ c @ '' not started'')))
          else do {
            img \<leftarrow> renderNewImageName E (cs_Image cs) (iso_ImageRefFormat (sps_ImageSaveOptions (sp_Spec sp)))
              (append_snapped_suffix sp);
            (case img of
               Inl err \<Rightarrow> State_Monad.return (sp, Some err)
             | Inr newImage \<Rightarrow> do {
                 let spt = new_task E sp p c cs newImage;
                 res \<leftarrow> in_world (env_create_task E spt);
                 (case res of
                    Inl err \<Rightarrow>
                      if IsAlreadyExists err then do { t \<leftarrow> time_now E; State_Monad.return (record_snapshot sp c spt t, None) }
                      else State_Monad.return (sp, Some err)
                  | Inr spt' \<Rightarrow> do { t \<leftarrow> time_now E; State_Monad.return (record_snapshot sp c spt' t, None) })
               })
          })"

fun snapshot_containers :: "'w env \<Rightarrow> pod \<Rightarrow> string list \<Rightarrow> SnapshotPod \<Rightarrow> ('w, SnapshotPod \<times> go_error option) go" where
  "snapshot_containers E p [] sp = State_Monad.return (sp, None)"
| "snapshot_containers E p (c # cs) sp = do {
     (sp1, err) \<leftarrow> snapshot_container E p c sp;
     (case err of Some e \<Rightarrow> State_Monad.return (sp1, Some e) | None \<Rightarrow> snapshot_containers E p cs sp1)
   }"

definition wanted_containers :: "SnapshotPod \<Rightarrow> pod \<Rightarrow> string list" where
  "wanted_containers sp p = (if length (tp_Containers (sps_Target (sp_Spec sp))) \<noteq> 0
     then tp_Containers (sps_Target (sp_Spec sp)) else map pc_Name (pod_Containers p))"

definition reconcileTasks :: "'w env \<Rightarrow> SnapshotPod \<Rightarrow> ('w, SnapshotPod \<times> go_error option) go" where
  "reconcileTasks E sp =
     (if spst_LastTriggerRound (sp_Status sp) = sps_TriggerRound (sp_Spec sp) then State_Monad.return (sp, None)
      else if list_ex (\<lambda>s. srs_TriggerRound s = sps_TriggerRound (sp_Spec sp)) (spst_Snapshots (sp_Status sp))
      then State_Monad.return
        (set_sp_status (\<lambda>st. st\<lparr>spst_LastTriggerRound := sps_TriggerRound (sp_Spec sp)\<rparr>) sp, None)
      else do {
        res \<leftarrow> getPod E sp;
        (case res of
           Inl err \<Rightarrow> State_Monad.return (sp, Some err)
         | Inr p \<Rightarrow> snapshot_containers E p (wanted_containers sp p) sp)
      })"

section \<open>Collecting the results\<close>

text \<open>The messages of the conditions that do not hold.\<close>
definition failed_reason :: "SnapshotPodTask \<Rightarrow> string" where
  "failed_reason spt = str_join (map cond_Message
     (filter (\<lambda>c. cond_Status c \<noteq> ConditionTrue) (sptst_Conditions (spt_Status spt)))) '', ''"

definition update_snapshot ::
  "'w env \<Rightarrow> (string \<rightharpoonup> SnapshotPodTask) \<Rightarrow> SnapshotRunningStatus \<Rightarrow> ('w, SnapshotRunningStatus) go" where
  "update_snapshot E sptMap s =
     (if terminal_result (srs_Result s) then State_Monad.return s
      else (case sptMap (srs_TaskName s) of
          None \<Rightarrow> State_Monad.return (s\<lparr>srs_Result := ResultCreated, srs_FailedReason := ''can not fetch task''\<rparr>)
        | Some spt \<Rightarrow>
            if sptst_Phase (spt_Status spt) = PhaseCompleted then do {
              t \<leftarrow> time_now E;
              State_Monad.return (s\<lparr>srs_Result := ResultSuccess, srs_CompletedAt := Some t\<rparr>)
            }
            else if sptst_Phase (spt_Status spt) = PhaseFailed
            then State_Monad.return (s\<lparr>srs_Result := ResultFailed, srs_FailedReason := failed_reason spt\<rparr>)
            else State_Monad.return s))"

fun update_snapshots ::
  "'w env \<Rightarrow> (string \<rightharpoonup> SnapshotPodTask) \<Rightarrow> SnapshotRunningStatus list \<Rightarrow> ('w, SnapshotRunningStatus list) go" where
  "update_snapshots E sptMap [] = State_Monad.return []"
| "update_snapshots E sptMap (s # ss) = do {
     s1 \<leftarrow> update_snapshot E sptMap s;
     ss1 \<leftarrow> update_snapshots E sptMap ss;
     State_Monad.return (s1 # ss1)
   }"

definition reconcileTasksStatus :: "'w env \<Rightarrow> SnapshotPod \<Rightarrow> ('w, SnapshotPod \<times> go_error option) go" where
  "reconcileTasksStatus E sp = do {
     res \<leftarrow> in_world (env_list_tasks E (Some [(SnapshotNameLabel, om_Name (sp_meta sp))]));
     (case res of
        Inl err \<Rightarrow> State_Monad.return (sp, Some err)
      | Inr items \<Rightarrow> do {
          let sptMap = SliceToMap items (\<lambda>item. (om_Name (spt_meta item), item));
          snaps \<leftarrow> update_snapshots E sptMap (spst_Snapshots (sp_Status sp));
          State_Monad.return (set_sp_status (\<lambda>st. st\<lparr>spst_Snapshots := snaps\<rparr>) sp, None)
        })
   }"

section \<open>Reconcile\<close>

type_synonym 'w pod_rec = "string \<times> (SnapshotPod \<Rightarrow> ('w, SnapshotPod \<times> go_error option) go)"

definition pod_recs :: "'w env \<Rightarrow> 'w pod_rec list" where
  "pod_recs E = [
     (''Accept'', \<lambda>sp. do { err \<leftarrow> pod_validate E sp; State_Monad.return (sp, err) }),
     (''Tasks'', reconcileTasks E),
     (''TaskStatus'', reconcileTasksStatus E)]"

definition set_pod_condition :: "nat \<Rightarrow> (condition \<Rightarrow> condition) \<Rightarrow> SnapshotPod \<Rightarrow> SnapshotPod" where
  "set_pod_condition i f = set_sp_status (\<lambda>st. st\<lparr>spst_Conditions :=
     (spst_Conditions st)[i := f (spst_Conditions st ! i)]\<rparr>)"

fun run_pod_recs :: "'w env \<Rightarrow> 'w pod_rec list \<Rightarrow> SnapshotPod \<Rightarrow> ('w, SnapshotPod) go" where
  "run_pod_recs E [] sp = State_Monad.return sp"
| "run_pod_recs E ((typ, step) # recs) sp = do {
     (conds, i) \<leftarrow> ensure_condition E typ (spst_Conditions (sp_Status sp));
     let old = conds ! i;
     (sp1, err) \<leftarrow> step (set_sp_status (\<lambda>st. st\<lparr>spst_Conditions := conds\<rparr>) sp);
     (case err of
        Some e \<Rightarrow> State_Monad.return
          (set_pod_condition i (\<lambda>c. c\<lparr>cond_Status := ConditionFalse, cond_Message := error_text e\<rparr>) sp1)
      | None \<Rightarrow> do {
          let sp2 = set_pod_condition i (\<lambda>c. c\<lparr>cond_Status := ConditionTrue\<rparr>) sp1;
          sp3 \<leftarrow> (if \<not> cmpConditionWithoutTime old (spst_Conditions (sp_Status sp2) ! i)
            then do { t \<leftarrow> time_now E; State_Monad.return (set_pod_condition i (\<lambda>c. c\<lparr>cond_LastTransitionTime := t\<rparr>) sp2) }
            else State_Monad.return sp2);
          run_pod_recs E recs sp3
        })
   }"

text \<open>Whether the object needs another look: a snapshot is not final or a condition does not hold.\<close>
definition unfinished :: "SnapshotPod \<Rightarrow> bool" where
  "unfinished sp \<longleftrightarrow> list_ex (\<lambda>s. \<not> terminal_result (srs_Result s)) (spst_Snapshots (sp_Status sp)) \<or>
     list_ex (\<lambda>c. cond_Status c \<noteq> ConditionTrue) (spst_Conditions (sp_Status sp))"

definition Pod_Reconcile :: "'w env \<Rightarrow> string \<Rightarrow> string \<Rightarrow> ('w, ctrl_Result \<times> go_error option) go" where
  "Pod_Reconcile E ns nm = do {
     startTime \<leftarrow> time_now E;
     got \<leftarrow> in_world (env_get_snapshotpod E ns nm);
     (case got of
        Inl err \<Rightarrow> do {
          RecordControllerError ''snapshotpod'' ''get_instance_error'';
          t \<leftarrow> time_now E;
          RecordControllerReconcile ''snapshotpod'' ControllerResultError (t - startTime);
          State_Monad.return (no_requeue, Some err)
        }
      | Inr sp \<Rightarrow>
          if sint (sps_TriggerRound (sp_Spec sp)) \<le> 0 then State_Monad.return (no_requeue, None)
          else do {
            sp1 \<leftarrow> run_pod_recs E (pod_recs E) sp;
            u \<leftarrow> in_world (env_update_snapshotpod_status E sp1);
            (case u of
               Inl err \<Rightarrow> State_Monad.return (no_requeue, Some err)
             | Inr sp2 \<Rightarrow>
                 if unfinished sp2 then do {
                   t \<leftarrow> time_now E;
                   RecordControllerReconcile ''snapshotpod'' ControllerResultRequeue (t - startTime);
                   State_Monad.return (\<lparr>RequeueAfter = 15 * second_ns\<rparr>, None)
                 } else do {
                   t \<leftarrow> time_now E;
                   RecordControllerReconcile ''snapshotpod'' ControllerResultSuccess (t - startTime);
                   State_Monad.return (no_requeue, None)
                 })
          })
   }"

end
