(* ===== verification/PodProperties.thy ===== *)
theory PodProperties
  imports PodController
begin

text \<open>
  What a call of \<open>Pod_Reconcile\<close> does to the cluster: tasks are only added, with an empty status, and
  of the \<^verbatim>\<open>SnapshotPod\<close> objects only the status of the one it was called for changes. The relation
  \<open>grown\<close> is the frame of the steps, \<open>pod_moves\<close> the invariant of the object they work on.
\<close>

section \<open>Frames\<close>

definition grown ::
  "('w \<Rightarrow> (string \<times> string \<rightharpoonup> SnapshotPodTask)) \<Rightarrow> ('w \<Rightarrow> (string \<times> string \<rightharpoonup> SnapshotPod)) \<Rightarrow> 'w gstate \<Rightarrow> 'w gstate \<Rightarrow> bool" where
  "grown tasks sps s s' \<longleftrightarrow> sps (gs_world s') = sps (gs_world s) \<and> tasks (gs_world s) \<subseteq>\<^sub>m tasks (gs_world s') \<and>
     (\<forall>k t. tasks (gs_world s') k = Some t \<and> tasks (gs_world s) k = None \<longrightarrow> spt_Status t = empty_task_status)"

lemma grown_trans:
  assumes "grown tasks sps s t" and "grown tasks sps t u"
  shows "grown tasks sps s u"
proof -
  have "spt_Status x = empty_task_status" if x: "tasks (gs_world u) k = Some x" and k: "tasks (gs_world s) k = None" for k x
  proof (cases "tasks (gs_world t) k")
    case None
    then show ?thesis using assms(2) x unfolding grown_def by blast
  next
    case (Some y)
    have "tasks (gs_world t) \<subseteq>\<^sub>m tasks (gs_world u)" using assms(2) by (simp add: grown_def)
    then have "x = y" using Some x by (metis domI map_le_def option.inject)
    then show ?thesis using assms(1) Some k unfolding grown_def by blast
  qed
  moreover have "tasks (gs_world s) \<subseteq>\<^sub>m tasks (gs_world u)"
    using assms by (auto simp: grown_def intro: map_le_trans)
  ultimately show ?thesis using assms unfolding grown_def by auto
qed

interpretation grown_frame: frame_rel "grown tasks sps" for tasks :: "'w \<Rightarrow> (string \<times> string \<rightharpoonup> SnapshotPodTask)"
    and sps :: "'w \<Rightarrow> (string \<times> string \<rightharpoonup> SnapshotPod)"
proof
  show "grown tasks sps s s" for s by (auto simp: grown_def)
  show "grown tasks sps s t \<Longrightarrow> grown tasks sps t u \<Longrightarrow> grown tasks sps s u" for s t u by (rule grown_trans)
qed

text \<open>\<open>still\<close>: neither store changes.\<close>
definition still ::
  "('w \<Rightarrow> (string \<times> string \<rightharpoonup> SnapshotPodTask)) \<Rightarrow> ('w \<Rightarrow> (string \<times> string \<rightharpoonup> SnapshotPod)) \<Rightarrow> 'w gstate \<Rightarrow> 'w gstate \<Rightarrow> bool" where
  "still tasks sps s s' \<longleftrightarrow> sps (gs_world s') = sps (gs_world s) \<and> tasks (gs_world s') = tasks (gs_world s)"

interpretation still_frame: frame_rel "still tasks sps" for tasks :: "'w \<Rightarrow> (string \<times> string \<rightharpoonup> SnapshotPodTask)"
    and sps :: "'w \<Rightarrow> (string \<times> string \<rightharpoonup> SnapshotPod)"
  by unfold_locales (auto simp: still_def)

lemma still_grown: "still tasks sps s t \<Longrightarrow> grown tasks sps s t"
  by (auto simp: still_def grown_def)

lemma keeps_still_grown: "keeps (still tasks sps) m \<Longrightarrow> keeps (grown tasks sps) m"
  by (auto simp: keeps_def intro: still_grown)

lemma still_in_world:
  "(\<And>w. tasks (snd (run_state m w)) = tasks w) \<Longrightarrow> (\<And>w. sps (snd (run_state m w)) = sps w) \<Longrightarrow>
   keeps (still tasks sps) (in_world m)"
  by (simp add: keeps_def still_def)

lemma still_record:
  "keeps (still tasks sps) (RecordControllerReconcile a b d)" "keeps (still tasks sps) (RecordControllerError a b)"
  by (simp_all add: keeps_def still_def record_defs)

text \<open>
  What the steps of the controller need of a frame: every operation they call stays in it. The frame is a
  parameter, for the stores as they are when nobody else writes, and for the moves of other writers.
\<close>
locale pod_ops = frame_rel R for R :: "'w gstate \<Rightarrow> 'w gstate \<Rightarrow> bool" +
  fixes E :: "'w env"
  assumes R_now: "keeps R (time_now E)"
    and R_emit: "keeps R (emit ops)"
    and R_get_pod: "keeps R (in_world (env_get_pod E ns nm))"
    and R_list_pods: "keeps R (in_world (env_list_pods E ns sel))"
    and R_uuid: "keeps R (in_world (env_uuid E))"
    and R_order: "keeps R (in_world (env_map_order E ks))"
    and R_list_tasks: "keeps R (in_world (env_list_tasks E lbl))"
begin

lemma frame_getPod: "keeps R (getPod E sp)"
  unfolding getPod_def Let_def by (intro keeps_rules R_get_pod R_list_pods)

lemma frame_validate: "keeps R (pod_validate E sp)"
  unfolding pod_validate_def by (intro keeps_rules frame_getPod)

lemma frame_randomTag: "keeps R (withRandomTag E tag b)"
  unfolding withRandomTag_def Let_def by (intro keeps_rules R_now R_uuid)

lemma frame_render: "keeps R (renderNewImageName E img fmt b)"
  unfolding renderNewImageName_def Let_def by (intro keeps_rules frame_randomTag R_order)

lemma frame_ensure: "keeps R (ensure_condition E n conds)"
  unfolding ensure_condition_def by (intro keeps_rules R_now)

lemma frame_update_snapshots: "keeps R (update_snapshots E m ss)"
proof (induction ss)
  case (Cons s ss)
  have "keeps R (update_snapshot E m s)" unfolding update_snapshot_def by (intro keeps_rules R_now)
  with Cons show ?case by (simp only: update_snapshots.simps) (intro keeps_rules)
qed (simp add: keeps_return)

lemma frame_status: "keeps R (reconcileTasksStatus E sp)"
  unfolding reconcileTasksStatus_def Let_def by (intro keeps_rules frame_update_snapshots R_list_tasks)

lemma frame_record:
  "keeps R (RecordControllerReconcile a b d)" "keeps R (RecordControllerError a b)"
  by (simp_all add: record_defs R_emit)

end

context cluster_store
begin

lemma still_now: "keeps (still tasks sps) (time_now E)"
  unfolding time_now_def by (intro still_in_world obs_now sp_os.obs_now)

end

sublocale cluster_store \<subseteq> still_ops: pod_ops "still tasks sps" E
  by unfold_locales (auto simp: still_def keeps_def obs_now sp_os.obs_now get_pod_tasks get_pod_sps list_pods_tasks
    list_pods_sps uuid_tasks uuid_sps order_tasks order_sps list_tasks_tasks list_tasks_sps)

context cluster_store
begin

lemmas still_getPod = still_ops.frame_getPod
lemmas still_validate = still_ops.frame_validate
lemmas still_render = still_ops.frame_render
lemmas still_ensure = still_ops.frame_ensure
lemmas still_status = still_ops.frame_status

text \<open>The one call that changes the stores before the final update.\<close>
lemma create_effect:
  assumes "run_state (env_create_task E t) w = (res, w')"
  shows "sps w' = sps w \<and> (tasks w' = tasks w \<or>
    tasks w (task_key t) = None \<and> (\<exists>t'. created t t' \<and> tasks w' = (tasks w)(task_key t \<mapsto> t')))"
  using assms create_ok [of t w] create_err [of t w] create_sps [of t w] by (cases res) force+

lemma grown_create: "keeps (grown tasks sps) (in_world (env_create_task E t))"
proof (rule keepsI)
  fix s a s'
  assume "run_state (in_world (env_create_task E t)) s = (a, s')"
  then have s': "s' = s\<lparr>gs_world := snd (run_state (env_create_task E t) (gs_world s))\<rparr>" by simp
  have *: "run_state (env_create_task E t) (gs_world s) = (fst (run_state (env_create_task E t) (gs_world s)), gs_world s')"
    using s' by simp
  from create_effect [OF *] show "grown tasks sps s s'"
    by (auto simp: grown_def map_le_def created_def split: if_splits)
qed

end

section \<open>The object the steps work on\<close>

text \<open>A task of that name is completed.\<close>
definition completed_task :: "(string \<times> string \<rightharpoonup> SnapshotPodTask) \<Rightarrow> string \<Rightarrow> bool" where
  "completed_task m nm \<longleftrightarrow> (\<exists>k t. m k = Some t \<and> om_Name (spt_meta t) = nm \<and> sptst_Phase (spt_Status t) = PhaseCompleted)"

text \<open>At most 20 entries, and one that is reported successful has its completed task.\<close>
definition snaps_ok :: "(string \<times> string \<rightharpoonup> SnapshotPodTask) \<Rightarrow> SnapshotRunningStatus list \<Rightarrow> bool" where
  "snaps_ok m ss \<longleftrightarrow> length ss \<le> 20 \<and> (\<forall>e\<in>set ss. srs_Result e = ResultSuccess \<longrightarrow> completed_task m (srs_TaskName e))"

text \<open>A listing is truthful about completed tasks: a task of that name is completed.\<close>
definition truthful_lists ::
  "'w env \<Rightarrow> ('w \<Rightarrow> (string \<times> string \<rightharpoonup> SnapshotPodTask)) \<Rightarrow> 'w gstate \<Rightarrow> bool" where
  "truthful_lists E tasks s \<longleftrightarrow> (\<forall>w sel ts t. tasks (gs_world s) \<subseteq>\<^sub>m tasks w \<and>
     fst (run_state (env_list_tasks E sel) w) = Inr ts \<and> t \<in> set ts \<and> sptst_Phase (spt_Status t) = PhaseCompleted \<longrightarrow>
     completed_task (tasks w) (om_Name (spt_meta t)))"

lemma truthful_lists_mono:
  "truthful_lists E tasks s \<Longrightarrow> tasks (gs_world s) \<subseteq>\<^sub>m tasks (gs_world s') \<Longrightarrow> truthful_lists E tasks s'"
  unfolding truthful_lists_def by (meson map_le_trans)

abbreviation snaps :: "SnapshotPod \<Rightarrow> SnapshotRunningStatus list" where
  "snaps sp \<equiv> spst_Snapshots (sp_Status sp)"

lemma set_sp_status_sel [simp]:
  "sp_meta (set_sp_status f sp) = sp_meta sp" "sp_Spec (set_sp_status f sp) = sp_Spec sp"
  "sp_Status (set_sp_status f sp) = f (sp_Status sp)"
  by (simp_all add: set_sp_status_def)

lemma record_snapshot_sel [simp]:
  "sp_meta (record_snapshot sp c t now) = sp_meta sp" "sp_Spec (record_snapshot sp c t now) = sp_Spec sp"
  "spst_Conditions (sp_Status (record_snapshot sp c t now)) = spst_Conditions (sp_Status sp)"
  "spst_LastTriggerRound (sp_Status (record_snapshot sp c t now)) = spst_LastTriggerRound (sp_Status sp)"
  by (simp_all add: record_snapshot_def)

lemma set_pod_condition_sel [simp]:
  "sp_meta (set_pod_condition i f sp) = sp_meta sp" "sp_Spec (set_pod_condition i f sp) = sp_Spec sp"
  "snaps (set_pod_condition i f sp) = snaps sp"
  by (simp_all add: set_pod_condition_def)

lemma completed_mono: "m \<subseteq>\<^sub>m m' \<Longrightarrow> completed_task m nm \<Longrightarrow> completed_task m' nm"
  unfolding completed_task_def map_le_def by (metis domI)

lemma snaps_ok_mono: "m \<subseteq>\<^sub>m m' \<Longrightarrow> snaps_ok m ss \<Longrightarrow> snaps_ok m' ss"
  unfolding snaps_ok_def using completed_mono by blast

lemma snaps_ok_wire [simp]: "snaps_ok m (map wire_snapshot ss) = snaps_ok m ss"
  by (simp add: snaps_ok_def)

lemma keep_last_length: "length (keep_last xs) \<le> 20"
  by (simp add: keep_last_def)

lemma keep_last_set: "set (keep_last xs) \<subseteq> set xs"
  by (simp add: keep_last_def set_drop_subset)

lemma snaps_ok_record: "snaps_ok m (snaps sp) \<Longrightarrow> snaps_ok m (snaps (record_snapshot sp c t now))"
  using keep_last_length keep_last_set unfolding snaps_ok_def record_snapshot_def by fastforce

definition pod_moves ::
  "('w \<Rightarrow> (string \<times> string \<rightharpoonup> SnapshotPodTask)) \<Rightarrow> 'w gstate \<Rightarrow> 'w gstate \<Rightarrow> SnapshotPod \<Rightarrow> SnapshotPod \<Rightarrow> bool" where
  "pod_moves tasks s s' sp sp' \<longleftrightarrow> (\<forall>x. completed_task (tasks (gs_world s)) x \<longrightarrow> completed_task (tasks (gs_world s')) x) \<and>
     sp_meta sp' = sp_meta sp \<and> sp_Spec sp' = sp_Spec sp \<and>
     (snaps_ok (tasks (gs_world s)) (snaps sp) \<longrightarrow> snaps_ok (tasks (gs_world s')) (snaps sp'))"

lemma pod_moves_trans: "pod_moves tasks s t a b \<Longrightarrow> pod_moves tasks t u b c \<Longrightarrow> pod_moves tasks s u a c"
  by (simp add: pod_moves_def)

lemma snaps_ok_done:
  "(\<And>x. completed_task m x \<Longrightarrow> completed_task m' x) \<Longrightarrow> snaps_ok m ss \<Longrightarrow> snaps_ok m' ss"
  by (auto simp: snaps_ok_def)

lemma pod_moves_same:
  "(\<And>x. completed_task (tasks (gs_world s)) x \<Longrightarrow> completed_task (tasks (gs_world s')) x) \<Longrightarrow> sp_meta sp' = sp_meta sp \<Longrightarrow>
   sp_Spec sp' = sp_Spec sp \<Longrightarrow> snaps sp' = snaps sp \<Longrightarrow> pod_moves tasks s s' sp sp'"
  using snaps_ok_done by (auto simp: pod_moves_def)

lemma update_snapshot_sel:
  assumes "run_state (update_snapshot E m e) s = (e', s')"
  shows "srs_TaskName e' = srs_TaskName e \<and> srs_TriggerRound e' = srs_TriggerRound e \<and> srs_ImageRef e' = srs_ImageRef e \<and>
    srs_ContainerName e' = srs_ContainerName e \<and> srs_TriggerTime e' = srs_TriggerTime e \<and>
    (terminal_result (srs_Result e) \<longrightarrow> e' = e) \<and>
    (\<not> terminal_result (srs_Result e) \<longrightarrow>
      (srs_Result e' = ResultSuccess \<longleftrightarrow> (\<exists>t. m (srs_TaskName e) = Some t \<and> sptst_Phase (spt_Status t) = PhaseCompleted)) \<and>
      (srs_Result e' = ResultFailed \<longleftrightarrow> (\<exists>t. m (srs_TaskName e) = Some t \<and> sptst_Phase (spt_Status t) = PhaseFailed)))"
  using assms by (auto simp: update_snapshot_def terminal_result_def split: if_splits option.splits prod.splits)

lemma update_snapshots_all:
  assumes "run_state (update_snapshots E m ss) s = (ss', s')"
  shows "list_all2 (\<lambda>e e'. \<exists>s1 s2. run_state (update_snapshot E m e) s1 = (e', s2)) ss ss'"
  using assms
proof (induction ss arbitrary: s s' ss')
  case (Cons e ss)
  obtain e1 s1 where e1: "run_state (update_snapshot E m e) s = (e1, s1)" by (metis prod.collapse)
  obtain ss1 s2 where ss1: "run_state (update_snapshots E m ss) s1 = (ss1, s2)" by (metis prod.collapse)
  show ?case using Cons.prems e1 ss1 Cons.IH [OF ss1] by auto
qed simp

lemma SliceToMap_Some: "SliceToMap xs f k = Some v \<Longrightarrow> \<exists>x\<in>set xs. f x = (k, v)"
proof (induction xs rule: rev_induct)
  case (snoc x xs)
  then show ?case by (cases "fst (f x) = k") (auto simp: SliceToMap_def)
qed (simp add: SliceToMap_def)

text \<open>An object after a step that succeeded: its condition holds, and the time of the change may be set.\<close>
definition step_done :: "nat \<Rightarrow> SnapshotPod \<Rightarrow> SnapshotPod \<Rightarrow> bool" where
  "step_done i sp1 sp3 \<longleftrightarrow> (let sp2 = set_pod_condition i (\<lambda>c. c\<lparr>cond_Status := ConditionTrue\<rparr>) sp1 in
     sp3 = sp2 \<or> (\<exists>t. sp3 = set_pod_condition i (\<lambda>c. c\<lparr>cond_LastTransitionTime := t\<rparr>) sp2))"

context pod_ops
begin

lemma status_parts:
  assumes "run_state (reconcileTasksStatus E sp) s = ((sp', err), s')"
  shows "sp_meta sp' = sp_meta sp \<and> sp_Spec sp' = sp_Spec sp \<and> spst_Conditions (sp_Status sp') = spst_Conditions (sp_Status sp) \<and>
    (err \<noteq> None \<and> sp' = sp \<or> err = None \<and> (\<exists>ts m w. m = SliceToMap ts (\<lambda>item. (om_Name (spt_meta item), item)) \<and>
      run_state (env_list_tasks E (Some [(SnapshotNameLabel, om_Name (sp_meta sp))])) (gs_world s) = (Inr ts, w) \<and>
      R (s\<lparr>gs_world := w\<rparr>) s' \<and>
      list_all2 (\<lambda>e e'. \<exists>s1 s2. run_state (update_snapshot E m e) s1 = (e', s2)) (snaps sp) (snaps sp')))"
proof -
  obtain l w where list: "run_state (env_list_tasks E (Some [(SnapshotNameLabel, om_Name (sp_meta sp))])) (gs_world s) = (l, w)"
    by (metis prod.collapse)
  show ?thesis
  proof (cases l)
    case (Inl e)
    then show ?thesis using assms list by (auto simp: reconcileTasksStatus_def)
  next
    case (Inr ts)
    let ?m = "SliceToMap ts (\<lambda>item. (om_Name (spt_meta item), item))"
    obtain ss s2 where upd: "run_state (update_snapshots E ?m (snaps sp)) (s\<lparr>gs_world := w\<rparr>) = (ss, s2)" by (metis prod.collapse)
    have "err = None" "s' = s2" "sp' = set_sp_status (\<lambda>st. st\<lparr>spst_Snapshots := ss\<rparr>) sp"
      using assms list Inr upd by (auto simp: reconcileTasksStatus_def Let_def)
    then show ?thesis using list Inr keepsD [OF frame_update_snapshots upd] update_snapshots_all [OF upd] by simp
  qed
qed

text \<open>One iteration of the loop: the step fails and ends it, or it goes on.\<close>
lemma pod_iteration:
  assumes run: "run_state (run_pod_recs E ((n, f) # recs) sp) s = (sp', s')"
  obtains (fails) conds i s1 sp1 e where "run_state (ensure_condition E n (spst_Conditions (sp_Status sp))) s = ((conds, i), s1)"
      and "R s s1"
      and "run_state (f (set_sp_status (\<lambda>st. st\<lparr>spst_Conditions := conds\<rparr>) sp)) s1 = ((sp1, Some e), s')"
      and "sp' = set_pod_condition i (\<lambda>c. c\<lparr>cond_Status := ConditionFalse, cond_Message := error_text e\<rparr>) sp1"
  | (goes_on) conds i s1 sp1 s2 sp3 s3 where "run_state (ensure_condition E n (spst_Conditions (sp_Status sp))) s = ((conds, i), s1)"
      and "R s s1"
      and "run_state (f (set_sp_status (\<lambda>st. st\<lparr>spst_Conditions := conds\<rparr>) sp)) s1 = ((sp1, None), s2)"
      and "step_done i sp1 sp3" and "R s2 s3" and "run_state (run_pod_recs E recs sp3) s3 = (sp', s')"
proof -
  obtain conds i s1 where ens: "run_state (ensure_condition E n (spst_Conditions (sp_Status sp))) s = ((conds, i), s1)"
    by (metis prod.collapse)
  let ?sp0 = "set_sp_status (\<lambda>st. st\<lparr>spst_Conditions := conds\<rparr>) sp"
  obtain sp1 err s2 where step: "run_state (f ?sp0) s1 = ((sp1, err), s2)" by (metis prod.collapse)
  have s1: "R s s1" by (rule keepsD [OF frame_ensure ens])
  show thesis
  proof (cases err)
    case (Some e)
    then show thesis using run ens step by (intro fails [OF ens s1]) (auto simp: Let_def)
  next
    case None
    let ?sp2 = "set_pod_condition i (\<lambda>c. c\<lparr>cond_Status := ConditionTrue\<rparr>) sp1"
    note step = step [unfolded None]
    show thesis
    proof (cases "cmpConditionWithoutTime (conds ! i) (spst_Conditions (sp_Status ?sp2) ! i)")
      case True
      then have rest: "run_state (run_pod_recs E recs ?sp2) s2 = (sp', s')" using run ens step by (simp add: Let_def)
      show thesis by (rule goes_on [OF ens s1 step _ refl_R rest]) (simp add: step_done_def)
    next
      case False
      obtain t s3 where now: "run_state (time_now E) s2 = (t, s3)" by (metis prod.collapse)
      have rest: "run_state (run_pod_recs E recs (set_pod_condition i (\<lambda>c. c\<lparr>cond_LastTransitionTime := t\<rparr>) ?sp2)) s3 = (sp', s')"
        using run ens step False now by (simp add: Let_def del: run_time_now)
      show thesis by (rule goes_on [OF ens s1 step _ keepsD [OF R_now now] rest]) (auto simp: step_done_def Let_def)
    qed
  qed
qed

text \<open>A call, by what was read: the loop and the status update, or neither.\<close>
lemma pod_call_parts:
  assumes run: "run_state (Pod_Reconcile E ns nm) s = (res, s')"
  obtains (none) s1 got w where "R s s1" and "run_state (env_get_snapshotpod E ns nm) (gs_world s1) = (got, w)"
      and "R (s1\<lparr>gs_world := w\<rparr>) s'"
      and "\<And>q. res = (q, None) \<Longrightarrow> \<exists>sp. got = Inr sp \<and> sint (sps_TriggerRound (sp_Spec sp)) \<le> 0"
  | (loop) s1 sp w sp1 s3 u w4 where "R s s1" and "run_state (env_get_snapshotpod E ns nm) (gs_world s1) = (Inr sp, w)"
      and "0 < sint (sps_TriggerRound (sp_Spec sp))"
      and "run_state (run_pod_recs E (pod_recs E) sp) (s1\<lparr>gs_world := w\<rparr>) = (sp1, s3)"
      and "run_state (env_update_snapshotpod_status E sp1) (gs_world s3) = (u, w4)"
      and "R (s3\<lparr>gs_world := w4\<rparr>) s'"
      and "res = (case u of Inl err \<Rightarrow> (no_requeue, Some err)
        | Inr sp2 \<Rightarrow> (if unfinished sp2 then \<lparr>RequeueAfter = 15 * second_ns\<rparr> else no_requeue, None))"
proof -
  obtain t0 s1 where now: "run_state (time_now E) s = (t0, s1)" by (metis prod.collapse)
  have s1: "R s s1" by (rule keepsD [OF R_now now])
  obtain got w where get: "run_state (env_get_snapshotpod E ns nm) (gs_world s1) = (got, w)" by (metis prod.collapse)
  let ?s2 = "s1\<lparr>gs_world := w\<rparr>"
  show thesis
  proof (cases got)
    case (Inl e)
    then have tail: "run_state (do { RecordControllerError ''snapshotpod'' ''get_instance_error''; t \<leftarrow> time_now E;
        RecordControllerReconcile ''snapshotpod'' ControllerResultError (t - t0); State_Monad.return (no_requeue, Some e) }) ?s2 = (res, s')"
      using run now get by (simp add: Pod_Reconcile_def del: run_time_now)
    then have "R ?s2 s'" by (rule keepsD [rotated]) (intro keeps_rules R_now frame_record)
    moreover have "\<And>q. res \<noteq> (q, None)" using tail by (auto simp: record_defs)
    ultimately show thesis using none [OF s1 get] by blast
  next
    case (Inr sp)
    show thesis
    proof (cases "sint (sps_TriggerRound (sp_Spec sp)) \<le> 0")
      case True
      then have "s' = ?s2" using run now get Inr by (auto simp: Pod_Reconcile_def simp del: run_time_now)
      then show thesis by (intro none [OF s1 get]) (use refl_R Inr True in auto)
    next
      case False
      obtain sp1 s3 where body: "run_state (run_pod_recs E (pod_recs E) sp) ?s2 = (sp1, s3)" by (metis prod.collapse)
      obtain u w4 where upd: "run_state (env_update_snapshotpod_status E sp1) (gs_world s3) = (u, w4)" by (metis prod.collapse)
      have tail: "run_state (case u of Inl err \<Rightarrow> State_Monad.return (no_requeue, Some err) | Inr sp2 \<Rightarrow>
          if unfinished sp2 then do { t \<leftarrow> time_now E;
            RecordControllerReconcile ''snapshotpod'' ControllerResultRequeue (t - t0);
            State_Monad.return (\<lparr>RequeueAfter = 15 * second_ns\<rparr>, None) }
          else do { t \<leftarrow> time_now E; RecordControllerReconcile ''snapshotpod'' ControllerResultSuccess (t - t0);
            State_Monad.return (no_requeue, None) }) (s3\<lparr>gs_world := w4\<rparr>) = (res, s')"
        using run now get Inr False body upd by (simp add: Pod_Reconcile_def del: run_time_now)
      then have "R (s3\<lparr>gs_world := w4\<rparr>) s'" by (rule keepsD [rotated]) (intro keeps_rules R_now frame_record)
      moreover have "res = (case u of Inl err \<Rightarrow> (no_requeue, Some err)
          | Inr sp2 \<Rightarrow> (if unfinished sp2 then \<lparr>RequeueAfter = 15 * second_ns\<rparr> else no_requeue, None))"
        using tail by (auto simp: record_defs split: sum.splits if_splits)
      ultimately show thesis using loop [OF s1 _ _ body upd] get Inr False by simp
    qed
  qed
qed

end

section \<open>What the steps do to the object\<close>

text \<open>
  The frame with the creation of tasks. \<open>seen\<close> is what is known of the state for listings to be truthful:
  a task that is listed as completed is completed, and stays so.
\<close>
locale pod_steps = pod_ops R E for R :: "'w gstate \<Rightarrow> 'w gstate \<Rightarrow> bool" and E :: "'w env" +
  fixes tasks :: "'w \<Rightarrow> (string \<times> string \<rightharpoonup> SnapshotPodTask)" and seen :: "'w gstate \<Rightarrow> bool"
  assumes R_create: "keeps R (in_world (env_create_task E t))"
    and seen_R: "R s s' \<Longrightarrow> seen s \<Longrightarrow> seen s'"
    and done_R: "R s s' \<Longrightarrow> seen s \<Longrightarrow> completed_task (tasks (gs_world s)) x \<Longrightarrow> completed_task (tasks (gs_world s')) x"
    and listed: "seen s \<Longrightarrow> run_state (env_list_tasks E lbl) (gs_world s) = (Inr ts, w) \<Longrightarrow> t \<in> set ts \<Longrightarrow>
      sptst_Phase (spt_Status t) = PhaseCompleted \<Longrightarrow> completed_task (tasks w) (om_Name (spt_meta t))"
begin

lemma frame_container: "keeps R (snapshot_container E p c sp)"
proof -
  have tail: "keeps R (case img of
      Inl err \<Rightarrow> State_Monad.return (sp, Some err)
    | Inr newImage \<Rightarrow> do {
        let spt = new_task E sp p c cs newImage;
        res \<leftarrow> in_world (env_create_task E spt);
        (case res of
           Inl err \<Rightarrow>
             if IsAlreadyExists err then do { t \<leftarrow> time_now E; State_Monad.return (record_snapshot sp c spt t, None) }
             else State_Monad.return (sp, Some err)
         | Inr spt' \<Rightarrow> do { t \<leftarrow> time_now E; State_Monad.return (record_snapshot sp c spt' t, None) })
      })" for img cs
    unfolding Let_def by (intro keeps_rules R_create R_now)
  show ?thesis unfolding snapshot_container_def by (auto split: list.split intro!: keeps_rules frame_render tail)
qed

lemma frame_containers: "keeps R (snapshot_containers E p cs sp)"
proof (induction cs arbitrary: sp)
  case (Cons c cs)
  then show ?case by (simp only: snapshot_containers.simps) (intro keeps_rules frame_container)
qed (simp add: keeps_return)

lemma frame_tasks: "keeps R (reconcileTasks E sp)"
  unfolding reconcileTasks_def by (intro keeps_rules frame_containers frame_getPod)

lemma moves_container:
  assumes run: "run_state (snapshot_container E p c sp) s = ((sp', err), s')" and "seen s"
  shows "pod_moves tasks s s' sp sp'"
proof -
  note mono = done_R [OF keepsD [OF frame_container run] assms(2)]
  have "sp' = sp \<or> (\<exists>t now. sp' = record_snapshot sp c t now)"
    using run by (auto simp: snapshot_container_def Let_def split: list.splits if_splits sum.splits prod.splits)
  then show ?thesis using mono snaps_ok_done [OF mono] snaps_ok_record by (auto simp: pod_moves_def)
qed

lemma moves_containers:
  "run_state (snapshot_containers E p cs sp) s = ((sp', err), s') \<Longrightarrow> seen s \<Longrightarrow> pod_moves tasks s s' sp sp'"
proof (induction cs arbitrary: sp s)
  case (Cons c cs)
  obtain sp1 e1 s1 where one: "run_state (snapshot_container E p c sp) s = ((sp1, e1), s1)" by (metis prod.collapse)
  note m = moves_container [OF one Cons.prems(2)]
  show ?case
  proof (cases e1)
    case None
    then have rest: "run_state (snapshot_containers E p cs sp1) s1 = ((sp', err), s')" using Cons.prems one by simp
    have "seen s1" by (rule seen_R [OF keepsD [OF frame_container one] Cons.prems(2)])
    from pod_moves_trans [OF m Cons.IH [OF rest this]] show ?thesis .
  next
    case (Some e)
    then show ?thesis using Cons.prems one m by simp
  qed
qed (simp add: pod_moves_same)

lemma moves_tasks:
  assumes run: "run_state (reconcileTasks E sp) s = ((sp', err), s')" and "seen s"
  shows "pod_moves tasks s s' sp sp'"
proof -
  note mono = done_R [OF keepsD [OF frame_tasks run] assms(2)]
  obtain res s1 where get: "run_state (getPod E sp) s = (res, s1)" by (metis prod.collapse)
  note r1 = keepsD [OF frame_getPod get]
  consider "snaps sp' = snaps sp \<and> sp_meta sp' = sp_meta sp \<and> sp_Spec sp' = sp_Spec sp"
    | p where "run_state (snapshot_containers E p (wanted_containers sp p) sp) s1 = ((sp', err), s')"
    using run get by (auto simp: reconcileTasks_def split: if_splits sum.splits)
  then show ?thesis
  proof cases
    case 1
    then show ?thesis using mono by (auto intro: pod_moves_same)
  next
    case (2 p)
    have "pod_moves tasks s s1 sp sp" using done_R [OF r1 assms(2)] by (auto intro: pod_moves_same)
    then show ?thesis using moves_containers [OF 2 seen_R [OF r1 assms(2)]] by (rule pod_moves_trans)
  qed
qed

text \<open>An entry that is reported successful was so before, or its task is listed as completed.\<close>
lemma updated_snaps_ok:
  assumes "list_all2 (\<lambda>e e'. \<exists>s1 s2. run_state (update_snapshot E m e) s1 = (e', s2)) ss ss'"
    and "m = SliceToMap ts (\<lambda>item. (om_Name (spt_meta item), item))"
    and "\<And>t. t \<in> set ts \<Longrightarrow> sptst_Phase (spt_Status t) = PhaseCompleted \<Longrightarrow> completed_task m' (om_Name (spt_meta t))"
    and ok: "snaps_ok m' ss"
  shows "snaps_ok m' ss'"
  unfolding snaps_ok_def
proof (intro conjI ballI impI)
  show "length ss' \<le> 20" using assms(1) ok by (simp add: snaps_ok_def list_all2_lengthD)
  fix e' assume "e' \<in> set ss'" and suc: "srs_Result e' = ResultSuccess"
  then obtain i where i: "i < length ss'" "e' = ss' ! i" by (auto simp: in_set_conv_nth)
  let ?e = "ss ! i"
  obtain s1 s2 where "run_state (update_snapshot E m ?e) s1 = (e', s2)"
    using list_all2_nthD2 [OF assms(1) i(1)] i(2) by blast
  note u = update_snapshot_sel [OF this]
  have e: "?e \<in> set ss" using i(1) list_all2_lengthD [OF assms(1)] by simp
  show "completed_task m' (srs_TaskName e')"
  proof (cases "terminal_result (srs_Result ?e)")
    case True
    then show ?thesis using u ok e suc by (auto simp: snaps_ok_def)
  next
    case False
    then obtain t where t: "m (srs_TaskName ?e) = Some t" "sptst_Phase (spt_Status t) = PhaseCompleted" using u suc by blast
    then have "t \<in> set ts" "om_Name (spt_meta t) = srs_TaskName e'"
      using SliceToMap_Some [of ts "\<lambda>item. (om_Name (spt_meta item), item)" "srs_TaskName ?e" t] assms(2) u by auto
    then show ?thesis using assms(3) t(2) by metis
  qed
qed

lemma moves_status:
  assumes run: "run_state (reconcileTasksStatus E sp) s = ((sp', err), s')" and "seen s"
  shows "pod_moves tasks s s' sp sp'"
proof -
  note r = status_parts [OF run] and mono = done_R [OF keepsD [OF frame_status run] assms(2)]
  consider "sp' = sp" | ts m w where "m = SliceToMap ts (\<lambda>item. (om_Name (spt_meta item), item))"
      "run_state (env_list_tasks E (Some [(SnapshotNameLabel, om_Name (sp_meta sp))])) (gs_world s) = (Inr ts, w)"
      "R (s\<lparr>gs_world := w\<rparr>) s'"
      "list_all2 (\<lambda>e e'. \<exists>s1 s2. run_state (update_snapshot E m e) s1 = (e', s2)) (snaps sp) (snaps sp')"
    using r by blast
  then show ?thesis
  proof cases
    case 1
    then show ?thesis using mono by (simp add: pod_moves_same)
  next
    case 2
    have "R s (s\<lparr>gs_world := w\<rparr>)" using keepsD [OF R_list_tasks, of "Some [(SnapshotNameLabel, om_Name (sp_meta sp))]" s] 2(2) by simp
    then have w: "seen (s\<lparr>gs_world := w\<rparr>)" by (rule seen_R) (rule assms(2))
    have "completed_task (tasks (gs_world s')) (om_Name (spt_meta t))" if "t \<in> set ts" "sptst_Phase (spt_Status t) = PhaseCompleted" for t
      using done_R [OF 2(3) w] listed [OF assms(2) 2(2) that] by simp
    then have "snaps_ok (tasks (gs_world s')) (snaps sp')" if "snaps_ok (tasks (gs_world s)) (snaps sp)"
      using updated_snaps_ok [OF 2(4,1)] snaps_ok_done [OF mono that] by blast
    then show ?thesis using r mono by (simp add: pod_moves_def)
  qed
qed

lemma pod_step_moves:
  assumes "(n, f) \<in> set (pod_recs E)" and "run_state (f sp) s = ((sp', err), s')" and "seen s"
  shows "R s s' \<and> pod_moves tasks s s' sp sp'"
proof -
  consider (v) "f = (\<lambda>sp. do { err \<leftarrow> pod_validate E sp; State_Monad.return (sp, err) })"
    | (t) "f = reconcileTasks E" | (u) "f = reconcileTasksStatus E"
    using assms(1) by (auto simp: pod_recs_def)
  then show ?thesis
  proof cases
    case v
    then obtain e where "run_state (pod_validate E sp) s = (e, s')" and sp': "sp' = sp"
      using assms(2) by (auto split: prod.splits)
    then have r: "R s s'" using keepsD [OF frame_validate] by blast
    then show ?thesis using sp' done_R [OF r assms(3)] by (auto intro: pod_moves_same)
  next
    case t
    then show ?thesis using assms(2,3) keepsD [OF frame_tasks] moves_tasks by blast
  next
    case u
    then show ?thesis using assms(2,3) keepsD [OF frame_status] moves_status by blast
  qed
qed

lemma run_pod_recs_frame:
  assumes "set recs \<subseteq> set (pod_recs E)" and "run_state (run_pod_recs E recs sp) s = (sp', s')" and "seen s"
  shows "R s s' \<and> pod_moves tasks s s' sp sp'"
  using assms
proof (induction recs arbitrary: sp s)
  case Nil
  then show ?case by (auto simp: pod_moves_same refl_R)
next
  case (Cons rec recs)
  obtain n f where rec: "rec = (n, f)" by (cases rec)
  have in_recs: "(n, f) \<in> set (pod_recs E)" and recs: "set recs \<subseteq> set (pod_recs E)" using Cons.prems(1) rec by simp_all
  have stepped: "R s s2 \<and> pod_moves tasks s s2 sp sp1"
    if s1: "R s s1" and
      step: "run_state (f (set_sp_status (\<lambda>st. st\<lparr>spst_Conditions := conds\<rparr>) sp)) s1 = ((sp1, err), s2)" for conds s1 sp1 err s2
  proof -
    note m = pod_step_moves [OF in_recs step seen_R [OF s1 Cons.prems(3)]]
    have "pod_moves tasks s s1 sp (set_sp_status (\<lambda>st. st\<lparr>spst_Conditions := conds\<rparr>) sp)"
      using done_R [OF s1 Cons.prems(3)] by (intro pod_moves_same) simp_all
    then show ?thesis using m trans_R [OF s1] pod_moves_trans by blast
  qed
  from Cons.prems(2) [unfolded rec] show ?case
  proof (cases rule: pod_iteration)
    case (fails conds i s1 sp1 e)
    note m = stepped [OF fails(2,3)]
    then show ?thesis using pod_moves_trans [OF conjunct2 [OF m] pod_moves_same [of tasks s' s']] fails(4) by simp
  next
    case (goes_on conds i s1 sp1 s2 sp3 s3)
    note m = stepped [OF goes_on(2,3)]
    have g: "R s s3" using trans_R m goes_on(5) by blast
    have "pod_moves tasks s2 s3 sp1 sp3"
      using goes_on(4) done_R [OF goes_on(5) seen_R [OF conjunct1 [OF m] Cons.prems(3)]]
      by (intro pod_moves_same) (auto simp: step_done_def Let_def)
    then have m3: "pod_moves tasks s s3 sp sp3" using m pod_moves_trans by blast
    from Cons.IH [OF recs goes_on(6) seen_R [OF g Cons.prems(3)]] show ?thesis
      using trans_R [OF g] pod_moves_trans [OF m3] by blast
  qed
qed

end

text \<open>Nobody else writes: tasks are only added.\<close>
sublocale cluster_store \<subseteq> grown_steps: pod_steps "grown tasks sps" E tasks "truthful_lists E tasks"
proof
  show "keeps (grown tasks sps) (time_now E)" by (rule keeps_still_grown [OF still_now])
  show "keeps (grown tasks sps) (emit ops)" for ops by (rule keeps_still_grown [OF still_ops.R_emit])
  show "keeps (grown tasks sps) (in_world (env_get_pod E ns nm))" for ns nm by (rule keeps_still_grown [OF still_ops.R_get_pod])
  show "keeps (grown tasks sps) (in_world (env_list_pods E ns sel))" for ns sel by (rule keeps_still_grown [OF still_ops.R_list_pods])
  show "keeps (grown tasks sps) (in_world (env_uuid E))" by (rule keeps_still_grown [OF still_ops.R_uuid])
  show "keeps (grown tasks sps) (in_world (env_map_order E ks))" for ks by (rule keeps_still_grown [OF still_ops.R_order])
  show "keeps (grown tasks sps) (in_world (env_list_tasks E lbl))" for lbl by (rule keeps_still_grown [OF still_ops.R_list_tasks])
  show "keeps (grown tasks sps) (in_world (env_create_task E t))" for t by (rule grown_create)
next
  fix s s' :: "'w gstate" assume g: "grown tasks sps s s'"
  then have le: "tasks (gs_world s) \<subseteq>\<^sub>m tasks (gs_world s')" by (simp add: grown_def)
  show "truthful_lists E tasks s \<Longrightarrow> truthful_lists E tasks s'" by (rule truthful_lists_mono [OF _ le])
  show "completed_task (tasks (gs_world s)) x \<Longrightarrow> completed_task (tasks (gs_world s')) x" for x by (rule completed_mono [OF le])
next
  fix s :: "'w gstate" and lbl ts w t
  assume l: "truthful_lists E tasks s" and r: "run_state (env_list_tasks E lbl) (gs_world s) = (Inr ts, w)" and t: "t \<in> set ts"
    "sptst_Phase (spt_Status t) = PhaseCompleted"
  have "tasks w = tasks (gs_world s)" using list_tasks_tasks [of lbl "gs_world s"] r by simp
  moreover have "completed_task (tasks (gs_world s)) (om_Name (spt_meta t))"
    using l r t unfolding truthful_lists_def by (metis fst_conv map_le_refl)
  ultimately show "completed_task (tasks w) (om_Name (spt_meta t))" by simp
qed

context cluster_store
begin

lemmas grown_containers = grown_steps.frame_containers
lemmas grown_tasks = grown_steps.frame_tasks
lemmas run_pod_recs_moves = grown_steps.run_pod_recs_frame

lemma status_run:
  assumes "run_state (reconcileTasksStatus E sp) s = ((sp', err), s')"
  shows "tasks (gs_world s') = tasks (gs_world s) \<and> sp_meta sp' = sp_meta sp \<and> sp_Spec sp' = sp_Spec sp \<and>
    spst_Conditions (sp_Status sp') = spst_Conditions (sp_Status sp) \<and>
    (err \<noteq> None \<and> sp' = sp \<or> err = None \<and> (\<exists>ts m. m = SliceToMap ts (\<lambda>item. (om_Name (spt_meta item), item)) \<and>
      fst (run_state (env_list_tasks E (Some [(SnapshotNameLabel, om_Name (sp_meta sp))])) (gs_world s)) = Inr ts \<and>
      list_all2 (\<lambda>e e'. \<exists>s1 s2. run_state (update_snapshot E m e) s1 = (e', s2)) (snaps sp) (snaps sp')))"
  using still_ops.status_parts [OF assms] keepsD [OF still_status assms] by (auto simp: still_def)

text \<open>The final status update, and the whole call.\<close>
lemma sp_update_effect:
  assumes "sps w (sp_key p) = Some cur" and "run_state (env_update_snapshotpod_status E p) w = (u, w')"
  obtains "sps w' = sps w" "\<And>x. u \<noteq> Inr x" "tasks w' = tasks w"
  | p' where "sp_status_written cur p p'" "sps w' = (sps w)(sp_key p \<mapsto> p')" "tasks w' = tasks w" "\<And>x. u = Inr x \<Longrightarrow> x = p'"
proof -
  have t: "tasks w' = tasks w" using update_sp_tasks [of p w] assms(2) by simp
  show thesis
  proof (cases u)
    case (Inl e)
    with update_sp_err [of p w e w'] assms that t show thesis by auto
  next
    case (Inr p')
    with update_sp_ok [of p w p' w'] assms that(2) t show thesis by auto
  qed
qed

lemma pod_reconcile_read:
  assumes run: "run_state (Pod_Reconcile E ns nm) s = (res, s')"
  obtains (none) "still tasks sps s s'"
      "\<And>q. res = (q, None) \<Longrightarrow> \<exists>w1 sp. fst (run_state (env_get_snapshotpod E ns nm) w1) = Inr sp \<and>
        sps w1 = sps (gs_world s) \<and> sint (sps_TriggerRound (sp_Spec sp)) \<le> 0"
  | (loop) sp w1 s2 sp1 s3 u w4 where "fst (run_state (env_get_snapshotpod E ns nm) w1) = Inr sp"
      and "sps w1 = sps (gs_world s)" and "0 < sint (sps_TriggerRound (sp_Spec sp))"
      and "still tasks sps s s2" and "run_state (run_pod_recs E (pod_recs E) sp) s2 = (sp1, s3)"
      and "run_state (env_update_snapshotpod_status E sp1) (gs_world s3) = (u, w4)"
      and "still tasks sps (s3\<lparr>gs_world := w4\<rparr>) s'"
      and "res = (case u of Inl err \<Rightarrow> (no_requeue, Some err)
        | Inr sp2 \<Rightarrow> (if unfinished sp2 then \<lparr>RequeueAfter = 15 * second_ns\<rparr> else no_requeue, None))"
  using run
proof (cases rule: still_ops.pod_call_parts)
  case (none s1 got w)
  have "still tasks sps s1 (s1\<lparr>gs_world := w\<rparr>)"
    using none(2) get_sp_tasks [of ns nm "gs_world s1"] get_sp_sps [of ns nm "gs_world s1"] by (simp add: still_def)
  then have "still tasks sps s s'" using none(1,3) still_frame.trans_R by blast
  moreover have "sps (gs_world s1) = sps (gs_world s)" using none(1) by (simp add: still_def)
  ultimately show thesis using that(1) none(2,4) by (metis fst_conv)
next
  case (loop s1 sp w sp1 s3 u w4)
  have "still tasks sps s1 (s1\<lparr>gs_world := w\<rparr>)"
    using loop(2) get_sp_tasks [of ns nm "gs_world s1"] get_sp_sps [of ns nm "gs_world s1"] by (simp add: still_def)
  then have "still tasks sps s (s1\<lparr>gs_world := w\<rparr>)" using loop(1) still_frame.trans_R by blast
  moreover have "sps (gs_world s1) = sps (gs_world s)" using loop(1) by (simp add: still_def)
  ultimately show thesis using that(2) [of "gs_world s1" sp, OF _ _ loop(3) _ loop(4-7)] loop(2) by simp
qed

text \<open>The loop and the update, on the stored object.\<close>
lemma pod_loop_effect:
  assumes stored: "sps (gs_world s) (ns, nm) = Some sp" and lists: "truthful_lists E tasks s"
    and s2: "still tasks sps s s2" and body: "run_state (run_pod_recs E (pod_recs E) sp) s2 = (sp1, s3)"
    and upd: "run_state (env_update_snapshotpod_status E sp1) (gs_world s3) = (u, w4)"
    and rest: "still tasks sps (s3\<lparr>gs_world := w4\<rparr>) s'"
  shows "tasks (gs_world s) \<subseteq>\<^sub>m tasks (gs_world s') \<and>
    (\<forall>k t. tasks (gs_world s') k = Some t \<and> tasks (gs_world s) k = None \<longrightarrow> spt_Status t = empty_task_status) \<and>
    (sps (gs_world s') = sps (gs_world s) \<or> (\<exists>p p'. sps (gs_world s) (ns, nm) = Some p \<and>
      sps (gs_world s') = (sps (gs_world s))((ns, nm) \<mapsto> p') \<and> sp_Spec p' = sp_Spec p \<and>
      (snaps_ok (tasks (gs_world s)) (snaps p) \<longrightarrow> snaps_ok (tasks (gs_world s')) (snaps p'))))"
proof -
  have key: "sp_key sp = (ns, nm)" by (rule sp_keyed [OF stored])
  have "truthful_lists E tasks s2" using truthful_lists_mono [OF lists] s2 by (simp add: still_def)
  note m = run_pod_recs_moves [OF subset_refl body this]
  have g3: "grown tasks sps s s3" using grown_trans [OF still_grown [OF s2]] m by blast
  have key1: "sp_key sp1 = (ns, nm)" and spec1: "sp_Spec sp1 = sp_Spec sp" using m key by (auto simp: pod_moves_def)
  have stored3: "sps (gs_world s3) (sp_key sp1) = Some sp" using g3 stored key1 unfolding grown_def by simp
  show ?thesis
  proof (rule sp_update_effect [OF stored3 upd])
    assume "sps w4 = sps (gs_world s3)" "tasks w4 = tasks (gs_world s3)"
    then have "still tasks sps s3 (s3\<lparr>gs_world := w4\<rparr>)" by (simp add: still_def)
    then have "still tasks sps s3 s'" using rest by (rule still_frame.trans_R)
    then have "grown tasks sps s s'" using grown_trans [OF g3 still_grown] by blast
    then show ?thesis unfolding grown_def by blast
  next
    fix p'
    assume p': "sp_status_written sp sp1 p'" "sps w4 = (sps (gs_world s3))(sp_key sp1 \<mapsto> p')" "tasks w4 = tasks (gs_world s3)"
    have "sps (gs_world s') = (sps (gs_world s))((ns, nm) \<mapsto> p')" "tasks (gs_world s') = tasks (gs_world s3)"
      using rest p'(2,3) g3 key1 unfolding still_def grown_def by auto
    moreover have "sp_Spec p' = sp_Spec sp" "snaps p' = map wire_snapshot (snaps sp1)"
      using p'(1) by (auto simp: sp_status_written_def)
    moreover have "snaps_ok (tasks (gs_world s)) (snaps sp) \<longrightarrow> snaps_ok (tasks (gs_world s3)) (snaps sp1)"
      using m s2 by (simp add: pod_moves_def still_def)
    ultimately show ?thesis using stored g3 unfolding grown_def by auto
  qed
qed

end

section \<open>With reads that are up to date\<close>

lemma cluster_api_store: "cluster_api E tasks sps \<Longrightarrow> cluster_store E tasks sps"
  by (simp add: cluster_api_def)

context cluster_api
begin

lemma listed_tasks:
  assumes "fst (run_state (env_list_tasks E sel) w) = Inr ts"
    and "SliceToMap ts (\<lambda>item. (om_Name (spt_meta item), item)) nm = Some t"
  shows "om_Name (spt_meta t) = nm \<and> tasks w (task_key t) = Some t \<and> labels_match sel (om_Labels (spt_meta t))"
  using SliceToMap_Some [OF assms(2)] list_tasks_ok [OF assms(1), of t] by auto

lemma lists_truthful: "truthful_lists E tasks s"
  unfolding truthful_lists_def completed_task_def using list_tasks_ok by blast

lemma pod_reconcile_parts:
  assumes run: "run_state (Pod_Reconcile E ns nm) s = (res, s')"
  obtains (none) "still tasks sps s s'"
      "\<And>sp q. sps (gs_world s) (ns, nm) = Some sp \<Longrightarrow> res = (q, None) \<Longrightarrow> sint (sps_TriggerRound (sp_Spec sp)) \<le> 0"
  | (loop) sp s2 sp1 s3 u w4 where "sps (gs_world s) (ns, nm) = Some sp" and "0 < sint (sps_TriggerRound (sp_Spec sp))"
      and "still tasks sps s s2" and "run_state (run_pod_recs E (pod_recs E) sp) s2 = (sp1, s3)"
      and "run_state (env_update_snapshotpod_status E sp1) (gs_world s3) = (u, w4)"
      and "still tasks sps (s3\<lparr>gs_world := w4\<rparr>) s'"
      and "res = (case u of Inl err \<Rightarrow> (no_requeue, Some err)
        | Inr sp2 \<Rightarrow> (if unfinished sp2 then \<lparr>RequeueAfter = 15 * second_ns\<rparr> else no_requeue, None))"
  using run
proof (cases rule: pod_reconcile_read)
  case none
  have "sint (sps_TriggerRound (sp_Spec sp)) \<le> 0" if sp: "sps (gs_world s) (ns, nm) = Some sp" and "res = (q, None)" for sp q
    using none(2) [OF that(2)] get_sp_ok sp by fastforce
  with none(1) show thesis by (rule that(1))
next
  case (loop sp w1 s2 sp1 s3 u w4)
  have "sps (gs_world s) (ns, nm) = Some sp" using get_sp_ok [OF loop(1)] loop(2) by simp
  then show thesis using loop(3-) by (rule that(2))
qed

lemma pod_reconcile_effect:
  assumes run: "run_state (Pod_Reconcile E ns nm) s = (res, s')"
  shows "tasks (gs_world s) \<subseteq>\<^sub>m tasks (gs_world s') \<and>
    (\<forall>k t. tasks (gs_world s') k = Some t \<and> tasks (gs_world s) k = None \<longrightarrow> spt_Status t = empty_task_status) \<and>
    (sps (gs_world s') = sps (gs_world s) \<or> (\<exists>p p'. sps (gs_world s) (ns, nm) = Some p \<and>
      sps (gs_world s') = (sps (gs_world s))((ns, nm) \<mapsto> p') \<and> sp_Spec p' = sp_Spec p \<and>
      (snaps_ok (tasks (gs_world s)) (snaps p) \<longrightarrow> snaps_ok (tasks (gs_world s')) (snaps p'))))"
  using run
proof (cases rule: pod_reconcile_parts)
  case none
  then have "grown tasks sps s s'" by (intro still_grown)
  then show ?thesis unfolding grown_def by blast
next
  case (loop sp s2 sp1 s3 u w4)
  show ?thesis by (rule pod_loop_effect [OF loop(1) lists_truthful loop(3-6)])
qed

end

end
