(* ===== verification/PodTheorems.thy ===== *)
theory PodTheorems
  imports PodProperties
begin

text \<open>
  The properties of the \<^verbatim>\<open>SnapshotPod\<close> controller: what a call creates, when it creates nothing, how
  results are collected and when the object is looked at again, with runs of the simulated world as
  witnesses; and the run in which a container of a round is lost.
\<close>

section \<open>A cluster\<close>

definition sample_pod :: pod where
  "sample_pod = \<lparr>pod_meta = \<lparr>om_Name = ''web'', om_Namespace = ''default'', om_UID = ''p1'', om_ResourceVersion = 1,
       om_Labels = Some [(''app'', ''web'')], om_OwnerReferences = [], om_CreationTimestamp = 0, om_DeletionTimestamp = None\<rparr>,
     pod_Containers = [\<lparr>pc_Name = ''app'', pc_Image = ''nginx:1.27''\<rparr>, \<lparr>pc_Name = ''log'', pc_Image = ''fluentd:1''\<rparr>],
     pod_ImagePullSecrets = [], pod_NodeName = ''node1'', pod_Phase = PodRunning,
     pod_ContainerStatuses = [\<lparr>cs_Name = ''app'', cs_Image = ''nginx:1.27'', cs_ContainerID = ''docker://abc''\<rparr>,
       \<lparr>cs_Name = ''log'', cs_Image = ''fluentd:1'', cs_ContainerID = ''docker://def''\<rparr>]\<rparr>"

definition sample_sp :: SnapshotPod where
  "sample_sp = \<lparr>sp_meta = \<lparr>om_Name = ''snap'', om_Namespace = ''default'', om_UID = ''s1'', om_ResourceVersion = 1,
       om_Labels = None, om_OwnerReferences = [], om_CreationTimestamp = 0, om_DeletionTimestamp = None\<rparr>,
     sp_Spec = \<lparr>sps_Target = \<lparr>tp_Name = [], tp_Selector = Some [(''app'', ''web'')], tp_Containers = []\<rparr>,
       sps_CommitOptions = \<lparr>co_PauseContainer = True, co_Timeout = [], co_Message = [], co_Author = []\<rparr>,
       sps_ImageSaveOptions = \<lparr>iso_ImageRefFormat = ''{domain}/{repository}:{tag}'', iso_RegistrySecretRef = ''reg'',
         iso_AppendSnappedSuffix = None, iso_MaxRetries = 3, iso_RetryDelaySeconds = 30\<rparr>,
       sps_AutoSaveOptions = \<lparr>aso_AutoSaveOnTermination = False, aso_Cron = []\<rparr>,
       sps_TriggerRound = 1, sps_RecoveryRound = 0\<rparr>,
     sp_Status = \<lparr>spst_Snapshots = [], spst_Conditions = [], spst_LastTriggerRound = 0\<rparr>\<rparr>"

definition pod_world :: sim_world where
  "pod_world = sim_start\<lparr>sw_sps := [((''default'', ''snap''), sample_sp)], sw_pods := [((''default'', ''web''), sample_pod)],
     sw_secrets := [((''default'', ''reg''), \<lparr>sec_Data = Some [(''.dockerconfigjson'', ''{}'')]\<rparr>)]\<rparr>"

text \<open>The same, with one fault: the second creation of a task times out.\<close>
definition flaky_world :: sim_world where
  "flaky_world = pod_world\<lparr>sw_fault := (\<lambda>n. n = 4)\<rparr>"

fun pod_calls :: "nat \<Rightarrow> sim_world gstate \<Rightarrow> sim_world gstate" where
  "pod_calls 0 s = s"
| "pod_calls (Suc n) s = pod_calls n (snd (run_state (Pod_Reconcile sim_env ''default'' ''snap'') s))"

lemma pod_stored:
  "sim_sp_store (gs_world (sim_state pod_world)) (''default'', ''snap'') = Some sample_sp"
  "sim_sp_store (gs_world (sim_state flaky_world)) (''default'', ''snap'') = Some sample_sp"
  by (simp_all add: pod_world_def flaky_world_def sim_sp_store_def sample_sp_def)

section \<open>Lemmas\<close>

definition round_recorded :: "SnapshotPod \<Rightarrow> bool" where
  "round_recorded sp \<longleftrightarrow> spst_LastTriggerRound (sp_Status sp) = sps_TriggerRound (sp_Spec sp) \<or>
     list_ex (\<lambda>e. srs_TriggerRound e = sps_TriggerRound (sp_Spec sp)) (snaps sp)"

lemma round_recorded_set [simp]:
  "round_recorded (set_pod_condition i f sp) = round_recorded sp"
  "round_recorded (set_sp_status (\<lambda>st. st\<lparr>spst_Conditions := conds\<rparr>) sp) = round_recorded sp"
  by (simp_all add: round_recorded_def set_pod_condition_def)

text \<open>The step that creates tasks returns its object, with the entries it appended.\<close>
lemma container_snaps:
  assumes "run_state (snapshot_container E p c sp) s = ((sp', err), s')"
  shows "sp_meta sp' = sp_meta sp \<and> sp_Spec sp' = sp_Spec sp \<and>
    spst_Conditions (sp_Status sp') = spst_Conditions (sp_Status sp) \<and>
    spst_LastTriggerRound (sp_Status sp') = spst_LastTriggerRound (sp_Status sp) \<and>
    (err = None \<longrightarrow> (\<exists>e. snaps sp' = keep_last (snaps sp @ [e]) \<and> srs_Result e = ResultCreated \<and>
      srs_TriggerRound e = sps_TriggerRound (sp_Spec sp) \<and> srs_ContainerName e = c \<and> srs_FailedReason e = [] \<and> srs_CompletedAt e = None)) \<and>
    (err \<noteq> None \<longrightarrow> sp' = sp)"
  using assms
  by (auto simp: snapshot_container_def record_snapshot_def Let_def split: list.splits if_splits sum.splits prod.splits)

lemma keep_last_suffix: "suffix (keep_last xs) xs"
  by (simp add: keep_last_def suffix_drop)

lemma SliceToMap_find:
  "SliceToMap ts (\<lambda>item. (om_Name (spt_meta item), item)) n = find (\<lambda>t. om_Name (spt_meta t) = n) (rev ts)"
  by (induction ts rule: rev_induct) (simp_all add: SliceToMap_def)

text \<open>The result an entry that is not final gets, by the task of its name.\<close>
lemma update_snapshot_exact:
  assumes "run_state (update_snapshot E m e) s = (e', s')"
  shows "srs_TaskName e' = srs_TaskName e \<and> srs_TriggerRound e' = srs_TriggerRound e \<and>
    srs_ImageRef e' = srs_ImageRef e \<and> srs_ContainerName e' = srs_ContainerName e \<and>
    (if terminal_result (srs_Result e) then e' = e
     else case m (srs_TaskName e) of
       None \<Rightarrow> srs_Result e' = ResultCreated \<and> srs_FailedReason e' = ''can not fetch task''
     | Some t \<Rightarrow>
         if sptst_Phase (spt_Status t) = PhaseCompleted then srs_Result e' = ResultSuccess \<and> srs_CompletedAt e' \<noteq> None
         else if sptst_Phase (spt_Status t) = PhaseFailed
         then srs_Result e' = ResultFailed \<and> srs_FailedReason e' = failed_reason t
         else e' = e)"
  using assms by (auto simp: update_snapshot_def split: if_splits option.splits prod.splits)

lemma update_snapshots_rounds:
  assumes "list_all2 (\<lambda>e e'. \<exists>s1 s2. run_state (update_snapshot E m e) s1 = (e', s2)) ss ss'"
  shows "srs_TriggerRound ` set ss' = srs_TriggerRound ` set ss"
  using assms by (induction rule: list_all2_induct) (auto dest: update_snapshot_sel)

context cluster_api
begin

lemma still_recorded:
  assumes "round_recorded sp" and "run_state (reconcileTasks E sp) s = ((sp', err), s')"
  shows "s' = s \<and> round_recorded sp' \<and> err = None"
  using assms by (auto simp: reconcileTasks_def round_recorded_def split: if_splits)

lemma recorded_step:
  assumes "(n, f) \<in> set (pod_recs E)" and "run_state (f sp) s = ((sp', err), s')" and "round_recorded sp"
  shows "still tasks sps s s' \<and> round_recorded sp'"
proof -
  consider (v) "f = (\<lambda>sp. do { err \<leftarrow> pod_validate E sp; State_Monad.return (sp, err) })"
    | (t) "f = reconcileTasks E" | (u) "f = reconcileTasksStatus E"
    using assms(1) by (auto simp: pod_recs_def)
  then show ?thesis
  proof cases
    case v
    then obtain e where "run_state (pod_validate E sp) s = (e, s')" and "sp' = sp"
      using assms(2) by (auto split: prod.splits)
    then show ?thesis using keepsD [OF still_validate] assms(3) by blast
  next
    case t
    then show ?thesis using still_recorded [OF assms(3)] assms(2) still_frame.refl_R by blast
  next
    case u
    then have run: "run_state (reconcileTasksStatus E sp) s = ((sp', err), s')" using assms(2) by simp
    have rounds: "srs_TriggerRound ` set (snaps sp') = srs_TriggerRound ` set (snaps sp)"
      using status_run [OF run] by (elim conjE disjE exE) (simp, erule update_snapshots_rounds)
    have ex: "list_ex (\<lambda>e. srs_TriggerRound e = x) ss \<longleftrightarrow> x \<in> srs_TriggerRound ` set ss" for x ss
      by (auto simp: list_ex_iff)
    have last: "spst_LastTriggerRound (sp_Status sp') = spst_LastTriggerRound (sp_Status sp)"
      using run by (auto simp: reconcileTasksStatus_def Let_def split: sum.splits prod.splits)
    have "round_recorded sp'"
      using assms(3) status_run [OF run] unfolding round_recorded_def ex rounds last by simp
    then show ?thesis using keepsD [OF still_status run] by blast
  qed
qed

lemma recorded_loop:
  assumes "set recs \<subseteq> set (pod_recs E)" and "run_state (run_pod_recs E recs sp) s = (sp', s')" and "round_recorded sp"
  shows "still tasks sps s s'"
  using assms
proof (induction recs arbitrary: sp s)
  case Nil
  then show ?case using still_frame.refl_R by auto
next
  case (Cons rec recs)
  obtain n f where rec: "rec = (n, f)" by (cases rec)
  have in_recs: "(n, f) \<in> set (pod_recs E)" and recs: "set recs \<subseteq> set (pod_recs E)" using Cons.prems(1) rec by simp_all
  from Cons.prems(2) [unfolded rec] show ?case
  proof (cases rule: still_ops.pod_iteration)
    case (fails conds i s1 sp1 e)
    from recorded_step [OF in_recs fails(3)] Cons.prems(3) show ?thesis using still_frame.trans_R [OF fails(2)] by simp
  next
    case (goes_on conds i s1 sp1 s2 sp3 s3)
    have r: "still tasks sps s1 s2 \<and> round_recorded sp1" using recorded_step [OF in_recs goes_on(3)] Cons.prems(3) by simp
    then have "round_recorded sp3" using goes_on(4) by (auto simp: step_done_def Let_def)
    from still_frame.trans_R [OF goes_on(5) Cons.IH [OF recs goes_on(6) this]] r
    show ?thesis using still_frame.trans_R [OF goes_on(2)] still_frame.trans_R by blast
  qed
qed

text \<open>A container that was dealt with has its task.\<close>
lemma container_created:
  assumes "run_state (snapshot_container E p c sp) s = ((sp', None), s')"
  shows "tasks (gs_world s') (om_Namespace (sp_meta sp), task_name (om_Name (sp_meta sp)) (sps_TriggerRound (sp_Spec sp)) c) \<noteq> None"
proof -
  obtain cs css where cs: "filter (\<lambda>cs. cs_Name cs = c) (pod_ContainerStatuses p) = cs # css"
    using assms by (cases "filter (\<lambda>cs. cs_Name cs = c) (pod_ContainerStatuses p)") (auto simp: snapshot_container_def)
  have started: "cs_ContainerID cs \<noteq> []" using assms cs by (auto simp: snapshot_container_def)
  obtain img s1 where ren: "run_state (renderNewImageName E (cs_Image cs) (iso_ImageRefFormat (sps_ImageSaveOptions (sp_Spec sp)))
      (append_snapped_suffix sp)) s = (img, s1)" by (metis prod.collapse)
  obtain new where img: "img = Inr new" using assms cs started ren by (cases img) (auto simp: snapshot_container_def)
  let ?t = "new_task E sp p c cs new"
  obtain res w2 where cr: "run_state (env_create_task E ?t) (gs_world s1) = (res, w2)" by (metis prod.collapse)
  have s': "tasks (gs_world s') = tasks w2"
    using assms cs started ren img cr
      obs_now [of w2] by (auto simp: snapshot_container_def Let_def split: sum.splits if_splits)
  have "tasks w2 (task_key ?t) \<noteq> None"
  proof (cases res)
    case (Inl e)
    then have "IsAlreadyExists e"
      using assms cs started ren img cr by (auto simp: snapshot_container_def Let_def split: if_splits)
    then show ?thesis using create_exists [of ?t "gs_world s1" e w2] cr Inl by simp
  next
    case (Inr t')
    then show ?thesis using create_ok [of ?t "gs_world s1" t' w2] cr by auto
  qed
  then show ?thesis using s' by (simp add: new_task_def Let_def)
qed

lemma containers_created:
  assumes "run_state (snapshot_containers E p cs sp) s = ((sp', None), s')" and "c \<in> set cs"
  shows "tasks (gs_world s') (om_Namespace (sp_meta sp), task_name (om_Name (sp_meta sp)) (sps_TriggerRound (sp_Spec sp)) c) \<noteq> None"
  using assms
proof (induction cs arbitrary: sp s)
  case (Cons c' cs)
  obtain sp1 e1 s1 where one: "run_state (snapshot_container E p c' sp) s = ((sp1, e1), s1)" by (metis prod.collapse)
  have e1: "e1 = None" and rest: "run_state (snapshot_containers E p cs sp1) s1 = ((sp', None), s')"
    using Cons.prems(1) one by (auto split: option.splits)
  note same = container_snaps [OF one]
  show ?case
  proof (cases "c \<in> set cs")
    case True
    from Cons.IH [OF rest this] show ?thesis using same by simp
  next
    case False
    then have "c = c'" using Cons.prems(2) by simp
    then have "tasks (gs_world s1) (om_Namespace (sp_meta sp), task_name (om_Name (sp_meta sp)) (sps_TriggerRound (sp_Spec sp)) c) \<noteq> None"
      using container_created [OF one [unfolded e1]] by simp
    moreover have "tasks (gs_world s1) \<subseteq>\<^sub>m tasks (gs_world s')"
      using keepsD [OF grown_containers rest] by (simp add: grown_def)
    ultimately show ?thesis by (metis domIff map_le_implies_dom_le subsetD)
  qed
qed simp

lemma recorded_quiet:
  assumes "sps (gs_world s) (ns, nm) = Some sp" and "round_recorded sp"
  shows "tasks (gs_world (snd (run_state (Pod_Reconcile E ns nm) s))) = tasks (gs_world s)"
  using prod.collapse [of "run_state (Pod_Reconcile E ns nm) s", symmetric]
proof (cases rule: pod_reconcile_parts)
  case none
  then show ?thesis by (simp add: still_def)
next
  case (loop sp' s2 sp1 s3 u w4)
  have "still tasks sps s2 s3" using recorded_loop [OF subset_refl loop(4)] loop(1) assms by simp
  moreover have "tasks w4 = tasks (gs_world s3)" using update_sp_tasks [of sp1 "gs_world s3"] loop(5) by simp
  ultimately show ?thesis using loop(3,6) by (simp add: still_def)
qed

lemma pod_done:
  assumes "sps (gs_world s) (ns, nm) = Some sp" and "0 < sint (sps_TriggerRound (sp_Spec sp))"
    and "run_state (Pod_Reconcile E ns nm) s = ((q, None), s')"
  shows "\<exists>p. sps (gs_world s') (ns, nm) = Some p \<and> q = (if unfinished p then \<lparr>RequeueAfter = 15 * second_ns\<rparr> else no_requeue)"
  using assms(3)
proof (cases rule: pod_reconcile_parts)
  case none
  then show ?thesis using assms(1,2) by force
next
  case (loop sp' s2 sp1 s3 u w4)
  then obtain p where u: "u = Inr p" and q: "q = (if unfinished p then \<lparr>RequeueAfter = 15 * second_ns\<rparr> else no_requeue)"
    by (cases u) auto
  have "sp_key sp1 = sp_key sp'" using run_pod_recs_moves [OF subset_refl loop(4) lists_truthful] by (simp add: pod_moves_def)
  then have "sp_key sp1 = (ns, nm)" using sp_keyed [OF loop(1)] by simp
  then have "sps w4 (ns, nm) = Some p" using update_sp_ok [OF loop(5) [unfolded u]] by auto
  then show ?thesis using loop(6) q by (simp add: still_def)
qed

end

lemma metrics_ok_pod_step:
  assumes "p \<in> set (pod_recs E)"
  shows "keeps metrics_ok (snd p sp)"
proof -
  have get: "keeps metrics_ok (getPod E sp)" for sp unfolding getPod_def Let_def by (intro metrics_ok_rules)
  have ren: "keeps metrics_ok (renderNewImageName E i f b)" for i f b
    unfolding renderNewImageName_def withRandomTag_def Let_def by (intro metrics_ok_rules)
  have one: "keeps metrics_ok (snapshot_container E p c sp)" for p c sp
    unfolding snapshot_container_def Let_def
    by (auto split: list.split sum.split intro!: metrics_ok_rules ren simp del: run_time_now)
  have all: "keeps metrics_ok (snapshot_containers E p cs sp)" for p cs sp
    by (induction cs arbitrary: sp) (simp_all only: snapshot_containers.simps, (intro metrics_ok_rules one | assumption)+)
  have snap: "keeps metrics_ok (update_snapshot E m e)" for m e unfolding update_snapshot_def by (intro metrics_ok_rules)
  have upd: "keeps metrics_ok (update_snapshots E m ss)" for m ss
    by (induction ss) (simp_all only: update_snapshots.simps, (intro metrics_ok_rules snap | assumption)+)
  have "keeps metrics_ok (pod_validate E sp)" unfolding pod_validate_def by (intro metrics_ok_rules get)
  moreover have "keeps metrics_ok (reconcileTasks E sp)" unfolding reconcileTasks_def by (intro metrics_ok_rules get all)
  moreover have "keeps metrics_ok (reconcileTasksStatus E sp)" unfolding reconcileTasksStatus_def Let_def
    by (intro metrics_ok_rules upd)
  ultimately show ?thesis using assms by (auto simp: pod_recs_def intro!: metrics_ok_rules)
qed

lemma metrics_ok_run_pod_recs: "set recs \<subseteq> set (pod_recs E) \<Longrightarrow> keeps metrics_ok (run_pod_recs E recs sp)"
proof (induction recs arbitrary: sp)
  case (Cons rec recs)
  obtain n f where rec: "rec = (n, f)" by (cases rec)
  have "keeps metrics_ok (f sp)" for sp using metrics_ok_pod_step [of "(n, f)" E] Cons.prems rec by simp
  then show ?case using Cons unfolding rec run_pod_recs.simps Let_def
    by (intro metrics_ok_rules ensure_condition_metrics) auto
qed (simp add: metrics_frame.keeps_return)

lemma task_name_inj:
  assumes "task_name sp r c = task_name sp r' c'" and "0 < sint r" and "0 < sint r'"
  shows "r = r' \<and> c = c'"
proof -
  have parts: "xs = ys \<and> zs = ws" if "xs @ CHR ''-'' # zs = ys @ CHR ''-'' # ws" "CHR ''-'' \<notin> set xs" "CHR ''-'' \<notin> set ys"
    for xs ys zs ws :: string
    using that by (induction xs arbitrary: ys) (auto simp: Cons_eq_append_conv)
  have "int_string (sint r) @ CHR ''-'' # c = int_string (sint r') @ CHR ''-'' # c'"
    using assms(1) by (simp add: task_name_def)
  then have "digits_string (sint r) @ CHR ''-'' # c = digits_string (sint r') @ CHR ''-'' # c'"
    using assms(2,3) by (simp add: int_string_def)
  from parts [OF this] digits_no_minus assms(2,3) have "digits_string (sint r) = digits_string (sint r')" "c = c'" by simp_all
  then show ?thesis using digits_inj [of "sint r" "sint r'"] assms(2,3) by (simp add: signed_word_eqI)
qed

section \<open>Properties\<close>

text \<open>C14: a call of Reconcile for a \<^verbatim>\<open>SnapshotPod\<close> never changes or removes a task object, whatever it returns:
  it only adds tasks, with an empty status. Of the \<^verbatim>\<open>SnapshotPod\<close> objects at most the one it was
  called for changes, and its spec does not. If that object had at most 20 snapshot entries and a
  completed task for each that is reported successful, it still has.\<close>
theorem pod_reconcile_frame:
  assumes "cluster_api E tasks sps" and "run_state (Pod_Reconcile E ns nm) s = (res, s')"
  shows "tasks (gs_world s) \<subseteq>\<^sub>m tasks (gs_world s') \<and>
    (\<forall>k t. tasks (gs_world s') k = Some t \<and> tasks (gs_world s) k = None \<longrightarrow> spt_Status t = empty_task_status) \<and>
    (sps (gs_world s') = sps (gs_world s) \<or> (\<exists>p p'. sps (gs_world s) (ns, nm) = Some p \<and>
      sps (gs_world s') = (sps (gs_world s))((ns, nm) \<mapsto> p') \<and> sp_Spec p' = sp_Spec p \<and>
      (snaps_ok (tasks (gs_world s)) (snaps p) \<longrightarrow> snaps_ok (tasks (gs_world s')) (snaps p'))))"
  by (rule cluster_api.pod_reconcile_effect [OF assms])

abbreviation pod_run :: "sim_world \<Rightarrow> (ctrl_Result \<times> go_error option) \<times> sim_world gstate" where
  "pod_run w \<equiv> run_state (Pod_Reconcile sim_env ''default'' ''snap'') (sim_state w)"

theorem pod_reconcile_frame_witness:
  "sim_task_store (gs_world (sim_state flaky_world)) \<subseteq>\<^sub>m sim_task_store (gs_world (snd (pod_run flaky_world))) \<and>
    (sim_sp_store (gs_world (snd (pod_run flaky_world))) = sim_sp_store (gs_world (sim_state flaky_world)) \<or>
     (\<exists>p p'. sim_sp_store (gs_world (sim_state flaky_world)) (''default'', ''snap'') = Some p \<and>
      sim_sp_store (gs_world (snd (pod_run flaky_world))) =
        (sim_sp_store (gs_world (sim_state flaky_world)))((''default'', ''snap'') \<mapsto> p') \<and> sp_Spec p' = sp_Spec p \<and>
      (snaps_ok (sim_task_store (gs_world (sim_state flaky_world))) (snaps p) \<longrightarrow>
        snaps_ok (sim_task_store (gs_world (snd (pod_run flaky_world)))) (snaps p'))))"
  using pod_reconcile_frame [OF sim_cluster.cluster_api_axioms prod.collapse [symmetric],
    where ns = "''default''" and nm = "''snap''" and s = "sim_state flaky_world"] by blast

text \<open>C9: when the step that starts a round succeeds, it has found the target pod, and every wanted container of
  that pod has its task: the containers named in the spec, or all containers of the pod if none is named. The task carries
  the name made of the object, the round and the container.\<close>
theorem round_creates_all_tasks:
  assumes "cluster_api E tasks sps" and "\<not> round_recorded sp"
    and "run_state (reconcileTasks E sp) s = ((sp', None), s')"
  shows "\<exists>p. fst (run_state (getPod E sp) s) = Inr p \<and>
    (\<forall>c\<in>set (wanted_containers sp p). tasks (gs_world s')
      (om_Namespace (sp_meta sp), task_name (om_Name (sp_meta sp)) (sps_TriggerRound (sp_Spec sp)) c) \<noteq> None)"
proof -
  obtain res s1 where get: "run_state (getPod E sp) s = (res, s1)" by (metis prod.collapse)
  have "run_state (case res of Inl err \<Rightarrow> State_Monad.return (sp, Some err)
      | Inr p \<Rightarrow> snapshot_containers E p (wanted_containers sp p) sp) s1 = ((sp', None), s')"
    using assms(2,3) get by (simp add: reconcileTasks_def round_recorded_def)
  then obtain p where p: "res = Inr p" "run_state (snapshot_containers E p (wanted_containers sp p) sp) s1 = ((sp', None), s')"
    by (cases res) auto
  with get cluster_api.containers_created [OF assms(1) p(2)] show ?thesis
    by (intro exI [of _ p]) auto
qed

theorem round_creates_all_tasks_witness:
  "\<exists>p. fst (run_state (getPod sim_env sample_sp) (sim_state pod_world)) = Inr p \<and>
    (\<forall>c\<in>set (wanted_containers sample_sp p). sim_task_store (gs_world (snd (run_state (reconcileTasks sim_env sample_sp) (sim_state pod_world))))
      (om_Namespace (sp_meta sample_sp), task_name (om_Name (sp_meta sample_sp)) (sps_TriggerRound (sp_Spec sample_sp)) c) \<noteq> None)"
proof -
  let ?run = "run_state (reconcileTasks sim_env sample_sp) (sim_state pod_world)"
  have "snd (fst ?run) = None" by code_simp
  then have run: "?run = ((fst (fst ?run), None), snd ?run)" by (metis prod.collapse)
  have "\<not> round_recorded sample_sp" by (simp add: round_recorded_def sample_sp_def)
  from round_creates_all_tasks [OF sim_cluster.cluster_api_axioms this run] show ?thesis .
qed

text \<open>C18: a round is started once. If the round of the spec is the last one handled or occurs among the
  snapshots, a call of Reconcile creates no task and changes none.\<close>
theorem recorded_round_not_restarted:
  assumes "cluster_api E tasks sps" and "sps (gs_world s) (ns, nm) = Some sp" and "round_recorded sp"
  shows "tasks (gs_world (snd (run_state (Pod_Reconcile E ns nm) s))) = tasks (gs_world s)"
  by (rule cluster_api.recorded_quiet [OF assms])

definition recorded_sp :: SnapshotPod where
  "recorded_sp = set_sp_status (\<lambda>st. st\<lparr>spst_LastTriggerRound := 1\<rparr>) sample_sp"

definition recorded_world :: sim_world where
  "recorded_world = pod_world\<lparr>sw_sps := [((''default'', ''snap''), recorded_sp)]\<rparr>"

theorem recorded_round_not_restarted_witness:
  "sim_task_store (gs_world (snd (pod_run recorded_world))) = sim_task_store (gs_world (sim_state recorded_world))"
proof (rule recorded_round_not_restarted [OF sim_cluster.cluster_api_axioms])
  show "sim_sp_store (gs_world (sim_state recorded_world)) (''default'', ''snap'') = Some recorded_sp"
    by (simp add: recorded_world_def sim_sp_store_def recorded_sp_def sample_sp_def)
  show "round_recorded recorded_sp" by (simp add: round_recorded_def recorded_sp_def sample_sp_def)
qed

text \<open>C15: collecting results is monotone and exact. The step reads the stored tasks that carry the label of the
  object. Entries keep their place, task, round, image and container; an entry that is final does not change. Any
  other entry becomes Success if the task listed under its name (the last one, if a name is listed twice) is
  completed, and Failed, with the messages of the conditions that do not hold, if that task is failed; it
  stays as it is if that task is in no final phase, and is set back to Created with a remark if none is listed.\<close>
theorem results_collected:
  assumes "cluster_api E tasks sps" and "run_state (reconcileTasksStatus E sp) s = ((sp', None), s')"
  shows "\<exists>ts. fst (run_state (env_list_tasks E (Some [(SnapshotNameLabel, om_Name (sp_meta sp))])) (gs_world s)) = Inr ts \<and>
    (\<forall>t. t \<in> set ts \<longleftrightarrow> tasks (gs_world s) (task_key t) = Some t \<and>
      map_of (map_entries (om_Labels (spt_meta t))) SnapshotNameLabel = Some (om_Name (sp_meta sp))) \<and>
    list_all2 (\<lambda>e e'. srs_TaskName e' = srs_TaskName e \<and> srs_TriggerRound e' = srs_TriggerRound e \<and>
      srs_ImageRef e' = srs_ImageRef e \<and> srs_ContainerName e' = srs_ContainerName e \<and>
      (if terminal_result (srs_Result e) then e' = e
       else case find (\<lambda>t. om_Name (spt_meta t) = srs_TaskName e) (rev ts) of
         None \<Rightarrow> srs_Result e' = ResultCreated \<and> srs_FailedReason e' = ''can not fetch task''
       | Some t \<Rightarrow>
           if sptst_Phase (spt_Status t) = PhaseCompleted then srs_Result e' = ResultSuccess \<and> srs_CompletedAt e' \<noteq> None
           else if sptst_Phase (spt_Status t) = PhaseFailed
           then srs_Result e' = ResultFailed \<and> srs_FailedReason e' = failed_reason t
           else e' = e)) (snaps sp) (snaps sp')"
proof -
  let ?sel = "Some [(SnapshotNameLabel, om_Name (sp_meta sp))]"
  obtain ts m where m: "m = SliceToMap ts (\<lambda>item. (om_Name (spt_meta item), item))"
    and ts: "fst (run_state (env_list_tasks E ?sel) (gs_world s)) = Inr ts"
    and all: "list_all2 (\<lambda>e e'. \<exists>s1 s2. run_state (update_snapshot E m e) s1 = (e', s2)) (snaps sp) (snaps sp')"
    using cluster_store.status_run [OF cluster_api_store [OF assms(1)] assms(2)] by blast
  have 1: "t \<in> set ts \<longleftrightarrow> tasks (gs_world s) (task_key t) = Some t \<and>
      map_of (map_entries (om_Labels (spt_meta t))) SnapshotNameLabel = Some (om_Name (sp_meta sp))" for t
    using cluster_api.list_tasks_ok [OF assms(1) ts, of t] by (simp add: labels_match_def map_entries_def)
  have 2: "m n = find (\<lambda>t. om_Name (spt_meta t) = n) (rev ts)" for n unfolding m by (rule SliceToMap_find)
  show ?thesis
    by (rule exI [of _ ts], rule conjI [OF ts], rule conjI [OF allI [OF 1]], rule list_all2_mono [OF all])
      (elim exE, drule update_snapshot_exact, unfold 2, assumption)
qed

definition collecting_world :: sim_world where
  "collecting_world = pod_world\<lparr>sw_tasks := [((''default'', ''snap-1-app''),
     (new_task sim_env sample_sp sample_pod ''app'' (hd (pod_ContainerStatuses sample_pod)) ''nginx:s'')\<lparr>spt_Status := empty_task_status\<lparr>sptst_Phase := PhaseCompleted\<rparr>\<rparr>)]\<rparr>"

text \<open>An object with the entry of the container \<^verbatim>\<open>app\<close>.\<close>
definition collecting_sp :: SnapshotPod where
  "collecting_sp = set_sp_status (\<lambda>st. st\<lparr>spst_Snapshots := [\<lparr>srs_TriggerRound = 1, srs_TriggerTime = 0,
     srs_TaskName = ''snap-1-app'', srs_ImageRef = ''nginx:s'', srs_ContainerName = ''app'', srs_Result = ResultCreated,
     srs_FailedReason = [], srs_CompletedAt = None\<rparr>]\<rparr>) sample_sp"

abbreviation collecting_run :: "(SnapshotPod \<times> go_error option) \<times> sim_world gstate" where
  "collecting_run \<equiv> run_state (reconcileTasksStatus sim_env collecting_sp) (sim_state collecting_world)"

theorem results_collected_witness:
  "map srs_Result (snaps collecting_sp) = [ResultCreated] \<and>
    map srs_Result (snaps (fst (fst collecting_run))) = [ResultSuccess]"
proof -
  have "snd (fst collecting_run) = None" by code_simp
  then have run: "collecting_run = ((fst (fst collecting_run), None), snd collecting_run)" by (metis prod.collapse)
  obtain t where t: "fst (run_state (env_list_tasks sim_env (Some [(SnapshotNameLabel, ''snap'')])) (gs_world (sim_state collecting_world))) = Inr [t]"
      "sptst_Phase (spt_Status t) = PhaseCompleted" "om_Name (spt_meta t) = ''snap-1-app''"
    by (rule that [of "snd (hd (sw_tasks collecting_world))"]) code_simp+
  have name: "om_Name (sp_meta collecting_sp) = ''snap''" by (simp add: collecting_sp_def sample_sp_def)
  obtain e where e: "snaps collecting_sp = [e]" "srs_TaskName e = ''snap-1-app''" "srs_Result e = ResultCreated"
    by (simp add: collecting_sp_def)
  from results_collected [OF sim_cluster.cluster_api_axioms run, unfolded name e(1) t(1)] show ?thesis
    using t e by (elim exE conjE) (clarsimp simp: list_all2_Cons1)
qed



text \<open>Within one \<^verbatim>\<open>SnapshotPod\<close> the task names of different rounds or containers differ, so that
  tolerating AlreadyExists only ever finds the task of the same round and container.\<close>
theorem task_names_distinct:
  assumes "(r, c) \<noteq> (r', c')" and "0 < sint r" and "0 < sint r'"
  shows "task_name sp r c \<noteq> task_name sp r' c'"
  using task_name_inj assms by blast

theorem task_names_distinct_witness:
  "task_name ''snap'' 1 ''2-app'' \<noteq> task_name ''snap'' 12 ''app''"
  by (rule task_names_distinct) simp_all

text \<open>Across objects they need not: object \<^verbatim>\<open>a\<close> in round 1 with container \<^verbatim>\<open>2-b\<close> and object
  \<^verbatim>\<open>a-1\<close> in round 2 with container \<^verbatim>\<open>b\<close>.\<close>
lemma task_names_collide: "task_name ''a'' 1 ''2-b'' = task_name ''a-1'' 2 ''b''"
  by code_simp

text \<open>The metrics of a call are well-labelled, whatever happens in it.\<close>
theorem pod_metrics_well_labelled:
  "\<exists>ops. gs_metrics (snd (run_state (Pod_Reconcile E ns nm) s)) = gs_metrics s @ ops \<and> list_all well_labelled ops"
proof -
  have "keeps metrics_ok (Pod_Reconcile E ns nm)"
    unfolding Pod_Reconcile_def by (intro metrics_ok_rules metrics_ok_run_pod_recs subset_refl)
  then show ?thesis by (simp add: keeps_def metrics_ok_def)
qed

section \<open>A lost container\<close>

text \<open>What is left in a world: the tasks, the rounds handled, and whether all conditions hold.\<close>
definition aftermath :: "sim_world gstate \<Rightarrow> (string \<times> string) list \<times> int32 list \<times> bool" where
  "aftermath s = (map fst (sw_tasks (gs_world s)), map (\<lambda>(k, p). spst_LastTriggerRound (sp_Status p)) (sw_sps (gs_world s)),
     list_all (\<lambda>(k, p). list_all (\<lambda>c. cond_Status c = ConditionTrue) (spst_Conditions (sp_Status p))) (sw_sps (gs_world s)))"

text \<open>In the flaky world the creation of the second task of round 1 times out. The first call stores the entry of
  the first container and reports the failure in the condition; the next call finds the round recorded and marks
  it handled, all conditions hold again, and the container \<^verbatim>\<open>log\<close> never gets a task.\<close>
lemma partial_round_run:
  "aftermath (pod_calls 3 (sim_state flaky_world)) = ([(''default'', ''snap-1-app'')], [1], True)"
  by code_simp

end
