(* ===== verification/WebhookTheorems.thy ===== *)
theory WebhookTheorems
  imports Webhook PodTheorems
begin

text \<open>
  The properties of the admission webhook: which requests it denies, which objects it changes, that
  deleting a pod starts a new round, and which images and pull secrets a created pod gets.
\<close>

section \<open>Requests that are denied\<close>

text \<open>C25: the webhook denies a request only if it is the creation or deletion of a pod whose object cannot be
  decoded; every other request is allowed, whatever the API server answers. In particular no error of
  the snapshot machinery keeps a pod from being created or deleted.\<close>
theorem denied_only_undecodable:
  "rs_Allowed (fst (run_state (Webhook_Handle E srt rq) s)) \<longleftrightarrow>
   \<not> (rq_Resource rq = podGVR \<and> (rq_Operation rq = OpDelete \<and> isl (rq_OldObject rq) \<or>
     rq_Operation rq = OpCreate \<and> isl (rq_Object rq)))"
  unfolding Webhook_Handle_def
  by (auto simp: admission_Allowed_def admission_Errored_def split: admission_op.splits sum.splits prod.splits)

section \<open>The deletion of a pod\<close>

text \<open>The object with one more round, as the handler sends it.\<close>
definition next_round :: "SnapshotPod \<Rightarrow> SnapshotPod" where
  "next_round sp = sp\<lparr>sp_Spec := (sp_Spec sp)\<lparr>sps_TriggerRound := sps_TriggerRound (sp_Spec sp) + 1\<rparr>\<rparr>"

lemma next_round_sel [simp]:
  "sp_key (next_round sp) = sp_key sp" "sps_TriggerRound (sp_Spec (next_round sp)) = sps_TriggerRound (sp_Spec sp) + 1"
  by (simp_all add: next_round_def)

lemma run_handlePodUpdate:
  assumes "fst (run_state (env_list_snapshotpods E (Some ns)) (gs_world s)) = Inr items"
    and "find (\<lambda>item. targets item p) items = Some sp" and "aso_AutoSaveOnTermination (sps_AutoSaveOptions (sp_Spec sp))"
  shows "\<exists>w. w = snd (run_state (env_list_snapshotpods E (Some ns)) (gs_world s)) \<and>
    run_state (handlePodUpdate E ns p) s = (let sp1 = next_round sp;
      u = run_state (env_update_snapshotpod E sp1) w in
      ((case fst u of Inl err \<Rightarrow> (sps_TriggerRound (sp_Spec sp1), Some err) | Inr sp2 \<Rightarrow> (sps_TriggerRound (sp_Spec sp2), None)),
       s\<lparr>gs_world := snd u\<rparr>))"
  using assms by (simp add: handlePodUpdate_def Let_def next_round_def)

text \<open>The effect of one more round on a stored object.\<close>
definition round_bumped :: "SnapshotPod \<Rightarrow> SnapshotPod \<Rightarrow> bool" where
  "round_bumped sp sp' \<longleftrightarrow> sp_Spec sp' = (sp_Spec sp)\<lparr>sps_TriggerRound := sps_TriggerRound (sp_Spec sp) + 1\<rparr> \<and>
     sp_Status sp' = sp_Status sp \<and> sp_key sp' = sp_key sp"

text \<open>The object the handler raises: the first of the list that targets the pod, if it asks for a snapshot.\<close>
definition to_raise :: "'w env \<Rightarrow> 'w \<Rightarrow> string \<Rightarrow> pod \<Rightarrow> SnapshotPod \<Rightarrow> bool" where
  "to_raise E w ns p sp \<longleftrightarrow> (\<exists>items. fst (run_state (env_list_snapshotpods E (Some ns)) w) = Inr items \<and>
     find (\<lambda>item. targets item p) items = Some sp \<and> aso_AutoSaveOnTermination (sps_AutoSaveOptions (sp_Spec sp)))"

lemma update_parts:
  assumes "run_state (handlePodUpdate E ns p) s = (res, s')"
  shows "gs_world s' = snd (run_state (env_list_snapshotpods E (Some ns)) (gs_world s)) \<or>
    (\<exists>sp. to_raise E (gs_world s) ns p sp \<and> gs_world s' =
      snd (run_state (env_update_snapshotpod E (next_round sp)) (snd (run_state (env_list_snapshotpods E (Some ns)) (gs_world s)))))"
proof (cases "\<exists>sp. to_raise E (gs_world s) ns p sp")
  case False
  then have "gs_world s' = snd (run_state (env_list_snapshotpods E (Some ns)) (gs_world s))"
    using assms by (auto simp: to_raise_def handlePodUpdate_def split: sum.splits option.splits if_splits)
  then show ?thesis by blast
next
  case True
  then obtain items sp where found: "fst (run_state (env_list_snapshotpods E (Some ns)) (gs_world s)) = Inr items"
      "find (\<lambda>item. targets item p) items = Some sp" "aso_AutoSaveOnTermination (sps_AutoSaveOptions (sp_Spec sp))"
    unfolding to_raise_def by blast
  have "gs_world s' = snd (run_state (env_update_snapshotpod E (next_round sp))
      (snd (run_state (env_list_snapshotpods E (Some ns)) (gs_world s))))"
    using assms run_handlePodUpdate [OF found] by (auto simp: Let_def)
  then show ?thesis using found unfolding to_raise_def by blast
qed

context sp_store
begin

text \<open>The update of an object that was read as it is stored.\<close>
lemma raise_stored:
  assumes "sps w (sp_key sp) = Some sp" and "run_state (env_update_snapshotpod E (next_round sp)) w = (u, w')"
  shows "sps w' = sps w \<or> (\<exists>sp'. round_bumped sp sp' \<and> sps w' = (sps w)(sp_key sp \<mapsto> sp'))"
proof -
  have "round_bumped sp sp'" if "spec_written cur (next_round sp) sp'" "sps w (sp_key sp) = Some cur" for cur sp'
    using that assms(1) by (auto simp: spec_written_def round_bumped_def next_round_def)
  then show ?thesis
    using assms(2) update_spec_ok [of "next_round sp" w] update_spec_err [of "next_round sp" w] next_round_sel(1) [of sp]
    by (cases u) (metis, metis)
qed

lemma create_quiet: "sps (gs_world (snd (run_state (handlePodCreate E srt p) s))) = sps (gs_world s)"
  by (simp add: handlePodCreate_def list_sps_quiet)

text \<open>Only the deletion of a pod changes a stored object.\<close>
lemma handle_parts:
  assumes "run_state (Webhook_Handle E srt rq) s = (rs, s')"
  shows "sps (gs_world s') = sps (gs_world s) \<or>
    (\<exists>p res. rq_Resource rq = podGVR \<and> rq_Operation rq = OpDelete \<and> rq_OldObject rq = Inr p \<and> deletion_unset p \<and>
      run_state (handlePodUpdate E (om_Namespace (pod_meta p)) p) s = (res, s'))"
proof (cases "\<exists>p. rq_Resource rq = podGVR \<and> rq_Operation rq = OpDelete \<and> rq_OldObject rq = Inr p \<and> deletion_unset p")
  case True
  then obtain p where p: "rq_Resource rq = podGVR" "rq_Operation rq = OpDelete" "rq_OldObject rq = Inr p" "deletion_unset p"
    by blast
  obtain res t where "run_state (handlePodUpdate E (om_Namespace (pod_meta p)) p) s = (res, t)" by fastforce
  moreover from this have "s' = t" using assms p by (auto simp: Webhook_Handle_def split: prod.splits)
  ultimately show ?thesis using p by blast
next
  case False
  have "sps (gs_world s') = sps (gs_world s)"
  proof (cases "rq_Resource rq = podGVR \<and> rq_Operation rq = OpCreate")
    case True
    have create: "sps (gs_world t) = sps (gs_world s)" if "run_state (handlePodCreate E srt p) s = (res, t)" for p res t
      using create_quiet [of srt p s] that by simp
    show ?thesis using assms True
      by (auto simp: Webhook_Handle_def range_quiet dest!: create split: sum.splits prod.splits if_splits)
  next
    case other: False
    then show ?thesis using assms False
      by (auto simp: Webhook_Handle_def split: admission_op.splits sum.splits if_splits)
  qed
  then show ?thesis ..
qed

end

lemma sp_api_store: "sp_api E sps \<Longrightarrow> sp_store E sps"
  by (simp add: sp_api_def)

context sp_api
begin

lemma update_frame:
  assumes "run_state (handlePodUpdate E ns p) s = (res, s')"
  shows "sps (gs_world s') = sps (gs_world s) \<or>
    (\<exists>sp sp'. sps (gs_world s) (sp_key sp) = Some sp \<and> om_Namespace (sp_meta sp) = ns \<and> targets sp p \<and>
      aso_AutoSaveOnTermination (sps_AutoSaveOptions (sp_Spec sp)) \<and> round_bumped sp sp' \<and>
      sps (gs_world s') = (sps (gs_world s))(sp_key sp \<mapsto> sp'))"
proof -
  let ?w = "snd (run_state (env_list_snapshotpods E (Some ns)) (gs_world s))"
  note quiet = list_sps_quiet [of "Some ns" "gs_world s"]
  from update_parts [OF assms] show ?thesis
  proof
    assume "gs_world s' = ?w"
    then show ?thesis using quiet by simp
  next
    assume "\<exists>sp. to_raise E (gs_world s) ns p sp \<and> gs_world s' = snd (run_state (env_update_snapshotpod E (next_round sp)) ?w)"
    then obtain sp items where upd: "gs_world s' = snd (run_state (env_update_snapshotpod E (next_round sp)) ?w)"
      and list: "fst (run_state (env_list_snapshotpods E (Some ns)) (gs_world s)) = Inr items"
      and sp: "find (\<lambda>item. targets item p) items = Some sp" "aso_AutoSaveOnTermination (sps_AutoSaveOptions (sp_Spec sp))"
      unfolding to_raise_def by blast
    have t: "targets sp p" "sp \<in> set items" using sp(1) by (auto simp: find_Some_iff)
    then have stored: "sps (gs_world s) (sp_key sp) = Some sp" "om_Namespace (sp_meta sp) = ns"
      using list_sps_ok [OF list] by auto
    then show ?thesis using raise_stored [of ?w sp, OF _ prod.collapse [symmetric]] upd quiet sp(2) t(1) by metis
  qed
qed

lemma handle_frame:
  assumes "run_state (Webhook_Handle E srt rq) s = (rs, s')"
  shows "sps (gs_world s') = sps (gs_world s) \<or>
    (\<exists>p sp sp'. rq_Resource rq = podGVR \<and> rq_Operation rq = OpDelete \<and> rq_OldObject rq = Inr p \<and> deletion_unset p \<and>
      sps (gs_world s) (sp_key sp) = Some sp \<and> om_Namespace (sp_meta sp) = om_Namespace (pod_meta p) \<and> targets sp p \<and>
      aso_AutoSaveOnTermination (sps_AutoSaveOptions (sp_Spec sp)) \<and> round_bumped sp sp' \<and>
      sps (gs_world s') = (sps (gs_world s))(sp_key sp \<mapsto> sp'))"
  using handle_parts [OF assms] update_frame by blast

text \<open>The only object of a namespace that targets a pod is the one both handlers find.\<close>
lemma find_target:
  assumes "fst (run_state (env_list_snapshotpods E (Some (om_Namespace (sp_meta sp)))) w) = Inr items"
    and "sps w (sp_key sp) = Some sp" and "targets sp p"
    and "\<And>sp'. sps w (sp_key sp') = Some sp' \<Longrightarrow> om_Namespace (sp_meta sp') = om_Namespace (sp_meta sp) \<Longrightarrow> targets sp' p \<Longrightarrow> sp' = sp"
  shows "find (\<lambda>item. targets item p) items = Some sp"
proof (cases "find (\<lambda>item. targets item p) items")
  case None
  have "sp \<in> set items" using list_sps_ok [OF assms(1)] assms(2) by simp
  then show ?thesis using None assms(3) by (auto simp: find_None_iff)
next
  case (Some sp')
  then have "sp' \<in> set items" "targets sp' p" by (auto simp: find_Some_iff)
  then show ?thesis using list_sps_ok [OF assms(1)] assms(4) Some by auto
qed

end

text \<open>C24: of the stored \<^verbatim>\<open>SnapshotPod\<close> objects a call of the webhook changes at most one, and only for the
  deletion of a pod that is not being deleted yet: an object of the namespace of the pod that targets
  it and asks for a snapshot on termination. The change is one more trigger round and nothing else.\<close>
theorem webhook_frame:
  assumes "sp_api E sps" and "run_state (Webhook_Handle E srt rq) s = (rs, s')"
  shows "sps (gs_world s') = sps (gs_world s) \<or>
    (\<exists>p sp sp'. rq_Resource rq = podGVR \<and> rq_Operation rq = OpDelete \<and> rq_OldObject rq = Inr p \<and> deletion_unset p \<and>
      sps (gs_world s) (sp_key sp) = Some sp \<and> om_Namespace (sp_meta sp) = om_Namespace (pod_meta p) \<and> targets sp p \<and>
      aso_AutoSaveOnTermination (sps_AutoSaveOptions (sp_Spec sp)) \<and> round_bumped sp sp' \<and>
      sps (gs_world s') = (sps (gs_world s))(sp_key sp \<mapsto> sp'))"
  by (rule sp_api.handle_frame [OF assms])

text \<open>C22: the deletion of a pod starts a round. If exactly one \<^verbatim>\<open>SnapshotPod\<close> of the namespace targets the pod and
  it asks for a snapshot on termination, then a request for the deletion, answered by the API server
  without errors, stores that object with its trigger round raised by one (in 32-bit arithmetic), and the
  answer names the new round.\<close>
theorem deletion_starts_round:
  assumes "sp_api E sps" and "rq_Resource rq = podGVR" and "rq_Operation rq = OpDelete" and "rq_OldObject rq = Inr p"
    and "deletion_unset p" and "om_Namespace (pod_meta p) = om_Namespace (sp_meta sp)"
    and "sps (gs_world s) (sp_key sp) = Some sp" and "targets sp p"
    and "\<And>sp'. sps (gs_world s) (sp_key sp') = Some sp' \<Longrightarrow> om_Namespace (sp_meta sp') = om_Namespace (sp_meta sp) \<Longrightarrow>
      targets sp' p \<Longrightarrow> sp' = sp"
    and "aso_AutoSaveOnTermination (sps_AutoSaveOptions (sp_Spec sp))"
    and "run_state (env_list_snapshotpods E (Some (om_Namespace (sp_meta sp)))) (gs_world s) = (Inr items, w)"
    and "run_state (env_update_snapshotpod E (next_round sp)) w = (Inr u, w')"
  shows "\<exists>sp' s'. run_state (Webhook_Handle E srt rq) s =
      (admission_Allowed (''new round: '' @ int_string (sint (sps_TriggerRound (sp_Spec sp) + 1))), s') \<and>
    round_bumped sp sp' \<and> sps (gs_world s') = (sps (gs_world s))(sp_key sp \<mapsto> sp')"
proof -
  have items: "fst (run_state (env_list_snapshotpods E (Some (om_Namespace (sp_meta sp)))) (gs_world s)) = Inr items"
    using assms(11) by simp
  note found = sp_api.find_target [OF assms(1) items assms(7,8,9)]
  have upd: "run_state (handlePodUpdate E (om_Namespace (sp_meta sp)) p) s =
      ((sps_TriggerRound (sp_Spec u), None), s\<lparr>gs_world := w'\<rparr>)"
    using run_handlePodUpdate [OF items found assms(10)] assms(11,12) by (auto simp: Let_def)
  obtain cur where cur: "sps w (sp_key sp) = Some cur" "spec_written cur (next_round sp) u" "sps w' = (sps w)(sp_key sp \<mapsto> u)"
    using sp_store.update_spec_ok [OF sp_api_store [OF assms(1)] assms(12)] by auto
  have quiet: "sps w = sps (gs_world s)"
    using sp_store.list_sps_quiet [OF sp_api_store [OF assms(1)], of "Some (om_Namespace (sp_meta sp))" "gs_world s"] assms(11) by simp
  have "cur = sp" using cur(1) quiet assms(7) by simp
  then have bumped: "round_bumped sp u" using cur(2) by (auto simp: spec_written_def round_bumped_def next_round_def)
  then have "sps_TriggerRound (sp_Spec u) = sps_TriggerRound (sp_Spec sp) + 1" by (simp add: round_bumped_def)
  then show ?thesis using upd bumped cur(3) quiet assms(2-6)
    by (intro exI [of _ u] exI [of _ "s\<lparr>gs_world := w'\<rparr>"]) (simp add: Webhook_Handle_def)
qed

text \<open>A pod on whose termination a snapshot is to be taken.\<close>
definition saving_sp :: SnapshotPod where
  "saving_sp = sample_sp\<lparr>sp_Spec := (sp_Spec sample_sp)\<lparr>sps_AutoSaveOptions := \<lparr>aso_AutoSaveOnTermination = True, aso_Cron = []\<rparr>\<rparr>\<rparr>"

definition saving_world :: sim_world where
  "saving_world = sim_start\<lparr>sw_sps := [((''default'', ''snap''), saving_sp)]\<rparr>"

definition delete_request :: admission_request where
  "delete_request = \<lparr>rq_UID = ''u1'', rq_Resource = podGVR, rq_Operation = OpDelete,
     rq_Object = Inl (PlainError ''unexpected end of JSON input''), rq_OldObject = Inr sample_pod\<rparr>"

lemma saving_stored: "sim_sp_store (gs_world (sim_state saving_world)) k = Some sp \<longleftrightarrow> k = (''default'', ''snap'') \<and> sp = saving_sp"
  by (auto simp: saving_world_def sim_sp_store_def saving_sp_def sample_sp_def)

lemma saving_targets: "targets saving_sp sample_pod"
  by code_simp

theorem webhook_frame_witness:
  "sim_sp_store (gs_world (snd (run_state (Webhook_Handle sim_env insertion_sort_slice delete_request) (sim_state saving_world)))) =
    sim_sp_store (gs_world (sim_state saving_world)) \<or>
   (\<exists>sp'. round_bumped saving_sp sp' \<and>
    sim_sp_store (gs_world (snd (run_state (Webhook_Handle sim_env insertion_sort_slice delete_request) (sim_state saving_world)))) =
      (sim_sp_store (gs_world (sim_state saving_world)))((''default'', ''snap'') \<mapsto> sp'))"
  using webhook_frame [OF sim_webhook.sp_api_axioms prod.collapse [symmetric], where srt = insertion_sort_slice
      and rq = delete_request and s = "sim_state saving_world"]
  by (auto simp: saving_stored simp del: sim_state_sel)

theorem deletion_starts_round_witness:
  "\<exists>sp' s'. run_state (Webhook_Handle sim_env insertion_sort_slice delete_request) (sim_state saving_world) =
      (admission_Allowed ''new round: 2'', s') \<and> round_bumped saving_sp sp' \<and>
    sim_sp_store (gs_world s') = (sim_sp_store (gs_world (sim_state saving_world)))((''default'', ''snap'') \<mapsto> sp')"
proof -
  have key: "om_Name (sp_meta saving_sp) = ''snap''" "om_Namespace (sp_meta saving_sp) = ''default''"
    by (simp_all add: saving_sp_def sample_sp_def)
  have req: "rq_Resource delete_request = podGVR" "rq_Operation delete_request = OpDelete" "rq_OldObject delete_request = Inr sample_pod"
    by (simp_all add: delete_request_def)
  have pod: "deletion_unset sample_pod" "om_Namespace (pod_meta sample_pod) = om_Namespace (sp_meta saving_sp)"
    by (simp_all add: deletion_unset_def sample_pod_def key)
  have auto: "aso_AutoSaveOnTermination (sps_AutoSaveOptions (sp_Spec saving_sp))" by (simp add: saving_sp_def)
  have list: "run_state (env_list_snapshotpods sim_env (Some (om_Namespace (sp_meta saving_sp)))) (gs_world (sim_state saving_world)) =
      (Inr [saving_sp], saving_world\<lparr>sw_calls := 1\<rparr>)"
    by (simp add: sim_list_sps_def api_call_def saving_world_def sim_sp_store_def key)
  have "\<exists>u w'. run_state (env_update_snapshotpod sim_env (next_round saving_sp)) (saving_world\<lparr>sw_calls := 1\<rparr>) = (Inr u, w')"
    by (simp add: sim_store_sp_def api_call_def saving_world_def key next_round_def Let_def)
  then obtain u w' where upd: "run_state (env_update_snapshotpod sim_env (next_round saving_sp)) (saving_world\<lparr>sw_calls := 1\<rparr>) = (Inr u, w')"
    by blast
  have "''new round: '' @ int_string (sint (sps_TriggerRound (sp_Spec saving_sp) + 1)) = ''new round: 2''" by code_simp
  then show ?thesis
    using deletion_starts_round [OF sim_webhook.sp_api_axioms req pod _ saving_targets _ auto list upd,
      where srt = insertion_sort_slice] by (simp add: saving_stored key del: sim_state_sel)
qed

section \<open>The creation of a pod\<close>

text \<open>The entries the handler selects from the object it found.\<close>
definition selected :: "(SnapshotRunningStatus list \<Rightarrow> SnapshotRunningStatus list) \<Rightarrow> SnapshotPod \<Rightarrow> (string \<times> imageConfig) list" where
  "selected srt sp = (if 0 < sint (sps_RecoveryRound (sp_Spec sp)) then recovery_of_round sp
     else if sps_RecoveryRound (sp_Spec sp) = 0 then recovery_of_latest srt sp else [])"

lemma one_secret_selected: "one_secret (sp_secret sp) (selected srt sp)"
  by (simp add: selected_def one_secret_recovery) (simp add: one_secret_def)

context sp_api
begin

lemma create_effect:
  assumes "run_state (Webhook_Handle E srt rq) s = (rs, s')"
    and "rq_Resource rq = podGVR" and "rq_Operation rq = OpCreate" and "rq_Object rq = Inr p"
    and "fst (run_state (env_list_snapshotpods E (Some (om_Namespace (pod_meta p)))) (gs_world s)) = Inr items"
    and "find (\<lambda>item. targets item p) items = Some sp"
  shows "pod_Containers (apply_patches (rs_Patches rs) p) = patched (map_of (selected srt sp)) p"
    and "set (pod_ImagePullSecrets (apply_patches (rs_Patches rs) p)) = set (pod_ImagePullSecrets p) \<union>
      (if sp_secret sp \<noteq> [] \<and> (\<exists>c\<in>set (pod_Containers p). map_of (selected srt sp) (pc_Name c) \<noteq> None) then {sp_secret sp} else {})"
proof -
  let ?m = "selected srt sp"
  obtain w where create: "run_state (handlePodCreate E srt p) s = ((?m, ?m \<noteq> []), s\<lparr>gs_world := w\<rparr>)"
    using assms(5,6) by (auto simp: handlePodCreate_def selected_def)
  define ks where "ks = fst (run_state (env_map_order E (map fst ?m)) w)"
  have patches: "rs_Patches rs = (if ?m = [] then [] else patch_list p (map (\<lambda>k. (k, the (map_of ?m k))) ks))"
    using assms(1-4) create by (auto simp: Webhook_Handle_def admission_Allowed_def ks_def)
  have ks: "mset ks = mset (map fst ?m)" unfolding ks_def by (rule range_keys)
  have empty: "?m = [] \<Longrightarrow> patched (map_of ?m) p = pod_Containers p" by (simp add: patched_def)
  note effect = patch_list_effect [OF one_secret_selected [of sp srt] ks, of p]
  show "pod_Containers (apply_patches (rs_Patches rs) p) = patched (map_of ?m) p"
    using patches empty effect(1) by (cases "?m = []") simp_all
  show "set (pod_ImagePullSecrets (apply_patches (rs_Patches rs) p)) = set (pod_ImagePullSecrets p) \<union>
      (if sp_secret sp \<noteq> [] \<and> (\<exists>c\<in>set (pod_Containers p). map_of ?m (pc_Name c) \<noteq> None) then {sp_secret sp} else {})"
    using patches effect(2) by (cases "?m = []") simp_all
qed

end

text \<open>The best snapshot of a container: successful, and no successful one of it has a greater round.\<close>
definition latest_success :: "SnapshotPod \<Rightarrow> string \<Rightarrow> SnapshotRunningStatus \<Rightarrow> bool" where
  "latest_success sp n e \<longleftrightarrow> e \<in> set (spst_Snapshots (sp_Status sp)) \<and> srs_ContainerName e = n \<and> srs_Result e = ResultSuccess \<and>
     (\<forall>e'\<in>set (spst_Snapshots (sp_Status sp)). srs_ContainerName e' = n \<longrightarrow> srs_Result e' = ResultSuccess \<longrightarrow>
        sint (srs_TriggerRound e') \<le> sint (srs_TriggerRound e))"

context slice_sorter
begin

lemma latest_entry:
  "map_of (recovery_of_latest sort_slice sp) n = Some ic \<Longrightarrow> \<exists>e. latest_success sp n e \<and> ic_image ic = srs_ImageRef e"
  unfolding recovery_of_latest_find latest_success_def
  by (auto simp: recovery_entry_def dest!: find_sorted)

lemma latest_none:
  "map_of (recovery_of_latest sort_slice sp) n = None \<longleftrightarrow> (\<nexists>e. latest_success sp n e)"
proof
  assume "map_of (recovery_of_latest sort_slice sp) n = None"
  then show "\<nexists>e. latest_success sp n e"
    unfolding recovery_of_latest_find latest_success_def by (auto simp: find_sorted_None)
next
  assume none: "\<nexists>e. latest_success sp n e"
  show "map_of (recovery_of_latest sort_slice sp) n = None"
    using none latest_entry [of sp n] by (cases "map_of (recovery_of_latest sort_slice sp) n") blast+
qed

end

text \<open>C23: with recovery round 0 a created pod starts from its last good snapshots. The patches of the answer,
  applied to the pod, replace the image of every container that has a successful snapshot in the
  \<^verbatim>\<open>SnapshotPod\<close> found for it by the image of a successful snapshot of the greatest round, and leave all
  other containers as they are, whatever order \<^verbatim>\<open>sort.Slice\<close> gives to equal rounds and in whatever order Go
  ranges over the map.\<close>
theorem recovers_latest_success:
  assumes "sp_api E sps" and "slice_sorter srt" and "run_state (Webhook_Handle E srt rq) s = (rs, s')"
    and "rq_Resource rq = podGVR" and "rq_Operation rq = OpCreate" and "rq_Object rq = Inr p"
    and "fst (run_state (env_list_snapshotpods E (Some (om_Namespace (pod_meta p)))) (gs_world s)) = Inr items"
    and "find (\<lambda>item. targets item p) items = Some sp" and "sps_RecoveryRound (sp_Spec sp) = 0"
  shows "list_all2 (\<lambda>c c'. if \<exists>e. latest_success sp (pc_Name c) e
      then \<exists>e. latest_success sp (pc_Name c) e \<and> c' = c\<lparr>pc_Image := srs_ImageRef e\<rparr> else c' = c)
    (pod_Containers p) (pod_Containers (apply_patches (rs_Patches rs) p))"
proof -
  have sel: "selected srt sp = recovery_of_latest srt sp" using assms(9) by (simp add: selected_def)
  have one: "if \<exists>e. latest_success sp n e then \<exists>e. latest_success sp n e \<and>
      (case map_of (selected srt sp) n of None \<Rightarrow> c | Some ic \<Rightarrow> c\<lparr>pc_Image := ic_image ic\<rparr>) = c\<lparr>pc_Image := srs_ImageRef e\<rparr>
    else (case map_of (selected srt sp) n of None \<Rightarrow> c | Some ic \<Rightarrow> c\<lparr>pc_Image := ic_image ic\<rparr>) = c" for n c
  proof (cases "map_of (recovery_of_latest srt sp) n")
    case None
    then show ?thesis using slice_sorter.latest_none [OF assms(2), of sp n] sel by simp
  next
    case (Some ic)
    from slice_sorter.latest_entry [OF assms(2) Some] Some sel show ?thesis by auto
  qed
  show ?thesis unfolding sp_api.create_effect(1) [OF assms(1,3-8)] patched_def list.rel_map(2)
    by (rule list.rel_refl) (rule one)
qed

text \<open>C29: with a positive recovery round every container gets the image of the last entry of that round for it,
  and containers without an entry of that round stay as they are. The result of the entry is not looked
  at, so an image that was never pushed is used too.\<close>
theorem recovers_given_round:
  assumes "sp_api E sps" and "run_state (Webhook_Handle E srt rq) s = (rs, s')"
    and "rq_Resource rq = podGVR" and "rq_Operation rq = OpCreate" and "rq_Object rq = Inr p"
    and "fst (run_state (env_list_snapshotpods E (Some (om_Namespace (pod_meta p)))) (gs_world s)) = Inr items"
    and "find (\<lambda>item. targets item p) items = Some sp" and "0 < sint (sps_RecoveryRound (sp_Spec sp))"
  shows "pod_Containers (apply_patches (rs_Patches rs) p) = map (\<lambda>c.
    case find (\<lambda>e. srs_ContainerName e = pc_Name c \<and> srs_TriggerRound e = sps_RecoveryRound (sp_Spec sp))
        (rev (spst_Snapshots (sp_Status sp))) of
      None \<Rightarrow> c | Some e \<Rightarrow> c\<lparr>pc_Image := srs_ImageRef e\<rparr>) (pod_Containers p)"
proof -
  have filtered: "find P (filter Q xs) = find (\<lambda>x. P x \<and> Q x) xs" for P Q and xs :: "SnapshotRunningStatus list"
    by (induction xs) auto
  have "map_of (selected srt sp) n = map_option (recovery_entry sp)
      (find (\<lambda>e. srs_ContainerName e = n \<and> srs_TriggerRound e = sps_RecoveryRound (sp_Spec sp))
        (rev (spst_Snapshots (sp_Status sp))))" for n
    using assms(8) unfolding selected_def recovery_of_round_def
    by (simp add: round_fold rev_filter filtered split: option.split)
  then show ?thesis unfolding sp_api.create_effect(1) [OF assms(1-7)] patched_def
    by (simp add: recovery_entry_def split: option.split)
qed

text \<open>The patches of an answer touch images and pull secrets only, and of pull secrets they add exactly
  the registry secret of the \<^verbatim>\<open>SnapshotPod\<close>, exactly if it has one and some container gets a snapshot image.\<close>
theorem patches_add_pull_secret:
  assumes "sp_api E sps" and "run_state (Webhook_Handle E srt rq) s = (rs, s')"
    and "rq_Resource rq = podGVR" and "rq_Operation rq = OpCreate" and "rq_Object rq = Inr p"
    and "fst (run_state (env_list_snapshotpods E (Some (om_Namespace (pod_meta p)))) (gs_world s)) = Inr items"
    and "find (\<lambda>item. targets item p) items = Some sp"
  shows "set (pod_ImagePullSecrets (apply_patches (rs_Patches rs) p)) = set (pod_ImagePullSecrets p) \<union>
      (if sp_secret sp \<noteq> [] \<and> (\<exists>c\<in>set (pod_Containers p). map_of (selected srt sp) (pc_Name c) \<noteq> None) then {sp_secret sp} else {}) \<and>
    pod_meta (apply_patches (rs_Patches rs) p) = pod_meta p \<and> pod_NodeName (apply_patches (rs_Patches rs) p) = pod_NodeName p"
  using sp_api.create_effect(2) [OF assms] apply_patches_frame [of "rs_Patches rs" p] by simp

section \<open>A pod that is created again\<close>

definition snapshot_entry :: "int32 \<Rightarrow> string \<Rightarrow> string \<Rightarrow> SnapshotRunningResult \<Rightarrow> SnapshotRunningStatus" where
  "snapshot_entry n c img res = \<lparr>srs_TriggerRound = n, srs_TriggerTime = 0, srs_TaskName = ''snap'', srs_ImageRef = img,
     srs_ContainerName = c, srs_Result = res, srs_FailedReason = [], srs_CompletedAt = None\<rparr>"

definition recovering_sp :: "int32 \<Rightarrow> SnapshotPod" where
  "recovering_sp n = sample_sp\<lparr>sp_Spec := (sp_Spec sample_sp)\<lparr>sps_RecoveryRound := n\<rparr>,
     sp_Status := (sp_Status sample_sp)\<lparr>spst_Snapshots := [
       snapshot_entry 1 ''app'' ''nginx:a'' ResultSuccess, snapshot_entry 2 ''app'' ''nginx:b'' ResultSuccess,
       snapshot_entry 3 ''app'' ''nginx:c'' ResultFailed]\<rparr>\<rparr>"

definition recovering_world :: "int32 \<Rightarrow> sim_world" where
  "recovering_world n = sim_start\<lparr>sw_sps := [((''default'', ''snap''), recovering_sp n)]\<rparr>"

definition create_request :: admission_request where
  "create_request = \<lparr>rq_UID = ''u2'', rq_Resource = podGVR, rq_Operation = OpCreate, rq_Object = Inr sample_pod,
     rq_OldObject = Inl (PlainError ''unexpected end of JSON input'')\<rparr>"

abbreviation created_pod :: "int32 \<Rightarrow> pod" where
  "created_pod n \<equiv> apply_patches (rs_Patches (fst (run_state (Webhook_Handle sim_env insertion_sort_slice create_request)
     (sim_state (recovering_world n))))) sample_pod"

lemma recovering_sel [simp]:
  "om_Name (sp_meta (recovering_sp n)) = ''snap''" "om_Namespace (sp_meta (recovering_sp n)) = ''default''"
  "sps_RecoveryRound (sp_Spec (recovering_sp n)) = n" "sp_secret (recovering_sp n) = ''reg''"
  by (simp_all add: recovering_sp_def sample_sp_def)

lemma create_request_ok:
  "rq_Resource create_request = podGVR" "rq_Operation create_request = OpCreate" "rq_Object create_request = Inr sample_pod"
  by (simp_all add: create_request_def)

lemma recovering_found:
  "fst (run_state (env_list_snapshotpods sim_env (Some (om_Namespace (pod_meta sample_pod)))) (gs_world (sim_state (recovering_world n)))) =
    Inr [recovering_sp n]"
  "find (\<lambda>item. targets item sample_pod) [recovering_sp n] = Some (recovering_sp n)"
proof -
  show "fst (run_state (env_list_snapshotpods sim_env (Some (om_Namespace (pod_meta sample_pod)))) (gs_world (sim_state (recovering_world n)))) =
    Inr [recovering_sp n]"
    by (simp add: sim_list_sps_def api_call_def recovering_world_def sim_sp_store_def sample_pod_def)
  have "targets (recovering_sp n) sample_pod"
    by (simp add: targets_def recovering_sp_def sample_sp_def sample_pod_def map_get_def map_entries_def)
  then show "find (\<lambda>item. targets item sample_pod) [recovering_sp n] = Some (recovering_sp n)" by simp
qed

theorem recovers_latest_success_witness:
  "list_all2 (\<lambda>c c'. if \<exists>e. latest_success (recovering_sp 0) (pc_Name c) e
      then \<exists>e. latest_success (recovering_sp 0) (pc_Name c) e \<and> c' = c\<lparr>pc_Image := srs_ImageRef e\<rparr> else c' = c)
    (pod_Containers sample_pod) (pod_Containers (created_pod 0)) \<and>
   map pc_Image (pod_Containers (created_pod 0)) = [''nginx:b'', ''fluentd:1'']"
proof
  show "map pc_Image (pod_Containers (created_pod 0)) = [''nginx:b'', ''fluentd:1'']" by code_simp
qed (rule recovers_latest_success [OF sim_webhook.sp_api_axioms stable_slice.slice_sorter_axioms prod.collapse [symmetric]
  create_request_ok recovering_found], simp)

theorem recovers_given_round_witness:
  "map pc_Image (pod_Containers (created_pod 3)) = [''nginx:c'', ''fluentd:1'']"
  by (subst recovers_given_round [OF sim_webhook.sp_api_axioms prod.collapse [symmetric] create_request_ok recovering_found])
    (simp_all add: sample_pod_def recovering_sp_def sample_sp_def snapshot_entry_def)

theorem patches_add_pull_secret_witness:
  "set (pod_ImagePullSecrets (created_pod 0)) = {''reg''}"
proof -
  have "\<exists>c\<in>set (pod_Containers sample_pod). map_of (selected insertion_sort_slice (recovering_sp 0)) (pc_Name c) \<noteq> None" by code_simp
  then show ?thesis
    using patches_add_pull_secret [OF sim_webhook.sp_api_axioms prod.collapse [symmetric] create_request_ok recovering_found [of 0],
      where srt = insertion_sort_slice] by (simp add: sample_pod_def)
qed

end
