(* ===== verification/RoundImages.thy ===== *)
theory RoundImages
  imports PodTheorems
begin

text \<open>
  Whether the image a snapshot entry records is the image its task commits: it is for the tasks the
  step creates itself, and it need not be for tasks that exist already, because the name is rendered
  anew, with a new time and new random digits, while the existing task keeps the old one.
\<close>

section \<open>The image of an entry and of its task\<close>

text \<open>The key of the task of a container in the round of the spec.\<close>
abbreviation container_task :: "SnapshotPod \<Rightarrow> string \<Rightarrow> string \<times> string" where
  "container_task sp c \<equiv> (om_Namespace (sp_meta sp), task_name (om_Name (sp_meta sp)) (sps_TriggerRound (sp_Spec sp)) c)"

text \<open>\<open>e\<close> records the task of its container; the images agree if the task is new.\<close>
definition records ::
  "SnapshotPod \<Rightarrow> (string \<times> string \<rightharpoonup> SnapshotPodTask) \<Rightarrow> (string \<times> string \<rightharpoonup> SnapshotPodTask) \<Rightarrow> SnapshotRunningStatus \<Rightarrow> bool" where
  "records sp m m' e \<longleftrightarrow> srs_TaskName e = snd (container_task sp (srs_ContainerName e)) \<and>
     (\<exists>t. m' (container_task sp (srs_ContainerName e)) = Some t \<and>
       (m (container_task sp (srs_ContainerName e)) = None \<longrightarrow> spts_CommitImage (spt_Spec t) = srs_ImageRef e))"

lemma find_filter: "filter P xs = y # ys \<Longrightarrow> find P xs = Some y"
  by (induction xs) (auto split: if_splits)

lemma record_snapshot_entry:
  obtains e where "snaps (record_snapshot sp c t now) = keep_last (snaps sp @ [e])" and "srs_ContainerName e = c"
    and "srs_TaskName e = om_Name (spt_meta t)" and "srs_ImageRef e = spts_CommitImage (spt_Spec t)"
  by (simp add: record_snapshot_def)

context cluster_api
begin

lemma container_recorded:
  assumes "run_state (snapshot_container E p c sp) s = ((sp', None), s')"
  obtains e where "snaps sp' = keep_last (snaps sp @ [e])" and "srs_ContainerName e = c"
    and "records sp (tasks (gs_world s)) (tasks (gs_world s')) e"
    and "\<And>k. k \<noteq> container_task sp c \<Longrightarrow> tasks (gs_world s') k = tasks (gs_world s) k"
proof -
  obtain cs css where cs: "filter (\<lambda>cs. cs_Name cs = c) (pod_ContainerStatuses p) = cs # css"
    using assms by (cases "filter (\<lambda>cs. cs_Name cs = c) (pod_ContainerStatuses p)") (auto simp: snapshot_container_def)
  have started: "cs_ContainerID cs \<noteq> []" using assms cs by (auto simp: snapshot_container_def)
  obtain img s1 where ren: "run_state (renderNewImageName E (cs_Image cs) (iso_ImageRefFormat (sps_ImageSaveOptions (sp_Spec sp)))
      (append_snapped_suffix sp)) s = (img, s1)" by (metis prod.collapse)
  have s1: "tasks (gs_world s1) = tasks (gs_world s)" using keepsD [OF still_render ren] by (simp add: still_def)
  obtain new where img: "img = Inr new" using assms cs started ren by (cases img) (auto simp: snapshot_container_def)
  let ?t = "new_task E sp p c cs new"
  have t: "task_key ?t = container_task sp c" "spts_CommitImage (spt_Spec ?t) = new" by (simp_all add: new_task_def Let_def)
  obtain res w2 where cr: "run_state (env_create_task E ?t) (gs_world s1) = (res, w2)" by (metis prod.collapse)
  have s': "tasks (gs_world s') = tasks w2"
    using assms cs started ren img cr obs_now [of w2]
    by (auto simp: snapshot_container_def Let_def split: sum.splits if_splits)
  show thesis
  proof (cases res)
    case (Inl err)
    have ex: "IsAlreadyExists err"
      using assms cs started ren img cr Inl by (auto simp: snapshot_container_def Let_def split: if_splits)
    then have sp': "sp' = record_snapshot sp c ?t (fst (run_state (env_now E) w2))"
      using assms cs started ren img cr Inl by (auto simp: snapshot_container_def Let_def)
    have old: "tasks (gs_world s) (task_key ?t) \<noteq> None" "tasks w2 = tasks (gs_world s)"
      using create_exists [of ?t "gs_world s1" err w2] cr Inl ex s1 by simp_all
    obtain e where e: "snaps sp' = keep_last (snaps sp @ [e])" "srs_ContainerName e = c" "srs_TaskName e = om_Name (spt_meta ?t)"
        "srs_ImageRef e = spts_CommitImage (spt_Spec ?t)"
      unfolding sp' by (rule record_snapshot_entry)
    have "records sp (tasks (gs_world s)) (tasks (gs_world s')) e" using old s' t e by (auto simp: records_def)
    then show thesis using that e(1,2) old(2) s' by simp
  next
    case (Inr t')
    then have sp': "sp' = record_snapshot sp c t' (fst (run_state (env_now E) w2))"
      using assms cs started ren img cr by (auto simp: snapshot_container_def Let_def)
    have new: "created ?t t'" "tasks w2 = (tasks (gs_world s))(task_key ?t \<mapsto> t')"
      using create_ok [of ?t "gs_world s1" t' w2] cr Inr s1 by auto
    have t': "task_key t' = container_task sp c" "spts_CommitImage (spt_Spec t') = new"
      using new(1) t by (auto simp: created_def)
    obtain e where e: "snaps sp' = keep_last (snaps sp @ [e])" "srs_ContainerName e = c" "srs_TaskName e = om_Name (spt_meta t')"
        "srs_ImageRef e = spts_CommitImage (spt_Spec t')"
      unfolding sp' by (rule record_snapshot_entry)
    have "records sp (tasks (gs_world s)) (tasks (gs_world s')) e" using new(2) s' t t' e by (auto simp: records_def)
    then show thesis using that e(1,2) new(2) s' t(1) by simp
  qed
qed

text \<open>A container whose task exists already: the name is rendered anew, the task stays.\<close>
lemma container_existing:
  assumes run: "run_state (snapshot_container E p c sp) s = ((sp', None), s')" and t: "tasks (gs_world s) (container_task sp c) = Some t"
  obtains cs new e where "find (\<lambda>cs. cs_Name cs = c) (pod_ContainerStatuses p) = Some cs"
    and "fst (run_state (renderNewImageName E (cs_Image cs) (iso_ImageRefFormat (sps_ImageSaveOptions (sp_Spec sp)))
      (append_snapped_suffix sp)) s) = Inr new"
    and "snaps sp' = keep_last (snaps sp @ [e])" and "srs_ContainerName e = c" and "srs_TaskName e = om_Name (spt_meta t)"
    and "srs_ImageRef e = new" and "tasks (gs_world s') = tasks (gs_world s)"
proof -
  obtain cs css where cs: "filter (\<lambda>cs. cs_Name cs = c) (pod_ContainerStatuses p) = cs # css"
    using run by (cases "filter (\<lambda>cs. cs_Name cs = c) (pod_ContainerStatuses p)") (auto simp: snapshot_container_def)
  have found: "find (\<lambda>cs. cs_Name cs = c) (pod_ContainerStatuses p) = Some cs" using cs by (rule find_filter)
  have started: "cs_ContainerID cs \<noteq> []" using run cs by (auto simp: snapshot_container_def)
  obtain img s1 where ren: "run_state (renderNewImageName E (cs_Image cs) (iso_ImageRefFormat (sps_ImageSaveOptions (sp_Spec sp)))
      (append_snapped_suffix sp)) s = (img, s1)" by (metis prod.collapse)
  have s1: "tasks (gs_world s1) = tasks (gs_world s)" using keepsD [OF still_render ren] by (simp add: still_def)
  obtain new where img: "img = Inr new" using run cs started ren by (cases img) (auto simp: snapshot_container_def)
  let ?t = "new_task E sp p c cs new"
  have key: "task_key ?t = container_task sp c" "spts_CommitImage (spt_Spec ?t) = new" by (simp_all add: new_task_def Let_def)
  have name: "om_Name (spt_meta t) = om_Name (spt_meta ?t)" using task_keyed [OF t] key(1) by simp
  obtain res w2 where cr: "run_state (env_create_task E ?t) (gs_world s1) = (res, w2)" by (metis prod.collapse)
  obtain err where err: "res = Inl err"
    using create_ok [of ?t "gs_world s1" _ w2] cr s1 t key(1) by (cases res) auto
  then have "IsAlreadyExists err" "sp' = record_snapshot sp c ?t (fst (run_state (env_now E) w2))" "tasks (gs_world s') = tasks w2"
    using run cs started ren img cr obs_now [of w2] by (auto simp: snapshot_container_def Let_def split: if_splits)
  moreover from this have "tasks w2 = tasks (gs_world s)" using create_exists [of ?t "gs_world s1" err w2] cr err s1 by simp
  moreover obtain e where "snaps (record_snapshot sp c ?t (fst (run_state (env_now E) w2))) = keep_last (snaps sp @ [e])"
      "srs_ContainerName e = c" "srs_TaskName e = om_Name (spt_meta ?t)" "srs_ImageRef e = spts_CommitImage (spt_Spec ?t)"
    by (rule record_snapshot_entry)
  ultimately show thesis using that [OF found] ren img name key(2) by simp
qed

text \<open>All entries the loop adds, when no container is listed twice.\<close>
lemma containers_recorded:
  assumes "run_state (snapshot_containers E p cs sp) s = ((sp', None), s')" and "distinct cs"
  shows "\<exists>new. suffix (snaps sp') (snaps sp @ new) \<and>
    (\<forall>e\<in>set new. srs_ContainerName e \<in> set cs \<and> records sp (tasks (gs_world s)) (tasks (gs_world s')) e)"
  using assms
proof (induction cs arbitrary: sp s)
  case Nil
  then show ?case by (intro exI [of _ "[]"]) simp
next
  case (Cons c cs)
  obtain sp1 e1 s1 where one: "run_state (snapshot_container E p c sp) s = ((sp1, e1), s1)" by (metis prod.collapse)
  have e1: "e1 = None" and rest: "run_state (snapshot_containers E p cs sp1) s1 = ((sp', None), s')"
    using Cons.prems(1) one by (auto split: option.splits)
  have same: "sp_meta sp1 = sp_meta sp" "sp_Spec sp1 = sp_Spec sp" using container_snaps [OF one] by simp_all
  obtain e where e: "snaps sp1 = keep_last (snaps sp @ [e])" "srs_ContainerName e = c"
      "records sp (tasks (gs_world s)) (tasks (gs_world s1)) e"
      "\<And>k. k \<noteq> container_task sp c \<Longrightarrow> tasks (gs_world s1) k = tasks (gs_world s) k"
    using container_recorded [OF one [unfolded e1]] by metis
  obtain new where new: "suffix (snaps sp') (snaps sp1 @ new)"
      "\<forall>e\<in>set new. srs_ContainerName e \<in> set cs \<and> records sp1 (tasks (gs_world s1)) (tasks (gs_world s')) e"
    using Cons.IH [OF rest] Cons.prems(2) by auto
  have le: "tasks (gs_world s1) \<subseteq>\<^sub>m tasks (gs_world s')" using keepsD [OF grown_containers rest] by (simp add: grown_def)
  have first: "records sp (tasks (gs_world s)) (tasks (gs_world s')) e"
    using e(3) le unfolding records_def map_le_def by (metis domI)
  have later: "records sp (tasks (gs_world s)) (tasks (gs_world s')) x" if "x \<in> set new" for x
  proof -
    have x: "srs_ContainerName x \<in> set cs" "records sp1 (tasks (gs_world s1)) (tasks (gs_world s')) x" using new(2) that by auto
    have "srs_ContainerName x \<noteq> c" using x(1) Cons.prems(2) by auto
    then have "container_task sp (srs_ContainerName x) \<noteq> container_task sp c" by (simp add: task_name_def)
    from e(4) [OF this] x(2) show ?thesis by (simp add: records_def same)
  qed
  have "suffix (snaps sp1 @ new) ((snaps sp @ [e]) @ new)"
    using keep_last_suffix [of "snaps sp @ [e]"] e(1) by (auto simp: suffix_def)
  then have "suffix (snaps sp') (snaps sp @ e # new)" using new(1) by (auto intro: suffix_order.trans)
  then show ?case using first later new(2) e(2) by (intro exI [of _ "e # new"]) auto
qed

end

section \<open>Properties\<close>

text \<open>C10: the entries of a round name the images its tasks commit. When the step that starts a round
  succeeds for a pod without containers listed twice, every entry it adds names the task of its
  container, that task is stored, and if it was not stored before the call, the image of the entry is the
  image the task commits to.\<close>
theorem new_task_image_recorded:
  assumes "cluster_api E tasks sps" and "\<not> round_recorded sp"
    and "run_state (reconcileTasks E sp) s = ((sp', None), s')"
    and "fst (run_state (getPod E sp) s) = Inr p" and "distinct (wanted_containers sp p)"
  shows "\<exists>new. suffix (snaps sp') (snaps sp @ new) \<and>
    (\<forall>e\<in>set new. records sp (tasks (gs_world s)) (tasks (gs_world s')) e)"
proof -
  obtain res s1 where get: "run_state (getPod E sp) s = (res, s1)" by (metis prod.collapse)
  have "run_state (case res of Inl err \<Rightarrow> State_Monad.return (sp, Some err)
      | Inr p \<Rightarrow> snapshot_containers E p (wanted_containers sp p) sp) s1 = ((sp', None), s')"
    using assms(2,3) get by (simp add: reconcileTasks_def round_recorded_def)
  then have "run_state (snapshot_containers E p (wanted_containers sp p) sp) s1 = ((sp', None), s')"
    using assms(4) get by simp
  moreover have "tasks (gs_world s1) = tasks (gs_world s)"
    using keepsD [OF cluster_store.still_getPod [OF cluster_api_store [OF assms(1)]] get] by (simp add: still_def)
  ultimately show ?thesis using cluster_api.containers_recorded [OF assms(1) _ assms(5)] by metis
qed

theorem new_task_image_recorded_witness:
  "\<exists>new. suffix (snaps (fst (fst (run_state (reconcileTasks sim_env sample_sp) (sim_state pod_world))))) (snaps sample_sp @ new) \<and>
    (\<forall>e\<in>set new. records sample_sp (sim_task_store (gs_world (sim_state pod_world)))
      (sim_task_store (gs_world (snd (run_state (reconcileTasks sim_env sample_sp) (sim_state pod_world))))) e)"
proof -
  let ?run = "run_state (reconcileTasks sim_env sample_sp) (sim_state pod_world)"
  have "snd (fst ?run) = None" by code_simp
  then have run: "?run = ((fst (fst ?run), None), snd ?run)" by (metis prod.collapse)
  have fresh: "\<not> round_recorded sample_sp" by (simp add: round_recorded_def sample_sp_def)
  have get: "fst (run_state (getPod sim_env sample_sp) (sim_state pod_world)) = Inr sample_pod" by code_simp
  have "distinct (wanted_containers sample_sp sample_pod)" by code_simp
  from new_task_image_recorded [OF sim_cluster.cluster_api_axioms fresh run get this] show ?thesis .
qed

text \<open>C11: a container that is tried again is recorded under another image. If its task exists already when the loop
  comes to it, because an earlier call created it without storing the status, the name is rendered anew, with the
  time and the random digits of this call; the entry gets this new name, while the task, with the image it
  commits, stays as it is. So the entry names the image of its task only if both renderings agree.\<close>
theorem existing_task_recorded_anew:
  assumes "cluster_api E tasks sps" and "tasks (gs_world s) (container_task sp c) = Some t"
    and "run_state (snapshot_container E p c sp) s = ((sp', None), s')"
  shows "\<exists>cs new e. find (\<lambda>cs. cs_Name cs = c) (pod_ContainerStatuses p) = Some cs \<and>
    fst (run_state (renderNewImageName E (cs_Image cs) (iso_ImageRefFormat (sps_ImageSaveOptions (sp_Spec sp)))
      (append_snapped_suffix sp)) s) = Inr new \<and>
    snaps sp' = keep_last (snaps sp @ [e]) \<and> srs_ContainerName e = c \<and> srs_TaskName e = om_Name (spt_meta t) \<and>
    srs_ImageRef e = new \<and> tasks (gs_world s') = tasks (gs_world s)"
  by (rule cluster_api.container_existing [OF assms(1,3,2)]) blast

abbreviation second_try :: "(SnapshotPod \<times> go_error option) \<times> sim_world gstate" where
  "second_try \<equiv> run_state (snapshot_container sim_env sample_pod ''app'' sample_sp) (sim_state collecting_world)"

theorem existing_task_recorded_anew_witness:
  "\<exists>e t. snaps (fst (fst second_try)) = [e] \<and> sim_task_store (gs_world (snd second_try)) (''default'', srs_TaskName e) = Some t \<and>
    spts_CommitImage (spt_Spec t) = ''nginx:s'' \<and> srs_ImageRef e = ''docker.io/library/nginx:1.27-snapped-1734403200-01234567''"
proof -
  let ?t = "snd (hd (sw_tasks collecting_world))"
  have "snd (fst second_try) = None" by code_simp
  then have run: "second_try = ((fst (fst second_try), None), snd second_try)" by (metis prod.collapse)
  have keys: "container_task sample_sp ''app'' = (''default'', ''snap-1-app'')" "task_key ?t = (''default'', ''snap-1-app'')" by code_simp+
  have "map_of (sw_tasks collecting_world) (''default'', ''snap-1-app'') = Some ?t" by (simp add: collecting_world_def)
  then have t: "sim_task_store (gs_world (sim_state collecting_world)) (container_task sample_sp ''app'') = Some ?t"
    unfolding keys(1) sim_task_store_def sim_state_sel using keys(2) by (simp only: option.case refl if_True)
  have shown: "find (\<lambda>cs. cs_Name cs = ''app'') (pod_ContainerStatuses sample_pod) = Some (hd (pod_ContainerStatuses sample_pod))"
      "fst (run_state (renderNewImageName sim_env (cs_Image (hd (pod_ContainerStatuses sample_pod)))
        (iso_ImageRefFormat (sps_ImageSaveOptions (sp_Spec sample_sp))) (append_snapped_suffix sample_sp)) (sim_state collecting_world)) =
        Inr ''docker.io/library/nginx:1.27-snapped-1734403200-01234567''"
      "spts_CommitImage (spt_Spec ?t) = ''nginx:s''" "snaps sample_sp = []"
    by code_simp+
  from existing_task_recorded_anew [OF sim_cluster.cluster_api_axioms t run, unfolded shown(1)] show ?thesis
    using shown(2-4) t keys by (elim exE conjE) (auto simp: keep_last_def)
qed

end
