(* ===== verification/Cluster.thy ===== *)
theory Cluster
  imports TaskTheorems WebhookTheorems RoundImages
begin

text \<open>
  The controllers together: a cluster is the world with the task reconcilers of its nodes, and it moves
  by calls of the two reconcilers and of the admission webhook, in any order and with any interleaving
  between calls, and by users who create, edit and delete \<^verbatim>\<open>SnapshotPod\<close> objects without writing their status. The invariants are
  proved by rule induction over these steps.
\<close>

section \<open>Steps\<close>

inductive cluster_step ::
  "'w env \<Rightarrow> ('w \<Rightarrow> (string \<times> string \<rightharpoonup> SnapshotPodTask)) \<Rightarrow> ('w \<Rightarrow> (string \<times> string \<rightharpoonup> SnapshotPod)) \<Rightarrow>
    'w SnapshotPodTaskReconciler set \<Rightarrow> 'w gstate \<Rightarrow> 'w gstate \<Rightarrow> bool"
  for E :: "'w env" and tasks sps and nodes where
  task_call: "r \<in> nodes \<Longrightarrow> run_state (Task_Reconcile E r ns nm) s = (res, s') \<Longrightarrow> cluster_step E tasks sps nodes s s'"
| pod_call: "run_state (Pod_Reconcile E ns nm) s = (res', s') \<Longrightarrow> cluster_step E tasks sps nodes s s'"
| webhook_call: "run_state (Webhook_Handle E srt rq) s = (rs, s') \<Longrightarrow> cluster_step E tasks sps nodes s s'"
| user: "tasks (gs_world s') = tasks (gs_world s) \<Longrightarrow>
    (\<And>k p. sps (gs_world s') k = Some p \<Longrightarrow> snaps p = [] \<or> (\<exists>q. sps (gs_world s) k = Some q \<and> snaps p = snaps q)) \<Longrightarrow>
    cluster_step E tasks sps nodes s s'"

inductive_cases cluster_stepE: "cluster_step E tasks sps nodes s s'"

text \<open>Every stored task is well-formed, and every stored \<^verbatim>\<open>SnapshotPod\<close> has a bounded and truthful history.\<close>
definition cluster_ok ::
  "('w \<Rightarrow> (string \<times> string \<rightharpoonup> SnapshotPodTask)) \<Rightarrow> ('w \<Rightarrow> (string \<times> string \<rightharpoonup> SnapshotPod)) \<Rightarrow> 'w gstate \<Rightarrow> bool" where
  "cluster_ok tasks sps s \<longleftrightarrow> (\<forall>k t. tasks (gs_world s) k = Some t \<longrightarrow> task_wf t) \<and>
     (\<forall>k p. sps (gs_world s) k = Some p \<longrightarrow> snaps_ok (tasks (gs_world s)) (snaps p))"

lemma completed_task_moves:
  assumes "m k = Some t" and "same_task t u" and "task_step\<^sup>*\<^sup>* (abs_task t) (abs_task u)"
    and "completed_task m x"
  shows "completed_task (m(k \<mapsto> u)) x"
proof -
  obtain k' t' where t': "m k' = Some t'" "om_Name (spt_meta t') = x" "sptst_Phase (spt_Status t') = PhaseCompleted"
    using assms(4) unfolding completed_task_def by blast
  show ?thesis
  proof (cases "k' = k")
    case True
    then have "t' = t" using t'(1) assms(1) by simp
    then have "abs_task u = abs_task t" using terminal_no_steps [OF assms(3)] t'(3) by simp
    then have "sptst_Phase (spt_Status u) = PhaseCompleted" using t'(3) \<open>t' = t\<close> by (metis abs_task_sel(4))
    moreover have "om_Name (spt_meta u) = x" using same_task_key [OF assms(2)] t'(2) \<open>t' = t\<close> by simp
    ultimately show ?thesis unfolding completed_task_def by (intro exI [of _ k] exI [of _ u]) simp
  next
    case False
    then show ?thesis using t' unfolding completed_task_def by (intro exI [of _ k'] exI [of _ t']) simp
  qed
qed

text \<open>The invariant after a call, from what the call does to the stores.\<close>
lemma cluster_ok_same_tasks:
  assumes "cluster_ok tasks sps s" and "tasks (gs_world s') = tasks (gs_world s)"
    and "\<And>k p. sps (gs_world s') k = Some p \<Longrightarrow> snaps p = [] \<or> (\<exists>q. sps (gs_world s) k = Some q \<and> snaps p = snaps q)"
  shows "cluster_ok tasks sps s'"
proof -
  have "snaps_ok (tasks (gs_world s)) []" by (simp add: snaps_ok_def)
  then show ?thesis using assms unfolding cluster_ok_def by metis
qed

lemma cluster_ok_task_call:
  assumes ok: "cluster_ok tasks sps s" and "sps (gs_world s') = sps (gs_world s)"
    and "tasks (gs_world s) k = Some t" and u: "tasks (gs_world s') = (tasks (gs_world s))(k \<mapsto> u)"
    and "same_task t u" and "task_wf u" and "task_step\<^sup>*\<^sup>* (abs_task t) (abs_task u)"
  shows "cluster_ok tasks sps s'"
proof -
  have "snaps_ok (tasks (gs_world s')) ss" if "snaps_ok (tasks (gs_world s)) ss" for ss
    using that completed_task_moves [of "tasks (gs_world s)", OF assms(3,5,7)] unfolding snaps_ok_def u by blast
  then show ?thesis using ok u assms(2,6) unfolding cluster_ok_def by (metis fun_upd_apply option.inject)
qed

lemma cluster_ok_pod_call:
  assumes ok: "cluster_ok tasks sps s" and le: "tasks (gs_world s) \<subseteq>\<^sub>m tasks (gs_world s')"
    and new: "\<forall>k t. tasks (gs_world s') k = Some t \<and> tasks (gs_world s) k = None \<longrightarrow> spt_Status t = empty_task_status"
    and upd: "sps (gs_world s') = sps (gs_world s) \<or> (\<exists>p p'. sps (gs_world s) key = Some p \<and>
      sps (gs_world s') = (sps (gs_world s))(key \<mapsto> p') \<and>
      (snaps_ok (tasks (gs_world s)) (snaps p) \<longrightarrow> snaps_ok (tasks (gs_world s')) (snaps p')))"
  shows "cluster_ok tasks sps s'"
proof -
  have wf: "task_wf t" if t: "tasks (gs_world s') k = Some t" for k t
  proof (cases "tasks (gs_world s) k")
    case None
    then show ?thesis using new t fresh_task_wf by blast
  next
    case (Some t0)
    then have "t0 = t" using le t by (metis domI map_le_def option.inject)
    then show ?thesis using ok Some unfolding cluster_ok_def by blast
  qed
  have "snaps_ok (tasks (gs_world s')) (snaps p)" if p: "sps (gs_world s') k = Some p" for k p
  proof -
    have old: "snaps_ok (tasks (gs_world s)) (snaps q)" if "sps (gs_world s) k = Some q" for k q
      using ok that unfolding cluster_ok_def by blast
    from upd consider "sps (gs_world s') = sps (gs_world s)" | q q' where "sps (gs_world s) key = Some q"
        "sps (gs_world s') = (sps (gs_world s))(key \<mapsto> q')"
        "snaps_ok (tasks (gs_world s)) (snaps q) \<longrightarrow> snaps_ok (tasks (gs_world s')) (snaps q')" by blast
    then show ?thesis
    proof cases
      case 1
      then show ?thesis using old snaps_ok_mono [OF le] p by simp
    next
      case 2
      then show ?thesis using old snaps_ok_mono [OF le] p by (cases "k = key") auto
    qed
  qed
  with wf show ?thesis unfolding cluster_ok_def by blast
qed

locale cluster_base = webhook_store E tasks sps
  for E :: "'w env" and tasks :: "'w \<Rightarrow> (string \<times> string \<rightharpoonup> SnapshotPodTask)"
    and sps :: "'w \<Rightarrow> (string \<times> string \<rightharpoonup> SnapshotPod)" +
  fixes nodes :: "'w SnapshotPodTaskReconciler set"
  assumes node_runtimes: "r \<in> nodes \<Longrightarrow> (n, rt) \<in> set (tr_runtimeMap r) \<Longrightarrow>
      runtime_contract rt tasks \<and> runtime_contract rt sps"
begin

lemma node_task_runtimes: "r \<in> nodes \<Longrightarrow> task_runtimes E tasks r"
  using node_runtimes task_store_axioms by (auto simp: task_runtimes_def task_runtimes_axioms_def)

lemma unseen_sps_now: "keeps (unseen sps) (time_now E)"
  unfolding time_now_def by (intro unseen_in_world sp_os.obs_now)

lemma node_runtime_rules:
  assumes "r \<in> nodes" and "getRuntimeAndContainerID r c = Done (Inr (n, rt, cid))"
  shows "runtime_contract rt sps"
  using assms by (auto simp: getRuntimeAndContainerID_def Let_def split: option.splits list.splits
    dest!: map_of_SomeD node_runtimes)

lemma unseen_sps_auth: "keeps (unseen sps) (getImageAuthWithSecret E ns sec img)"
  unfolding getImageAuthWithSecret_def
  by (intro unseen_frame.keeps_rules unseen_in_world get_secret_sps)

lemma unseen_sps_push: "r \<in> nodes \<Longrightarrow> keeps (unseen sps) (reconcilePushImage E r t)"
  unfolding reconcilePushImage_def pull_origin_def push_exit_def
  by (intro unseen_frame.keeps_rules unseen_sps_now unseen_record unseen_sps_auth quiet_unseen)
    (auto dest: node_runtime_rules intro: runtime_contract.quiet_ImageExists runtime_contract.quiet_Pull
      runtime_contract.quiet_Push)

lemma unseen_sps_commit: "r \<in> nodes \<Longrightarrow> keeps (unseen sps) (reconcileCommit E r t)"
  unfolding reconcileCommit_def Let_def
  by (intro unseen_frame.keeps_rules quiet_unseen) (auto dest: node_runtime_rules intro: runtime_contract.quiet_Commit)

end

sublocale cluster_base \<subseteq> sps_frame: task_frame "unseen sps" E
  by unfold_locales (auto simp: unseen_emit unseen_sps_now unseen_frame.refl_R intro: unseen_in_world update_task_sps)

context cluster_base
begin

lemma task_call_sps:
  assumes "r \<in> nodes" and "run_state (Task_Reconcile E r ns nm) s = (res, s')"
  shows "sps (gs_world s') = sps (gs_world s)"
proof -
  have recs: "\<forall>p\<in>set (task_recs E r). \<forall>t. keeps (unseen sps) (snd p t)"
    using unseen_sps_push [OF assms(1)] unseen_sps_commit [OF assms(1)]
    by (auto simp: task_recs_def reconcileAccept_def intro: unseen_frame.keeps_return)
  have "keeps (unseen sps) (Task_Reconcile E r ns nm)"
    unfolding Task_Reconcile_def Let_def
    by (intro unseen_frame.keeps_rules unseen_sps_now unseen_record unseen_in_world get_task_sps sps_frame.frame_attempt recs)
  from keepsD [OF this assms(2)] show ?thesis by (simp add: unseen_def)
qed

lemma webhook_call_tasks:
  assumes "run_state (Webhook_Handle E srt rq) s = (rs, s')"
  shows "tasks (gs_world s') = tasks (gs_world s)"
proof -
  have "keeps (unseen tasks) (Webhook_Handle E srt rq)"
    unfolding Webhook_Handle_def handlePodUpdate_def handlePodCreate_def Let_def
    by (cases "rq_Operation rq") (auto intro!: unseen_frame.keeps_rules unseen_in_world list_sps_tasks update_spec_tasks order_tasks)
  from keepsD [OF this assms] show ?thesis by (simp add: unseen_def)
qed

end

locale cluster = cluster_base E tasks sps nodes + webhook_api E tasks sps
  for E :: "'w env" and tasks :: "'w \<Rightarrow> (string \<times> string \<rightharpoonup> SnapshotPodTask)"
    and sps :: "'w \<Rightarrow> (string \<times> string \<rightharpoonup> SnapshotPod)"
    and nodes :: "'w SnapshotPodTaskReconciler set"
begin

lemma node_world: "r \<in> nodes \<Longrightarrow> task_world E tasks r"
  using node_runtimes task_api_axioms by (intro task_worldI) auto

text \<open>A task call on the stores: nothing, or one stored task moves by abstract steps.\<close>
lemma task_call_tasks:
  assumes "r \<in> nodes" and "run_state (Task_Reconcile E r ns nm) s = (res, s')"
    and "\<And>t. tasks (gs_world s) (ns, nm) = Some t \<Longrightarrow> task_wf t"
  shows "tasks (gs_world s') = tasks (gs_world s) \<or> (\<exists>t u. tasks (gs_world s) (ns, nm) = Some t \<and>
    tasks (gs_world s') = (tasks (gs_world s))((ns, nm) \<mapsto> u) \<and> same_task t u \<and> task_wf u \<and>
    task_step\<^sup>*\<^sup>* (abs_task t) (abs_task u))"
proof (cases "tasks (gs_world s) (ns, nm)")
  case (Some t)
  from task_world.reconcile_moves [OF node_world [OF assms(1)] Some assms(3) [OF Some] assms(2)] Some show ?thesis by blast
next
  case None
  then show ?thesis using task_world.reconcile_missing [OF node_world [OF assms(1)] None assms(2)] by blast
qed

text \<open>A call of the webhook does what a user could do.\<close>
lemma webhook_call_sps:
  assumes "run_state (Webhook_Handle E srt rq) s = (rs, s')" and "sps (gs_world s') k = Some p"
  shows "snaps p = [] \<or> (\<exists>q. sps (gs_world s) k = Some q \<and> snaps p = snaps q)"
proof -
  from handle_frame [OF assms(1)] consider "sps (gs_world s') = sps (gs_world s)"
    | sp sp' where "sps (gs_world s) (sp_key sp) = Some sp" "round_bumped sp sp'" "sps (gs_world s') = (sps (gs_world s))(sp_key sp \<mapsto> sp')"
    by blast
  then show ?thesis using assms(2) by cases (auto simp: round_bumped_def split: if_splits)
qed

lemma step_ok:
  assumes "cluster_step E tasks sps nodes s s'" and ok: "cluster_ok tasks sps s"
  shows "cluster_ok tasks sps s'"
  using assms(1)
proof (cases rule: cluster_step.cases)
  case (task_call r ns nm res)
  note sps' = task_call_sps [OF task_call]
  have wf: "\<And>k t. tasks (gs_world s) k = Some t \<Longrightarrow> task_wf t" using ok unfolding cluster_ok_def by blast
  consider "tasks (gs_world s') = tasks (gs_world s)"
    | t u where "tasks (gs_world s) (ns, nm) = Some t" "tasks (gs_world s') = (tasks (gs_world s))((ns, nm) \<mapsto> u)"
      "same_task t u" "task_wf u" "task_step\<^sup>*\<^sup>* (abs_task t) (abs_task u)"
    using task_call_tasks [OF task_call] wf by blast
  then show ?thesis
  proof cases
    case 1
    then show ?thesis using sps' ok by (simp add: cluster_ok_def)
  next
    case 2
    then show ?thesis by (rule cluster_ok_task_call [OF ok sps'])
  qed
next
  case (pod_call ns nm res)
  note e = pod_reconcile_effect [OF pod_call]
  show ?thesis by (rule cluster_ok_pod_call [OF ok, where key = "(ns, nm)"]) (use e in blast)+
next
  case (webhook_call srt rq rs)
  show ?thesis by (rule cluster_ok_same_tasks [OF ok webhook_call_tasks [OF webhook_call] webhook_call_sps [OF webhook_call]])
next
  case user
  then show ?thesis by (rule cluster_ok_same_tasks [OF ok])
qed

lemma reach_ok:
  assumes "(cluster_step E tasks sps nodes)\<^sup>*\<^sup>* s s'" and "cluster_ok tasks sps s"
  shows "cluster_ok tasks sps s'"
  using assms by (induction rule: rtranclp_induct) (auto dest: step_ok)

lemma step_final:
  assumes "cluster_step E tasks sps nodes s s'" and ok: "cluster_ok tasks sps s"
    and t: "tasks (gs_world s) k = Some t" "terminal_phase (sptst_Phase (spt_Status t))"
  shows "\<exists>u. tasks (gs_world s') k = Some u \<and> same_task t u \<and> abs_task u = abs_task t"
  using assms(1)
proof (cases rule: cluster_step.cases)
  case (task_call r ns nm res)
  have wf: "\<And>k t. tasks (gs_world s) k = Some t \<Longrightarrow> task_wf t" using ok unfolding cluster_ok_def by blast
  from task_call_tasks [OF task_call wf] show ?thesis
  proof
    assume "tasks (gs_world s') = tasks (gs_world s)"
    then show ?thesis using t by (intro exI [of _ t]) simp
  next
    assume "\<exists>t u. tasks (gs_world s) (ns, nm) = Some t \<and>
      tasks (gs_world s') = (tasks (gs_world s))((ns, nm) \<mapsto> u) \<and> same_task t u \<and> task_wf u \<and>
      task_step\<^sup>*\<^sup>* (abs_task t) (abs_task u)"
    then show ?thesis using t terminal_no_steps by (cases "k = (ns, nm)") auto
  qed
next
  case (pod_call ns nm res)
  have "tasks (gs_world s) \<subseteq>\<^sub>m tasks (gs_world s')" using pod_reconcile_effect [OF pod_call] by blast
  then have "tasks (gs_world s') k = Some t" using t by (metis domI map_le_def)
  then show ?thesis by (intro exI [of _ t]) simp
next
  case (webhook_call srt rq rs)
  then show ?thesis using t webhook_call_tasks [OF webhook_call] by (intro exI [of _ t]) simp
next
  case user
  then show ?thesis using t by (intro exI [of _ t]) simp
qed

lemma reach_final:
  assumes "(cluster_step E tasks sps nodes)\<^sup>*\<^sup>* s s'" and "cluster_ok tasks sps s"
    and "tasks (gs_world s) k = Some t" and "terminal_phase (sptst_Phase (spt_Status t))"
  shows "\<exists>u. tasks (gs_world s') k = Some u \<and> same_task t u \<and> abs_task u = abs_task t"
  using assms(1)
proof (induction rule: rtranclp_induct)
  case base
  then show ?case using assms(3) by (intro exI [of _ t]) simp
next
  case (step s1 s2)
  then obtain u where u: "tasks (gs_world s1) k = Some u" "same_task t u" "abs_task u = abs_task t" by blast
  have "terminal_phase (sptst_Phase (spt_Status u))" using u(3) assms(4) by (metis abs_task_sel(4))
  from step_final [OF step(2) reach_ok [OF step(1) assms(2)] u(1) this] show ?case
    using u same_task_trans by metis
qed

end

text \<open>A well-formed completed task has its three conditions.\<close>
lemma completed_conditions:
  assumes "task_wf t" and "sptst_Phase (spt_Status t) = PhaseCompleted" and "n \<in> set step_names"
  shows "\<exists>c\<in>set (sptst_Conditions (spt_Status t)). cond_Type c = n \<and> cond_Status c = ConditionTrue"
proof -
  let ?cs = "sptst_Conditions (spt_Status t)"
  have d: "done_count ?cs = 3" and fol: "follows step_names ?cs" using assms(1,2) by (simp_all add: task_wf_def)
  have len: "length ?cs = 3" using d fol done_count_le [of ?cs] by (simp add: follows_def)
  then have types: "map cond_Type ?cs = step_names" using fol by (simp add: follows_def)
  have "list_all (\<lambda>c. cond_Status c = ConditionTrue) ?cs" using d len done_count_all [of ?cs] by simp
  moreover obtain c where "c \<in> set ?cs" "cond_Type c = n" using assms(3) types by (metis imageE list.set_map)
  ultimately show ?thesis by (auto simp: list_all_iff)
qed

lemma cluster_ok_success:
  assumes "cluster_ok tasks sps s" and "sps (gs_world s) k = Some p" and "e \<in> set (snaps p)" and "srs_Result e = ResultSuccess"
  shows "\<exists>k' t. tasks (gs_world s) k' = Some t \<and> om_Name (spt_meta t) = srs_TaskName e \<and>
    sptst_Phase (spt_Status t) = PhaseCompleted \<and>
    (\<forall>n\<in>{''Accept'', ''Commit'', ''Push''}. \<exists>c\<in>set (sptst_Conditions (spt_Status t)). cond_Type c = n \<and> cond_Status c = ConditionTrue)"
proof -
  have "snaps_ok (tasks (gs_world s)) (snaps p)" using assms(1,2) unfolding cluster_ok_def by blast
  then obtain k' t where t: "tasks (gs_world s) k' = Some t" "om_Name (spt_meta t) = srs_TaskName e"
      "sptst_Phase (spt_Status t) = PhaseCompleted"
    using assms(3,4) unfolding snaps_ok_def completed_task_def by blast
  have "task_wf t" using assms(1) t(1) unfolding cluster_ok_def by blast
  from completed_conditions [OF this t(3)] t show ?thesis
    by (intro exI [of _ k'] exI [of _ t]) (simp add: step_names_def)
qed

section \<open>A cluster of one node\<close>

interpretation sim_one: cluster sim_env sim_task_store sim_sp_store "{sim_reconciler}"
proof
  fix r n rt
  assume "r \<in> {sim_reconciler}" and "(n, rt) \<in> set (tr_runtimeMap r)"
  then show "runtime_contract rt sim_task_store \<and> runtime_contract rt sim_sp_store"
    using sim_tasks.runtime_contracts sim_cluster.sp_os.runtime_contracts
    by (auto simp: sim_reconciler_def NewDockerCompatibleRuntime_def)
qed

text \<open>A round from its trigger to its results: the object is reconciled, the node works on both tasks, and
  the object is reconciled again.\<close>
definition task_once :: "string \<Rightarrow> sim_world gstate \<Rightarrow> sim_world gstate" where
  "task_once nm s = snd (run_state (Task_Reconcile sim_env sim_reconciler ''default'' nm) s)"

definition pod_once :: "sim_world gstate \<Rightarrow> sim_world gstate" where
  "pod_once s = snd (run_state (Pod_Reconcile sim_env ''default'' ''snap'') s)"

abbreviation sim_step :: "sim_world gstate \<Rightarrow> sim_world gstate \<Rightarrow> bool" where
  "sim_step \<equiv> cluster_step sim_env sim_task_store sim_sp_store {sim_reconciler}"

lemma once_steps: "sim_step s (pod_once s)" "sim_step s (task_once nm s)"
  by (auto simp: pod_once_def task_once_def intro: cluster_step.pod_call cluster_step.task_call
    intro!: prod.collapse [symmetric])

text \<open>A round whose task was completed since its object was last looked at; then the object is reconciled.\<close>
definition late_sp :: SnapshotPod where
  "late_sp = set_sp_status (\<lambda>st. st\<lparr>spst_LastTriggerRound := 1, spst_Snapshots := [\<lparr>srs_TriggerRound = 1, srs_TriggerTime = 0,
     srs_TaskName = ''snap-1-app'', srs_ImageRef = ''reg.io/nginx:1-snapped'', srs_ContainerName = ''app'',
     srs_Result = ResultCreated, srs_FailedReason = [], srs_CompletedAt = None\<rparr>]\<rparr>) sample_sp"

definition pushed_task :: SnapshotPodTask where
  "pushed_task = set_task_status (\<lambda>st. st\<lparr>sptst_Phase := PhaseCompleted\<rparr>) (set_task_conditions
     (map (\<lambda>n. (new_condition n 0)\<lparr>cond_Status := ConditionTrue\<rparr>) step_names) sample_task)"

definition late_world :: sim_world where
  "late_world = sim_start\<lparr>sw_tasks := [((''default'', ''snap-1-app''), pushed_task)],
     sw_sps := [((''default'', ''snap''), late_sp)]\<rparr>"

definition round_done :: "sim_world gstate" where
  "round_done = pod_once (sim_state late_world)"

lemma round_done_reached: "sim_step\<^sup>*\<^sup>* (sim_state late_world) round_done"
  unfolding round_done_def by (rule r_into_rtranclp) (rule once_steps)

lemma late_world_ok: "cluster_ok sim_task_store sim_sp_store (sim_state late_world)"
proof -
  have "task_wf pushed_task"
    by (simp add: pushed_task_def task_wf_def follows_def step_names_def new_condition_def sample_task_def empty_task_status_def)
  then show ?thesis
    by (auto simp: cluster_ok_def late_world_def sim_task_store_def sim_sp_store_def snaps_ok_def
      late_sp_def split: if_splits)
qed

text \<open>The results reported by the stored objects, and whether each is filed under its key.\<close>
definition results :: "sim_world gstate \<Rightarrow> (string \<times> SnapshotRunningResult) list" where
  "results s = concat (map (\<lambda>(k, p). if sp_key p = k then map (\<lambda>e. (srs_TaskName e, srs_Result e)) (snaps p) else [])
     (AList.clearjunk (sw_sps (gs_world s))))"

lemma results_stored:
  assumes "(n, x) \<in> set (results s)"
  obtains k p e where "sim_sp_store (gs_world s) k = Some p" and "e \<in> set (snaps p)" and "srs_TaskName e = n" and "srs_Result e = x"
proof -
  obtain k p where kp: "(k, p) \<in> set (AList.clearjunk (sw_sps (gs_world s)))" "sp_key p = k"
      "(n, x) \<in> set (map (\<lambda>e. (srs_TaskName e, srs_Result e)) (snaps p))"
    using assms by (auto simp: results_def split: if_splits)
  have "map_of (sw_sps (gs_world s)) k = Some p"
    using kp(1) by (metis distinct_clearjunk map_of_clearjunk map_of_eq_Some_iff)
  then have "sim_sp_store (gs_world s) k = Some p" using kp(2) by (simp add: sim_sp_store_def)
  moreover obtain e where "e \<in> set (snaps p)" "srs_TaskName e = n" "srs_Result e = x" using kp(3) by auto
  ultimately show thesis by (rule that)
qed

lemma round_done_results: "results round_done = [(''snap-1-app'', ResultSuccess)]"
  by code_simp

section \<open>Properties, with reads that are up to date\<close>

text \<open>Success means committed and pushed. Start from a cluster whose tasks are well-formed and whose
  snapshot histories are truthful (such as one without tasks and snapshots) and let the controllers, the webhook
  and the users act in any order: whenever the status of a \<^verbatim>\<open>SnapshotPod\<close> reports a snapshot as
  successful, a task of the name it gives exists, is completed, and its conditions Accept, Commit and
  Push all hold.\<close>
theorem success_means_pushed:
  assumes "cluster E tasks sps nodes" and "cluster_ok tasks sps s" and "(cluster_step E tasks sps nodes)\<^sup>*\<^sup>* s s'"
    and "sps (gs_world s') k = Some p" and "e \<in> set (snaps p)" and "srs_Result e = ResultSuccess"
  shows "\<exists>k' t. tasks (gs_world s') k' = Some t \<and> om_Name (spt_meta t) = srs_TaskName e \<and>
    sptst_Phase (spt_Status t) = PhaseCompleted \<and>
    (\<forall>n\<in>{''Accept'', ''Commit'', ''Push''}. \<exists>c\<in>set (sptst_Conditions (spt_Status t)). cond_Type c = n \<and> cond_Status c = ConditionTrue)"
proof -
  have "cluster_ok tasks sps s'" by (rule cluster.reach_ok [OF assms(1,3,2)])
  from cluster_ok_success [OF this assms(4-6)] show ?thesis .
qed

theorem success_means_pushed_witness:
  "\<exists>k' t. sim_task_store (gs_world round_done) k' = Some t \<and> om_Name (spt_meta t) = ''snap-1-app'' \<and>
    sptst_Phase (spt_Status t) = PhaseCompleted \<and>
    (\<forall>n\<in>{''Accept'', ''Commit'', ''Push''}. \<exists>c\<in>set (sptst_Conditions (spt_Status t)). cond_Type c = n \<and> cond_Status c = ConditionTrue)"
proof -
  have "(''snap-1-app'', ResultSuccess) \<in> set (results round_done)" by (simp add: round_done_results)
  then obtain k p e where p: "sim_sp_store (gs_world round_done) k = Some p" and e: "e \<in> set (snaps p)"
      "srs_TaskName e = ''snap-1-app''" "srs_Result e = ResultSuccess"
    by (rule results_stored)
  from success_means_pushed [OF sim_one.cluster_axioms late_world_ok round_done_reached p e(1,3)] e(2)
  show ?thesis by simp
qed

text \<open>The final phases of a task are final in the whole system. However the controllers and users go on, a
  task that was completed or failed keeps its spec and identity, its phase, its retry count and the
  number of its conditions that hold.\<close>
theorem final_task_stays_final:
  assumes "cluster E tasks sps nodes" and "cluster_ok tasks sps s" and "(cluster_step E tasks sps nodes)\<^sup>*\<^sup>* s s'"
    and "tasks (gs_world s) k = Some t" and "terminal_phase (sptst_Phase (spt_Status t))"
  shows "\<exists>u. tasks (gs_world s') k = Some u \<and> same_task t u \<and> abs_task u = abs_task t"
  by (rule cluster.reach_final [OF assms(1,3,2,4,5)])

definition finished_task :: SnapshotPodTask where
  "finished_task = set_task_status (\<lambda>st. st\<lparr>sptst_Phase := PhaseFailed, sptst_RetryCount := 2\<rparr>) sample_task"

definition finished_world :: sim_world where
  "finished_world = sim_start\<lparr>sw_tasks := [((''default'', ''snap-1-app''), finished_task)]\<rparr>"

lemma finished_stored: "sim_task_store (gs_world (sim_state finished_world)) (''default'', ''snap-1-app'') = Some finished_task"
  by (simp add: finished_world_def sim_task_store_def finished_task_def sample_task_def)

lemma finished_ok: "cluster_ok sim_task_store sim_sp_store (sim_state finished_world)"
proof -
  have "task_wf finished_task" by (simp add: finished_task_def task_wf_def sample_task_def empty_task_status_def)
  then show ?thesis
    by (auto simp: cluster_ok_def finished_world_def sim_task_store_def sim_sp_store_def split: if_splits)
qed

theorem final_task_stays_final_witness:
  "\<exists>u. sim_task_store (gs_world (task_once ''snap-1-app'' (sim_state finished_world))) (''default'', ''snap-1-app'') = Some u \<and>
    same_task finished_task u \<and> abs_task u = abs_task finished_task"
proof -
  have "sim_step\<^sup>*\<^sup>* (sim_state finished_world) (task_once ''snap-1-app'' (sim_state finished_world))"
    by (rule r_into_rtranclp) (rule once_steps)
  from final_task_stays_final [OF sim_one.cluster_axioms finished_ok this finished_stored] show ?thesis
    by (simp add: finished_task_def)
qed

text \<open>Every snapshot history stays short: in every state the controllers and users can reach, no
  \<^verbatim>\<open>SnapshotPod\<close> has more than 20 snapshot entries, and every stored task is well-formed.\<close>
theorem reachable_invariant:
  assumes "cluster E tasks sps nodes" and "cluster_ok tasks sps s" and "(cluster_step E tasks sps nodes)\<^sup>*\<^sup>* s s'"
  shows "(\<forall>k p. sps (gs_world s') k = Some p \<longrightarrow> length (snaps p) \<le> 20) \<and>
    (\<forall>k t. tasks (gs_world s') k = Some t \<longrightarrow> task_wf t)"
proof -
  have "cluster_ok tasks sps s'" by (rule cluster.reach_ok [OF assms(1,3,2)])
  then show ?thesis unfolding cluster_ok_def snaps_ok_def by blast
qed

theorem reachable_invariant_witness:
  "\<exists>k p. sim_sp_store (gs_world round_done) k = Some p \<and> snaps p \<noteq> [] \<and> length (snaps p) \<le> 20"
proof -
  have "(''snap-1-app'', ResultSuccess) \<in> set (results round_done)" by (simp add: round_done_results)
  then obtain k p e where "sim_sp_store (gs_world round_done) k = Some p" "e \<in> set (snaps p)" by (rule results_stored)
  with reachable_invariant [OF sim_one.cluster_axioms late_world_ok round_done_reached] show ?thesis by fastforce
qed

end
