(* ===== verification/StaleCalls.thy ===== *)
theory StaleCalls
  imports Cluster
begin

text \<open>
  What optimistic locking does for a controller that reads from a cache: the versions of stored objects
  only grow, and a call that works on an outdated object stores nothing and reports an error. The lemmas
  hold in \<open>locked_cluster\<close>, which says nothing about reads.
\<close>

section \<open>Growing versions\<close>

definition newer :: "('w \<Rightarrow> 'k \<rightharpoonup> 'a) \<Rightarrow> ('a \<Rightarrow> nat) \<Rightarrow> 'w gstate \<Rightarrow> 'w gstate \<Rightarrow> bool" where
  "newer obs ver s s' \<longleftrightarrow> (\<forall>k a. obs (gs_world s) k = Some a \<longrightarrow>
     (\<exists>b. obs (gs_world s') k = Some b \<and> (b = a \<or> ver a < ver b)))"

interpretation newer_frame: frame_rel "newer obs ver" for obs :: "'w \<Rightarrow> 'k \<rightharpoonup> 'a" and ver :: "'a \<Rightarrow> nat"
proof
  fix s t u :: "'w gstate"
  assume st: "newer obs ver s t" and tu: "newer obs ver t u"
  show "newer obs ver s u" unfolding newer_def
  proof (intro allI impI)
    fix k a assume "obs (gs_world s) k = Some a"
    with st obtain b where b: "obs (gs_world t) k = Some b" "b = a \<or> ver a < ver b" unfolding newer_def by blast
    with tu obtain c where "obs (gs_world u) k = Some c" "c = b \<or> ver b < ver c" unfolding newer_def by blast
    with b(2) show "\<exists>c. obs (gs_world u) k = Some c \<and> (c = a \<or> ver a < ver c)" by fastforce
  qed
qed (simp add: newer_def)

lemma unseen_newer: "keeps (unseen obs) m \<Longrightarrow> keeps (newer obs ver) m"
  by (simp add: keeps_def unseen_def newer_def)

text \<open>The object \<open>a\<close> is not what is stored under its key.\<close>
definition outdated :: "('k \<rightharpoonup> 'a) \<Rightarrow> ('a \<Rightarrow> nat) \<Rightarrow> 'k \<Rightarrow> 'a \<Rightarrow> bool" where
  "outdated m ver k a \<longleftrightarrow> (\<forall>b. m k = Some b \<longrightarrow> ver b \<noteq> ver a)"

locale locked_cluster = cluster_base E tasks sps nodes + versioned_store E tasks sps
  for E :: "'w env" and tasks :: "'w \<Rightarrow> (string \<times> string \<rightharpoonup> SnapshotPodTask)"
    and sps :: "'w \<Rightarrow> (string \<times> string \<rightharpoonup> SnapshotPod)"
    and nodes :: "'w SnapshotPodTaskReconciler set"
begin

section \<open>Refused updates\<close>

lemma task_refused:
  assumes "outdated (tasks w) task_version (task_key t) t" and "run_state (env_update_task_status E t) w = (u, w')"
  shows "(\<exists>e. u = Inl e) \<and> tasks w' = tasks w"
proof (cases "tasks w (task_key t)")
  case None
  then show ?thesis using assms(2) update_task_ok [of t w _ w'] update_task_err [of t w _ w'] by (cases u) auto
next
  case (Some cur)
  then have "task_version cur \<noteq> task_version t" using assms(1) by (simp add: outdated_def)
  from task_locked [OF Some this assms(2)] show ?thesis by (auto simp: isl_def)
qed

lemma sp_refused:
  assumes "outdated (sps w) sp_version (sp_key p) p" and "run_state (env_update_snapshotpod_status E p) w = (u, w')"
  shows "(\<exists>e. u = Inl e) \<and> sps w' = sps w"
proof (cases "sps w (sp_key p)")
  case None
  then show ?thesis using assms(2) update_sp_ok [of p w _ w'] update_sp_err [of p w _ w'] by (cases u) auto
next
  case (Some cur)
  then have "sp_version cur \<noteq> sp_version p" using assms(1) by (simp add: outdated_def)
  from sp_locked [OF Some this assms(2)] show ?thesis by (auto simp: isl_def)
qed

lemma spec_refused:
  assumes "outdated (sps w) sp_version (sp_key p) p" and "run_state (env_update_snapshotpod E p) w = (u, w')"
  shows "(\<exists>e. u = Inl e) \<and> sps w' = sps w"
proof (cases "sps w (sp_key p)")
  case None
  then show ?thesis using assms(2) update_spec_ok [of p w _ w'] update_spec_err [of p w _ w'] by (cases u) auto
next
  case (Some cur)
  then have "sp_version cur \<noteq> sp_version p" using assms(1) by (simp add: outdated_def)
  from spec_locked [OF Some this assms(2)] show ?thesis by (auto simp: isl_def)
qed

section \<open>Task calls\<close>

lemma task_runtimes_ops: "task_runtimes E tasks r \<Longrightarrow> task_ops (unseen tasks) E"
  by (intro task_ops.intro task_ops_axioms.intro unseen_frame.frame_rel_axioms task_runtimes.unseen_now unseen_emit)

lemma stale_set_refused:
  assumes "outdated (tasks (gs_world s)) task_version (task_key t) t" and "tasks w = tasks (gs_world s)"
    and "run_state (env_update_task_status E (set_task_conditions cs t)) w = (u, w')"
  shows "(\<exists>e. u = Inl e) \<and> tasks w' = tasks (gs_world s)"
  using task_refused [OF _ assms(3)] assms(1,2) by (simp add: outdated_def)

lemma stale_loop:
  assumes "\<forall>p\<in>set recs. \<forall>t. keeps (unseen tasks) (snd p t)"
    and "outdated (tasks (gs_world s)) task_version (task_key t) t"
    and "run_state (run_recs E recs t) s = (ex, s')"
  shows "tasks (gs_world s') = tasks (gs_world s) \<and>
    (\<forall>t2 err. ex = LoopEnd t2 err \<longrightarrow> task_key t2 = task_key t \<and> task_version t2 = task_version t)"
  using assms
proof (induction recs arbitrary: t s)
  case Nil
  then show ?case by auto
next
  case (Cons rec recs)
  obtain n f where rec: "rec = (n, f)" by (cases rec)
  have frame: "\<forall>p\<in>set recs. \<forall>t. keeps (unseen tasks) (snd p t)" and f: "\<And>t. keeps (unseen tasks) (f t)"
    using Cons.prems(1) rec by auto
  have tick: "tasks (gs_world s2) = tasks (gs_world s1)" if "ticked E s1 s2" for s1 s2
    using that keepsD [OF quiet_unseen [OF quiet_now]] unfolding ticked_def unseen_def by (metis prod.collapse)
  have tried: "tasks (gs_world s2) = tasks (gs_world s)"
    if "run_state (ensure_condition E n (sptst_Conditions (spt_Status t))) s = ((conds, i), s1)"
      "run_state (f (set_task_conditions conds t)) s1 = (res, s2)" for conds i s1 res s2
    using ensure_condition_sel [OF that(1)] keepsD [OF f that(2)] tick by (simp add: unseen_def)
  note refuse = stale_set_refused [OF Cons.prems(2)]
  from run_recs_iteration [OF Cons.prems(3) [unfolded rec]] show ?case
  proof cases
    case (held conds i s1)
    have s1: "tasks (gs_world s1) = tasks (gs_world s)" using ensure_condition_sel [OF held(1)] tick by blast
    have "outdated (tasks (gs_world s1)) task_version (task_key (set_task_conditions conds t)) (set_task_conditions conds t)"
      using Cons.prems(2) s1 by (simp add: outdated_def)
    note ih = Cons.IH [OF frame this held(3)]
    have "task_key (set_task_conditions conds t) = task_key t" "task_version (set_task_conditions conds t) = task_version t"
      by simp_all
    with ih s1 show ?thesis by metis
  next
    case (panicked conds i s1 m)
    then show ?thesis using tried by simp
  next
    case (failed conds i s1 err s2 u w)
    from refuse [OF tried [OF failed(3,5)] failed(6)] failed(1,2) show ?thesis by auto
  next
    case (refused conds i s1 s2 c s3 e w)
    have "tasks (gs_world s3) = tasks (gs_world s)"
      using tried [OF refused(3,5)] succeed_condition_sel [OF refused(6)] tick by metis
    from refuse [OF this refused(7)] refused(1,2) show ?thesis by auto
  next
    case (passed conds i s1 s2 c s3 v w)
    have "tasks (gs_world s3) = tasks (gs_world s)"
      using tried [OF passed(1,3)] succeed_condition_sel [OF passed(4)] tick by metis
    from refuse [OF this passed(5)] show ?thesis by auto
  qed
qed

lemma settle_meta: "spt_meta (fst (run_state (settle_phase E t err) s)) = spt_meta t"
  by (simp add: settle_phase_def Let_def set_task_status_def split: prod.splits)

lemma stale_attempt:
  assumes "r \<in> nodes" and "outdated (tasks (gs_world s)) task_version (task_key t) t"
    and "run_state (attempt_task E r t0 t) s = (res, s')"
  shows "tasks (gs_world s') = tasks (gs_world s) \<and> (\<forall>q. res \<noteq> Done (q, None))"
proof -
  note rt = node_task_runtimes [OF assms(1)]
  have frames: "\<forall>p\<in>set (task_recs E r). \<forall>t. keeps (unseen tasks) (snd p t)"
    using task_runtimes.unseen_steps [OF rt] by auto
  obtain ex s1 where loop: "run_state (run_recs E (task_recs E r) t) s = (ex, s1)" by (metis prod.collapse)
  note l = stale_loop [OF frames assms(2) loop]
  show ?thesis
  proof (cases ex)
    case (LoopEnd t2 err)
    obtain t3 s2 where set: "run_state (settle_phase E t2 err) s1 = (t3, s2)" by (metis prod.collapse)
    have s2: "tasks (gs_world s2) = tasks (gs_world s)"
      using task_runtimes.tasks_unseen [OF rt task_ops.frame_settle [OF task_runtimes_ops [OF rt]] set] l by simp
    have "spt_meta t3 = spt_meta t2" using settle_meta [of t2 err s1] set by simp
    then have t3: "outdated (tasks (gs_world s2)) task_version (task_key t3) t3"
      using l LoopEnd assms(2) s2 by (simp add: outdated_def)
    obtain u w' where u: "run_state (env_update_task_status E t3) (gs_world s2) = (u, w')" by (metis prod.collapse)
    from task_refused [OF t3 u] obtain e where "u = Inl e" "tasks w' = tasks (gs_world s)" using s2 by auto
    then show ?thesis using assms(3) loop LoopEnd set u by (auto simp: attempt_task_def finish_task_def)
  qed (use assms(3) loop l in \<open>auto simp: attempt_task_def\<close>)
qed

text \<open>A call leaves every task as it is or with a greater version.\<close>
lemma update_newer: "keeps (newer tasks task_version) (in_world (env_update_task_status E t))"
  unfolding keeps_def newer_def
proof (intro allI impI)
  fix s :: "'w gstate" and k a
  obtain u w' where u: "run_state (env_update_task_status E t) (gs_world s) = (u, w')" by (metis prod.collapse)
  assume a: "tasks (gs_world s) k = Some a"
  have same: "k \<noteq> task_key t \<Longrightarrow> tasks w' k = tasks (gs_world s) k"
    using u update_task_ok [of t "gs_world s" _ w'] update_task_err [of t "gs_world s" _ w'] by (cases u) fastforce+
  have some: "\<exists>b. tasks w' (task_key t) = Some b" if "k = task_key t"
    using u a that update_task_ok [of t "gs_world s" _ w'] update_task_err [of t "gs_world s" _ w'] by (cases u) fastforce+
  have "\<exists>b. tasks w' k = Some b \<and> (b = a \<or> task_version a < task_version b)"
    using same a some task_grows [OF _ u] by (cases "k = task_key t") auto
  then show "\<exists>b. tasks (gs_world (snd (run_state (in_world (env_update_task_status E t)) s))) k = Some b \<and>
      (b = a \<or> task_version a < task_version b)"
    using u by simp
qed

end

sublocale locked_cluster \<subseteq> newer_ops: task_frame "newer tasks task_version" E
  by unfold_locales (auto simp: newer_frame.refl_R update_newer unseen_emit intro: newer_frame.trans_R unseen_newer
    unseen_newer [OF quiet_unseen [OF quiet_now]])

context locked_cluster
begin

lemma newer_attempt:
  assumes "r \<in> nodes"
  shows "keeps (newer tasks task_version) (attempt_task E r t0 t)"
  using task_runtimes.unseen_steps [OF node_task_runtimes [OF assms]]
  by (intro newer_ops.frame_attempt) (auto intro: unseen_newer)

text \<open>A call up to its attempt, for the controller of a node.\<close>
lemma task_call_read:
  assumes "r \<in> nodes" and "run_state (Task_Reconcile E r ns nm) s = (res, s')"
  obtains (guards) w where "tasks w = tasks (gs_world s)" and "tasks (gs_world s') = tasks (gs_world s)"
      and "\<And>t. fst (run_state (env_get_task E ns nm) w) = Inr t \<Longrightarrow> \<not> to_do r t"
  | (attempt) w t t0 s2 where "tasks w = tasks (gs_world s)" and "fst (run_state (env_get_task E ns nm) w) = Inr t"
      and "to_do r t" and "tasks (gs_world s2) = tasks (gs_world s)"
      and "run_state (attempt_task E r t0 (if sint (sptst_RetryCount (spt_Status t)) < 0
        then set_task_status (\<lambda>st. st\<lparr>sptst_RetryCount := 0\<rparr>) t else t)) s2 = (res, s')"
  by (rule task_runtimes.reconcile_read [OF node_task_runtimes [OF assms(1)] assms(2)]) (auto intro: guards attempt)

section \<open>Updates of SnapshotPod objects\<close>

lemma sp_update_grows:
  assumes "run_state (env_update_snapshotpod_status E p) w = (u, w')" and "sps w k = Some a"
  shows "\<exists>b. sps w' k = Some b \<and> (b = a \<or> sp_version a < sp_version b)"
proof -
  have same: "k \<noteq> sp_key p \<Longrightarrow> sps w' k = sps w k"
    using assms(1) update_sp_ok [of p w _ w'] update_sp_err [of p w _ w'] by (cases u) fastforce+
  have "\<exists>b. sps w' (sp_key p) = Some b" if "k = sp_key p"
    using assms that update_sp_ok [of p w _ w'] update_sp_err [of p w _ w'] by (cases u) fastforce+
  then show ?thesis using same assms(2) sp_grows [OF _ assms(1)] by (cases "k = sp_key p") auto
qed

lemma spec_update_grows:
  assumes "run_state (env_update_snapshotpod E p) w = (u, w')" and "sps w k = Some a"
  shows "\<exists>b. sps w' k = Some b \<and> (b = a \<or> sp_version a < sp_version b)"
proof -
  have same: "k \<noteq> sp_key p \<Longrightarrow> sps w' k = sps w k"
    using assms(1) update_spec_ok [of p w _ w'] update_spec_err [of p w _ w'] by (cases u) fastforce+
  have "\<exists>b. sps w' (sp_key p) = Some b" if "k = sp_key p"
    using assms that update_spec_ok [of p w _ w'] update_spec_err [of p w _ w'] by (cases u) fastforce+
  then show ?thesis using same assms(2) spec_grows [OF _ assms(1)] by (cases "k = sp_key p") auto
qed

text \<open>The loop and the update of an object that is not stored any more: only new tasks stay.\<close>
lemma stale_pod_call:
  assumes old: "outdated (sps (gs_world s)) sp_version (sp_key sp) sp" and lists: "truthful_lists E tasks s"
    and s2: "still tasks sps s s2" and body: "run_state (run_pod_recs E (pod_recs E) sp) s2 = (sp1, s3)"
    and upd: "run_state (env_update_snapshotpod_status E sp1) (gs_world s3) = (u, w4)"
    and rest: "still tasks sps (s3\<lparr>gs_world := w4\<rparr>) s'"
  shows "grown tasks sps s s' \<and> (\<exists>e. u = Inl e)"
proof -
  have "truthful_lists E tasks s2" using truthful_lists_mono [OF lists] s2 by (simp add: still_def)
  note m = run_pod_recs_moves [OF subset_refl body this]
  have g3: "grown tasks sps s s3" using grown_trans [OF still_grown [OF s2]] m by blast
  have "sp_meta sp1 = sp_meta sp" using m by (simp add: pod_moves_def)
  then have "outdated (sps (gs_world s3)) sp_version (sp_key sp1) sp1" using old g3 by (simp add: outdated_def grown_def)
  note refused = sp_refused [OF this upd]
  moreover have "tasks w4 = tasks (gs_world s3)" using update_sp_tasks [of sp1 "gs_world s3"] upd by simp
  ultimately have "still tasks sps s3 (s3\<lparr>gs_world := w4\<rparr>)" by (simp add: still_def)
  then have "still tasks sps s3 s'" using rest by (rule still_frame.trans_R)
  then show ?thesis using grown_trans [OF g3 still_grown] refused by blast
qed

text \<open>The call of a controller leaves every object as it is or with a greater version.\<close>
lemma pod_call_grows:
  assumes grown: "grown tasks sps s s3" and upd: "run_state (env_update_snapshotpod_status E sp1) (gs_world s3) = (u, w4)"
    and rest: "still tasks sps (s3\<lparr>gs_world := w4\<rparr>) s'" and "sps (gs_world s) k = Some a"
  shows "\<exists>b. sps (gs_world s') k = Some b \<and> (b = a \<or> sp_version a < sp_version b)"
  using sp_update_grows [OF upd, of k a] assms by (simp add: grown_def still_def)

text \<open>The webhook on an object that is not stored any more.\<close>
lemma stale_raise:
  assumes "outdated (sps w) sp_version (sp_key sp) sp" and "run_state (env_update_snapshotpod E (next_round sp)) w = (u, w')"
  shows "sps w' = sps w"
  using spec_refused [OF _ assms(2)] assms(1) by (simp add: outdated_def next_round_def)

end

end
