(* ===== verification/CachedReads.thy ===== *)
theory CachedReads
  imports StaleCalls
begin

text \<open>
  The controllers with the client of the manager, which answers reads from a cache: an object that is
  read is the object of some earlier state of the cluster. The locale \<open>reads_from\<close> says what is relied
  on: reads are answered from two given stores, and writes go to the API server, which locks
  optimistically. The steps of \<open>Cluster\<close> are repeated for such clients, and the invariants hold all the
  same, because an update on the basis of an outdated object is refused.
\<close>

section \<open>Objects and their past\<close>

text \<open>How a stored task moves on: by abstract steps, under a new version.\<close>
definition moved_on :: "SnapshotPodTask \<Rightarrow> SnapshotPodTask \<Rightarrow> bool" where
  "moved_on t u \<longleftrightarrow> same_task t u \<and> task_step\<^sup>*\<^sup>* (abs_task t) (abs_task u) \<and> (u = t \<or> task_version t < task_version u)"

lemma moved_on_refl [simp]: "moved_on t t"
  by (simp add: moved_on_def)

lemma moved_on_trans:
  assumes "moved_on t u" and "moved_on u v"
  shows "moved_on t v"
  using assms same_task_trans [of t u v] rtranclp_trans [of task_step "abs_task t" "abs_task u" "abs_task v"]
  by (auto simp: moved_on_def)

text \<open>What a world of the past says about the present one.\<close>
definition tasks_since :: "(string \<times> string \<rightharpoonup> SnapshotPodTask) \<Rightarrow> (string \<times> string \<rightharpoonup> SnapshotPodTask) \<Rightarrow> bool" where
  "tasks_since m m' \<longleftrightarrow> (\<forall>k t. m k = Some t \<longrightarrow> (\<exists>u. m' k = Some u \<and> moved_on t u))"

definition sps_since :: "(string \<times> string \<rightharpoonup> SnapshotPod) \<Rightarrow> (string \<times> string \<rightharpoonup> SnapshotPod) \<Rightarrow> bool" where
  "sps_since m m' \<longleftrightarrow> (\<forall>k a b. m k = Some a \<and> m' k = Some b \<longrightarrow> b = a \<or> sp_version a < sp_version b)"

lemma tasks_since_trans:
  assumes "tasks_since m m'" and "tasks_since m' m''"
  shows "tasks_since m m''"
  using assms moved_on_trans unfolding tasks_since_def by meson

lemma tasks_since_refl: "tasks_since m m"
  unfolding tasks_since_def using moved_on_refl by blast

lemma tasks_since_upd: "m k = Some t \<Longrightarrow> moved_on t u \<Longrightarrow> tasks_since m (m(k \<mapsto> u))"
  by (simp add: tasks_since_def)

lemma tasks_since_le: "m \<subseteq>\<^sub>m m' \<Longrightarrow> tasks_since m m'"
  unfolding tasks_since_def map_le_def by (metis domI moved_on_refl)

lemma tasks_since_completed:
  assumes "tasks_since m m'" and "completed_task m x"
  shows "completed_task m' x"
proof -
  obtain k t where t: "m k = Some t" "om_Name (spt_meta t) = x" "sptst_Phase (spt_Status t) = PhaseCompleted"
    using assms(2) unfolding completed_task_def by blast
  then obtain u where u: "m' k = Some u" "same_task t u" "task_step\<^sup>*\<^sup>* (abs_task t) (abs_task u)"
    using assms(1) unfolding tasks_since_def moved_on_def by blast
  have "abs_task u = abs_task t" using terminal_no_steps [OF u(3)] t(3) by simp
  then have "sptst_Phase (spt_Status u) = PhaseCompleted" using t(3) by (metis abs_task_sel(4))
  then show ?thesis using u(1) same_task_key [OF u(2)] t(2) unfolding completed_task_def
    by (intro exI [of _ k] exI [of _ u]) simp
qed

lemma sps_since_outdated: "sps_since m m' \<Longrightarrow> m k = Some a \<Longrightarrow> m' k = Some a \<or> outdated m' sp_version k a"
  unfolding sps_since_def outdated_def by fastforce

lemma sps_since_refl: "sps_since m m"
  by (auto simp: sps_since_def)

text \<open>No object appears, and one that changes gets a greater version.\<close>
definition sps_kept :: "(string \<times> string \<rightharpoonup> SnapshotPod) \<Rightarrow> (string \<times> string \<rightharpoonup> SnapshotPod) \<Rightarrow> bool" where
  "sps_kept m m' \<longleftrightarrow> (\<forall>k b. m' k = Some b \<longrightarrow> (\<exists>a. m k = Some a \<and> (b = a \<or> sp_version a < sp_version b)))"

lemma sps_since_step:
  assumes "sps_since m m'" and "sps_kept m' m''"
  shows "sps_since m m''"
  unfolding sps_since_def
proof (intro allI impI, elim conjE)
  fix k a c assume a: "m k = Some a" and c: "m'' k = Some c"
  obtain b where "m' k = Some b" "c = b \<or> sp_version b < sp_version c" using assms(2) c unfolding sps_kept_def by blast
  moreover from this(1) a have "b = a \<or> sp_version a < sp_version b" using assms(1) unfolding sps_since_def by blast
  ultimately show "c = a \<or> sp_version a < sp_version c" by auto
qed

section \<open>Clients that read from a cache\<close>

text \<open>Reads show objects of the stores \<open>q\<close> and \<open>p\<close>, if they succeed.\<close>
locale reads_from = locked_cluster C tasks sps nodes
  for C :: "'w env" and tasks :: "'w \<Rightarrow> (string \<times> string \<rightharpoonup> SnapshotPodTask)"
    and sps :: "'w \<Rightarrow> (string \<times> string \<rightharpoonup> SnapshotPod)"
    and nodes :: "'w SnapshotPodTaskReconciler set" +
  fixes q :: "string \<times> string \<rightharpoonup> SnapshotPodTask" and p :: "string \<times> string \<rightharpoonup> SnapshotPod"
  assumes read_task: "fst (run_state (env_get_task C ns nm) w) = Inr t \<Longrightarrow> q (ns, nm) = Some t \<and> task_key t = (ns, nm)"
    and read_tasks: "fst (run_state (env_list_tasks C sel) w) = Inr ts \<Longrightarrow> t \<in> set ts \<Longrightarrow> q (task_key t) = Some t"
    and read_sp: "fst (run_state (env_get_snapshotpod C ns nm) w) = Inr sp \<Longrightarrow> p (ns, nm) = Some sp \<and> sp_key sp = (ns, nm)"
    and read_sps: "fst (run_state (env_list_snapshotpods C (Some n)) w) = Inr items \<Longrightarrow> sp \<in> set items \<Longrightarrow> p (sp_key sp) = Some sp"
begin

text \<open>A call of a task controller.\<close>
lemma task_call_moves:
  assumes r: "r \<in> nodes" and run: "run_state (Task_Reconcile C r ns nm) s = (res, s')"
    and past: "tasks_since q (tasks (gs_world s))" and wf: "\<forall>t. tasks (gs_world s) (ns, nm) = Some t \<longrightarrow> task_wf t"
  shows "tasks (gs_world s') = tasks (gs_world s) \<or> (\<exists>t u. tasks (gs_world s) (ns, nm) = Some t \<and>
    tasks (gs_world s') = (tasks (gs_world s))((ns, nm) \<mapsto> u) \<and> moved_on t u \<and> task_wf u)"
proof -
  note lc = locked_cluster_axioms
  show ?thesis
  proof (rule locked_cluster.task_call_read [OF lc r run])
    fix w t t0 s2
    assume get: "fst (run_state (env_get_task C ns nm) w) = Inr t" and todo: "to_do r t"
      and s2: "tasks (gs_world s2) = tasks (gs_world s)"
      and att: "run_state (attempt_task C r t0 (if sint (sptst_RetryCount (spt_Status t)) < 0
        then set_task_status (\<lambda>st. st\<lparr>sptst_RetryCount := 0\<rparr>) t else t)) s2 = (res, s')"
    from read_task [OF get] obtain cur where cur: "tasks (gs_world s) (ns, nm) = Some cur" "moved_on t cur" and key: "task_key t = (ns, nm)"
      using past unfolding tasks_since_def by blast
    show ?thesis
    proof (cases "cur = t")
      case True
      have wf_t: "task_wf t" using wf cur(1) True by simp
      then have att: "run_state (attempt_task C r t0 t) s2 = (res, s')" using att by (simp add: task_wf_def)
      have stored: "tasks (gs_world s2) (task_key t) = Some t" using s2 cur(1) True key by simp
      have open_t: "\<not> terminal_phase (sptst_Phase (spt_Status t))" using todo by (simp add: to_do_def)
      obtain u where u: "tasks (gs_world s') = (tasks (gs_world s2))(task_key t \<mapsto> u)" "same_task t u" "task_wf u"
          "task_step\<^sup>*\<^sup>* (abs_task t) (abs_task u)"
        using task_runtimes.attempt_moves [OF cluster_base.node_task_runtimes [OF locked_cluster.axioms(1) [OF lc] r]
            stored wf_t open_t att] by blast
      have "newer tasks task_version s2 s'" by (rule keepsD [OF locked_cluster.newer_attempt [OF lc r] att])
      then have "u = t \<or> task_version t < task_version u" using stored u(1) unfolding newer_def by fastforce
      then show ?thesis using u cur(1) True s2 key unfolding moved_on_def by (intro disjI2 exI [of _ t] exI [of _ u]) simp
    next
      case False
      let ?t = "if sint (sptst_RetryCount (spt_Status t)) < 0
        then set_task_status (\<lambda>st. st\<lparr>sptst_RetryCount := 0\<rparr>) t else t"
      have "task_version t < task_version cur" using False cur(2) by (auto simp: moved_on_def)
      then have "outdated (tasks (gs_world s2)) task_version (task_key ?t) ?t"
        using s2 cur(1) key by (simp add: outdated_def set_task_status_def)
      from locked_cluster.stale_attempt [OF lc r this att] s2 show ?thesis by simp
    qed
  qed simp
qed

text \<open>A listing from the cache: what is completed there is completed for good.\<close>
lemma cached_truthful:
  assumes "tasks_since q (tasks (gs_world s))"
  shows "truthful_lists C tasks s"
  unfolding truthful_lists_def
proof (intro allI impI, elim conjE)
  fix w sel ts t
  assume le: "tasks (gs_world s) \<subseteq>\<^sub>m tasks w" and list: "fst (run_state (env_list_tasks C sel) w) = Inr ts"
    and t: "t \<in> set ts" "sptst_Phase (spt_Status t) = PhaseCompleted"
  have "q (task_key t) = Some t" by (rule read_tasks [OF list t(1)])
  then have "completed_task q (om_Name (spt_meta t))" using t(2) unfolding completed_task_def by blast
  then have "completed_task (tasks (gs_world s)) (om_Name (spt_meta t))" by (rule tasks_since_completed [OF assms])
  then show "completed_task (tasks w) (om_Name (spt_meta t))" by (rule tasks_since_completed [OF tasks_since_le [OF le]])
qed

text \<open>A call of the \<^verbatim>\<open>SnapshotPod\<close> controller: tasks are only added, and at most its object is updated.\<close>
lemma pod_call_moves:
  assumes run: "run_state (Pod_Reconcile C ns nm) s = (res, s')"
    and past: "tasks_since q (tasks (gs_world s))" "sps_since p (sps (gs_world s))"
  shows "(\<forall>k a. sps (gs_world s) k = Some a \<longrightarrow> (\<exists>b. sps (gs_world s') k = Some b \<and> (b = a \<or> sp_version a < sp_version b))) \<and>
    tasks (gs_world s) \<subseteq>\<^sub>m tasks (gs_world s') \<and>
    (\<forall>k t. tasks (gs_world s') k = Some t \<and> tasks (gs_world s) k = None \<longrightarrow> spt_Status t = empty_task_status) \<and>
    (sps (gs_world s') = sps (gs_world s) \<or> (\<exists>a b. sps (gs_world s) (ns, nm) = Some a \<and>
      sps (gs_world s') = (sps (gs_world s))((ns, nm) \<mapsto> b) \<and>
      (snaps_ok (tasks (gs_world s)) (snaps a) \<longrightarrow> snaps_ok (tasks (gs_world s')) (snaps b))))"
    (is "?grows \<and> ?effect")
proof -
  note lc = locked_cluster_axioms
  have store: "cluster_store C tasks sps"
    using lc unfolding locked_cluster_def cluster_base_def webhook_store_def by blast
  note lists = cached_truthful [OF past(1)]
  have idle: "?grows \<and> ?effect" if "grown tasks sps s s'"
    using that unfolding grown_def by auto
  show ?thesis
  proof (rule cluster_store.pod_reconcile_read [OF store run])
    assume "still tasks sps s s'"
    then show ?thesis by (intro idle still_grown)
  next
    fix sp w1 s2 sp1 s3 u w4
    assume get: "fst (run_state (env_get_snapshotpod C ns nm) w1) = Inr sp"
      and s2: "still tasks sps s s2" and body: "run_state (run_pod_recs C (pod_recs C) sp) s2 = (sp1, s3)"
      and upd: "run_state (env_update_snapshotpod_status C sp1) (gs_world s3) = (u, w4)"
      and rest: "still tasks sps (s3\<lparr>gs_world := w4\<rparr>) s'"
    note read = read_sp [OF get]
    from sps_since_outdated [OF past(2) conjunct1 [OF read]] show ?thesis
    proof
      assume stored: "sps (gs_world s) (ns, nm) = Some sp"
      note e = cluster_store.pod_loop_effect [OF store stored lists s2 body upd rest]
      have "truthful_lists C tasks s2" using truthful_lists_mono [OF lists] s2 by (simp add: still_def)
      then have "grown tasks sps s2 s3" using cluster_store.run_pod_recs_moves [OF store subset_refl body] by blast
      then have "grown tasks sps s s3" using grown_trans [OF still_grown [OF s2]] by blast
      from locked_cluster.pod_call_grows [OF lc this upd rest] e show ?thesis by blast
    next
      assume "outdated (sps (gs_world s)) sp_version (ns, nm) sp"
      then have "outdated (sps (gs_world s)) sp_version (sp_key sp) sp" using read by simp
      from locked_cluster.stale_pod_call [OF lc this lists s2 body upd rest] show ?thesis by (intro idle) simp
    qed
  qed
qed

text \<open>A call of the webhook: at most one more round for a stored object.\<close>
lemma webhook_call_moves:
  assumes run: "run_state (Webhook_Handle C srt rq) s = (rs, s')"
    and past: "sps_since p (sps (gs_world s))"
  shows "tasks (gs_world s') = tasks (gs_world s) \<and>
    (sps (gs_world s') = sps (gs_world s) \<or> (\<exists>sp sp'. sps (gs_world s) (sp_key sp) = Some sp \<and> round_bumped sp sp' \<and>
      sps (gs_world s') = (sps (gs_world s))(sp_key sp \<mapsto> sp') \<and> (sp' = sp \<or> sp_version sp < sp_version sp')))"
proof -
  note lc = locked_cluster_axioms
  have store: "sp_store C sps" using lc unfolding locked_cluster_def cluster_base_def webhook_store_def by blast
  have t: "tasks (gs_world s') = tasks (gs_world s)"
    by (rule cluster_base.webhook_call_tasks [OF locked_cluster.axioms(1) [OF lc] run])
  from sp_store.handle_parts [OF store run] show ?thesis
  proof (elim disjE exE conjE)
    fix pod res
    assume "run_state (handlePodUpdate C (om_Namespace (pod_meta pod)) pod) s = (res, s')"
    from update_parts [OF this] show ?thesis
    proof (elim disjE exE conjE)
      assume "gs_world s' = snd (run_state (env_list_snapshotpods C (Some (om_Namespace (pod_meta pod)))) (gs_world s))"
      then show ?thesis using t by (simp add: list_sps_quiet)
    next
      fix sp let ?w = "snd (run_state (env_list_snapshotpods C (Some (om_Namespace (pod_meta pod)))) (gs_world s))"
      assume found: "to_raise C (gs_world s) (om_Namespace (pod_meta pod)) pod sp"
        and s': "gs_world s' = snd (run_state (env_update_snapshotpod C (next_round sp))
          (snd (run_state (env_list_snapshotpods C (Some (om_Namespace (pod_meta pod)))) (gs_world s))))"
      obtain u w' where u: "run_state (env_update_snapshotpod C (next_round sp)) ?w = (u, w')" by (metis prod.collapse)
      have w': "gs_world s' = w'" using s' u by simp
      have w: "sps ?w = sps (gs_world s)" by (rule list_sps_quiet)
      obtain items where "fst (run_state (env_list_snapshotpods C (Some (om_Namespace (pod_meta pod)))) (gs_world s)) = Inr items"
          "sp \<in> set items"
        using found unfolding to_raise_def by (auto simp: find_Some_iff)
      then have "p (sp_key sp) = Some sp" by (rule read_sps)
      from sps_since_outdated [OF past this] show ?thesis
      proof
        assume stored: "sps (gs_world s) (sp_key sp) = Some sp"
        from raise_stored [OF _ u] stored w have "sps w' = sps ?w \<or> (\<exists>sp'. round_bumped sp sp' \<and> sps w' = (sps ?w)(sp_key sp \<mapsto> sp'))"
          by simp
        moreover have "\<exists>b. sps w' (sp_key sp) = Some b \<and> (b = sp \<or> sp_version sp < sp_version b)"
          using locked_cluster.spec_update_grows [OF locked_cluster_axioms, of "next_round sp" ?w u w' "sp_key sp" sp] u stored w by simp
        ultimately show ?thesis using t w w' stored by (metis fun_upd_same option.inject)
      next
        assume "outdated (sps (gs_world s)) sp_version (sp_key sp) sp"
        then have "sps w' = sps ?w" using locked_cluster.stale_raise [OF locked_cluster_axioms, of ?w sp u w'] u w by simp
        then show ?thesis using t w w' by simp
      qed
    qed
  qed (use t in simp)
qed

section \<open>Outdated reads\<close>

lemma stale_task_call:
  assumes "r \<in> nodes" and "\<And>w. fst (run_state (env_get_task C ns nm) w) = Inr t" and "to_do r t"
    and "outdated (tasks (gs_world s)) task_version (ns, nm) t"
    and "run_state (Task_Reconcile C r ns nm) s = (res, s')"
  shows "tasks (gs_world s') = tasks (gs_world s) \<and> sps (gs_world s') = sps (gs_world s) \<and> (\<forall>x. res \<noteq> Done (x, None))"
proof -
  note lc = locked_cluster_axioms
  have key: "task_key t = (ns, nm)" using read_task [OF assms(2)] by blast
  have sps': "sps (gs_world s') = sps (gs_world s)"
    by (rule cluster_base.task_call_sps [OF locked_cluster.axioms(1) [OF lc] assms(1,5)])
  show ?thesis
  proof (rule locked_cluster.task_call_read [OF lc assms(1,5)])
    fix w assume "\<And>t. fst (run_state (env_get_task C ns nm) w) = Inr t \<Longrightarrow> \<not> to_do r t"
    then show ?thesis using assms(2,3) by simp
  next
    fix w u t0 s2
    let ?u = "if sint (sptst_RetryCount (spt_Status u)) < 0
      then set_task_status (\<lambda>st. st\<lparr>sptst_RetryCount := 0\<rparr>) u else u"
    assume get: "fst (run_state (env_get_task C ns nm) w) = Inr u" and s2: "tasks (gs_world s2) = tasks (gs_world s)"
      and att: "run_state (attempt_task C r t0 ?u) s2 = (res, s')"
    have "u = t" using get assms(2) by simp
    then have "outdated (tasks (gs_world s2)) task_version (task_key ?u) ?u"
      using assms(4) s2 key by (simp add: outdated_def set_task_status_def)
    from locked_cluster.stale_attempt [OF lc assms(1) this att] s2 sps' show ?thesis by simp
  qed
qed

lemma stale_snapshotpod_call:
  assumes "\<And>w. fst (run_state (env_get_snapshotpod C ns nm) w) = Inr sp" and "0 < sint (sps_TriggerRound (sp_Spec sp))"
    and "outdated (sps (gs_world s)) sp_version (ns, nm) sp" and past: "tasks_since q (tasks (gs_world s))"
    and run: "run_state (Pod_Reconcile C ns nm) s = ((x, err), s')"
  shows "sps (gs_world s') = sps (gs_world s) \<and> tasks (gs_world s) \<subseteq>\<^sub>m tasks (gs_world s') \<and> err \<noteq> None"
proof -
  note lc = locked_cluster_axioms
  have store: "cluster_store C tasks sps"
    using lc unfolding locked_cluster_def cluster_base_def webhook_store_def by blast
  have key: "sp_key sp = (ns, nm)" using read_sp [OF assms(1)] by blast
  show ?thesis
  proof (rule cluster_store.pod_reconcile_read [OF store run])
    assume st: "still tasks sps s s'" and "\<And>y. (x, err) = (y, None) \<Longrightarrow> \<exists>w1 u. fst (run_state (env_get_snapshotpod C ns nm) w1) = Inr u \<and>
        sps w1 = sps (gs_world s) \<and> sint (sps_TriggerRound (sp_Spec u)) \<le> 0"
    then have "err \<noteq> None" using assms(1,2) by (cases err) auto
    then show ?thesis using st by (simp add: still_def)
  next
    fix u w1 s2 sp1 s3 v w4
    assume get: "fst (run_state (env_get_snapshotpod C ns nm) w1) = Inr u"
      and s2: "still tasks sps s s2" and body: "run_state (run_pod_recs C (pod_recs C) u) s2 = (sp1, s3)"
      and upd: "run_state (env_update_snapshotpod_status C sp1) (gs_world s3) = (v, w4)"
      and rest: "still tasks sps (s3\<lparr>gs_world := w4\<rparr>) s'"
      and res: "(x, err) = (case v of Inl err \<Rightarrow> (no_requeue, Some err)
        | Inr sp2 \<Rightarrow> (if unfinished sp2 then \<lparr>RequeueAfter = 15 * second_ns\<rparr> else no_requeue, None))"
    have "u = sp" using get assms(1) by simp
    then have "outdated (sps (gs_world s)) sp_version (sp_key u) u" using assms(3) key by simp
    from locked_cluster.stale_pod_call [OF lc this cached_truthful [OF past] s2 body upd rest] res
    show ?thesis by (auto simp: grown_def)
  qed
qed

end

section \<open>Steps\<close>

text \<open>Calls of clients that read from given stores: \<open>T\<close> says which tasks and \<open>P\<close> which \<^verbatim>\<open>SnapshotPod\<close> objects they may show.\<close>
inductive cached_call ::
  "('w \<Rightarrow> (string \<times> string \<rightharpoonup> SnapshotPodTask)) \<Rightarrow> ('w \<Rightarrow> (string \<times> string \<rightharpoonup> SnapshotPod)) \<Rightarrow>
    'w SnapshotPodTaskReconciler set \<Rightarrow> ((string \<times> string \<rightharpoonup> SnapshotPodTask) \<Rightarrow> bool) \<Rightarrow>
    ((string \<times> string \<rightharpoonup> SnapshotPod) \<Rightarrow> bool) \<Rightarrow> 'w gstate \<Rightarrow> 'w gstate \<Rightarrow> bool"
  for tasks sps and nodes and T P where
  task_call: "r \<in> nodes \<Longrightarrow> reads_from C tasks sps nodes q p \<Longrightarrow> T q \<Longrightarrow> run_state (Task_Reconcile C r ns nm) s = (res, s') \<Longrightarrow>
    cached_call tasks sps nodes T P s s'"
| pod_call: "reads_from C tasks sps nodes q p \<Longrightarrow> T q \<Longrightarrow> P p \<Longrightarrow> run_state (Pod_Reconcile C ns nm) s = (res', s') \<Longrightarrow>
    cached_call tasks sps nodes T P s s'"
| webhook_call: "reads_from C tasks sps nodes q p \<Longrightarrow> P p \<Longrightarrow> run_state (Webhook_Handle C srt rq) s = (rs, s') \<Longrightarrow>
    cached_call tasks sps nodes T P s s'"

lemma cached_call_mono:
  assumes "cached_call tasks sps nodes T P s s'" and "\<And>m. T m \<Longrightarrow> T' m" and "\<And>m. P m \<Longrightarrow> P' m"
  shows "cached_call tasks sps nodes T' P' s s'"
  using assms(1)
proof (cases rule: cached_call.cases)
  case (task_call r C q p ns nm res)
  then show ?thesis using assms(2) by (intro cached_call.task_call)
next
  case (pod_call C q p ns nm res)
  then show ?thesis using assms(2,3) by (intro cached_call.pod_call)
next
  case (webhook_call C q p srt rq rs)
  then show ?thesis using assms(3) by (intro cached_call.webhook_call)
qed

text \<open>The steps of the cluster: calls whose caches may be outdated, and users as in \<open>Cluster\<close>.\<close>
inductive cached_step ::
  "('w \<Rightarrow> (string \<times> string \<rightharpoonup> SnapshotPodTask)) \<Rightarrow> ('w \<Rightarrow> (string \<times> string \<rightharpoonup> SnapshotPod)) \<Rightarrow>
    'w SnapshotPodTaskReconciler set \<Rightarrow> 'w gstate \<Rightarrow> 'w gstate \<Rightarrow> bool"
  for tasks sps and nodes where
  call: "cached_call tasks sps nodes (\<lambda>m. tasks_since m (tasks (gs_world s))) (\<lambda>m. sps_since m (sps (gs_world s))) s s' \<Longrightarrow>
    cached_step tasks sps nodes s s'"
| user: "tasks (gs_world s') = tasks (gs_world s) \<Longrightarrow>
    (\<And>k p. sps (gs_world s') k = Some p \<Longrightarrow> snaps p = [] \<or> (\<exists>q. sps (gs_world s) k = Some q \<and> snaps p = snaps q)) \<Longrightarrow>
    cached_step tasks sps nodes s s'"

text \<open>Runs with their history: every cache is as some state of it, and what users write is newer than
  everything that was stored under its key.\<close>
inductive lagging_run ::
  "('w \<Rightarrow> (string \<times> string \<rightharpoonup> SnapshotPodTask)) \<Rightarrow> ('w \<Rightarrow> (string \<times> string \<rightharpoonup> SnapshotPod)) \<Rightarrow>
    'w SnapshotPodTaskReconciler set \<Rightarrow> 'w gstate \<Rightarrow> 'w gstate list \<Rightarrow> 'w gstate \<Rightarrow> bool"
  for tasks sps and nodes and s0 where
  run_start: "lagging_run tasks sps nodes s0 [s0] s0"
| run_call: "lagging_run tasks sps nodes s0 hist s \<Longrightarrow>
    cached_call tasks sps nodes (\<lambda>m. \<exists>h\<in>set hist. m = tasks (gs_world h)) (\<lambda>m. \<exists>h\<in>set hist. m = sps (gs_world h)) s s' \<Longrightarrow>
    lagging_run tasks sps nodes s0 (s' # hist) s'"
| run_user: "lagging_run tasks sps nodes s0 hist s \<Longrightarrow> tasks (gs_world s') = tasks (gs_world s) \<Longrightarrow>
    (\<And>k p. sps (gs_world s') k = Some p \<Longrightarrow> sps (gs_world s) k = Some p \<or>
      (snaps p = [] \<or> (\<exists>q. sps (gs_world s) k = Some q \<and> snaps p = snaps q)) \<and>
      (\<forall>h\<in>set hist. \<forall>q. sps (gs_world h) k = Some q \<longrightarrow> sp_version q < sp_version p)) \<Longrightarrow>
    lagging_run tasks sps nodes s0 (s' # hist) s'"

text \<open>One call keeps the invariant; tasks move on, and no other \<^verbatim>\<open>SnapshotPod\<close> appears than newer ones.\<close>
lemma call_kept:
  assumes call: "cached_call tasks sps nodes (\<lambda>m. tasks_since m (tasks (gs_world s))) (\<lambda>m. sps_since m (sps (gs_world s))) s s'"
    and ok: "cluster_ok tasks sps s"
  shows "cluster_ok tasks sps s' \<and> tasks_since (tasks (gs_world s)) (tasks (gs_world s')) \<and> sps_kept (sps (gs_world s)) (sps (gs_world s'))"
  using call
proof (cases rule: cached_call.cases)
  case (task_call r C q p ns nm res)
  have sps': "sps (gs_world s') = sps (gs_world s)"
    by (rule cluster_base.task_call_sps [OF locked_cluster.axioms(1) [OF reads_from.axioms(1) [OF task_call(2)]] task_call(1,4)])
  have wf: "\<forall>t. tasks (gs_world s) (ns, nm) = Some t \<longrightarrow> task_wf t" using ok unfolding cluster_ok_def by blast
  from reads_from.task_call_moves [OF task_call(2,1,4,3) wf] show ?thesis
  proof (elim disjE exE conjE)
    assume "tasks (gs_world s') = tasks (gs_world s)"
    then show ?thesis using sps' ok tasks_since_refl by (simp add: cluster_ok_def sps_kept_def)
  next
    fix t u
    assume t: "tasks (gs_world s) (ns, nm) = Some t" "tasks (gs_world s') = (tasks (gs_world s))((ns, nm) \<mapsto> u)"
      "moved_on t u" "task_wf u"
    have "cluster_ok tasks sps s'" by (rule cluster_ok_task_call [OF ok sps' t(1,2)]) (use t in \<open>simp_all add: moved_on_def\<close>)
    then show ?thesis using tasks_since_upd [of "tasks (gs_world s)", OF t(1,3)] t(2) sps' by (simp add: sps_kept_def)
  qed
next
  case (pod_call C q p ns nm res)
  note e = reads_from.pod_call_moves [OF pod_call(1,4,2,3)]
  have "cluster_ok tasks sps s'" by (rule cluster_ok_pod_call [OF ok, where key = "(ns, nm)"]) (use e in blast)+
  moreover have "sps_kept (sps (gs_world s)) (sps (gs_world s'))" unfolding sps_kept_def
  proof (intro allI impI)
    fix k b assume b: "sps (gs_world s') k = Some b"
    have "\<exists>a. sps (gs_world s) k = Some a" using e b by (metis fun_upd_apply)
    then show "\<exists>a. sps (gs_world s) k = Some a \<and> (b = a \<or> sp_version a < sp_version b)" using e b by (metis option.inject)
  qed
  ultimately show ?thesis using tasks_since_le e by blast
next
  case (webhook_call C q p srt rq rs)
  note e = reads_from.webhook_call_moves [OF webhook_call(1,3,2)]
  have same: "tasks (gs_world s') = tasks (gs_world s)" using e by blast
  have kept: "\<exists>a. sps (gs_world s) k = Some a \<and> (b = a \<or> sp_version a < sp_version b) \<and> snaps b = snaps a"
    if "sps (gs_world s') k = Some b" for k b
    using e that by (auto simp: round_bumped_def split: if_splits)
  have "cluster_ok tasks sps s'" by (rule cluster_ok_same_tasks [OF ok same]) (use kept in blast)
  moreover have "sps_kept (sps (gs_world s)) (sps (gs_world s'))" using kept unfolding sps_kept_def by blast
  ultimately show ?thesis using tasks_since_refl same by simp
qed

lemma cached_step_kept:
  assumes "cached_step tasks sps nodes s s'" and ok: "cluster_ok tasks sps s"
  shows "cluster_ok tasks sps s' \<and> tasks_since (tasks (gs_world s)) (tasks (gs_world s'))"
  using assms(1)
proof (cases rule: cached_step.cases)
  case call
  from call_kept [OF this ok] show ?thesis by blast
next
  case user
  have "cluster_ok tasks sps s'" by (rule cluster_ok_same_tasks [OF ok user])
  then show ?thesis using user(1) tasks_since_refl by simp
qed

lemma cached_steps_kept:
  assumes "(cached_step tasks sps nodes)\<^sup>*\<^sup>* s s'" and "cluster_ok tasks sps s"
  shows "cluster_ok tasks sps s' \<and> tasks_since (tasks (gs_world s)) (tasks (gs_world s'))"
  using assms(1)
proof (induction rule: rtranclp_induct)
  case base
  then show ?case using assms(2) tasks_since_refl by blast
next
  case (step s1 s2)
  from cached_step_kept [OF step(2)] step.IH show ?case using tasks_since_trans by blast
qed

section \<open>Caches that lag behind\<close>

text \<open>In a run with its history every earlier state is a past of the current one, so caches that show
  earlier states are among those of \<open>cached_step\<close>.\<close>
lemma lagging_kept:
  assumes "lagging_run tasks sps nodes s0 hist s" and ok0: "cluster_ok tasks sps s0"
  shows "(cached_step tasks sps nodes)\<^sup>*\<^sup>* s0 s \<and> (\<forall>h\<in>set hist. tasks_since (tasks (gs_world h)) (tasks (gs_world s)) \<and>
    sps_since (sps (gs_world h)) (sps (gs_world s)))"
  using assms(1)
proof (induction rule: lagging_run.induct)
  case run_start
  show ?case using tasks_since_refl sps_since_refl by simp
next
  case (run_call hist s s')
  have call: "cached_call tasks sps nodes (\<lambda>m. tasks_since m (tasks (gs_world s))) (\<lambda>m. sps_since m (sps (gs_world s))) s s'"
    by (rule cached_call_mono [OF run_call.hyps(2)]) (use run_call.IH in blast)+
  have steps: "(cached_step tasks sps nodes)\<^sup>*\<^sup>* s0 s'"
    using run_call.IH cached_step.call [OF call] by (meson rtranclp.rtrancl_into_rtrancl)
  have ok: "cluster_ok tasks sps s" using cached_steps_kept ok0 run_call.IH by blast
  note k = call_kept [OF call ok]
  have "tasks_since (tasks (gs_world h)) (tasks (gs_world s')) \<and> sps_since (sps (gs_world h)) (sps (gs_world s'))" if "h \<in> set hist" for h
    using tasks_since_trans [of "tasks (gs_world h)" "tasks (gs_world s)"]
      sps_since_step [of "sps (gs_world h)" "sps (gs_world s)"] k run_call.IH that by blast
  then show ?case using steps tasks_since_refl sps_since_refl by simp
next
  case (run_user hist s s')
  have "cached_step tasks sps nodes s s'" using run_user.hyps(2,3) by (intro cached_step.user) blast+
  then have steps: "(cached_step tasks sps nodes)\<^sup>*\<^sup>* s0 s'" using run_user.IH by (meson rtranclp.rtrancl_into_rtrancl)
  have "sps_since (sps (gs_world h)) (sps (gs_world s'))" if "h \<in> set hist" for h
    using run_user.hyps(3) run_user.IH that unfolding sps_since_def by metis
  then show ?case using steps run_user.IH run_user.hyps(2) tasks_since_refl sps_since_refl by simp
qed

section \<open>A client of this kind\<close>

text \<open>The client of an API server that answers reads as it did in the past. The world goes on as for the read itself, but the answer is that of the world \<open>past\<close>.\<close>
definition from_past :: "('w, 'a) state \<Rightarrow> 'w \<Rightarrow> ('w, 'a) state" where
  "from_past m past = do { _ \<leftarrow> m; State_Monad.return (fst (run_state m past)) }"

lemma run_from_past [simp]: "run_state (from_past m past) w = (fst (run_state m past), snd (run_state m w))"
  by (simp add: from_past_def split: prod.splits)

definition cached_get_task where "cached_get_task E q ns nm = from_past (env_get_task E ns nm) q"
definition cached_list_tasks where "cached_list_tasks E q sel = from_past (env_list_tasks E sel) q"
definition cached_get_snapshotpod where "cached_get_snapshotpod E p ns nm = from_past (env_get_snapshotpod E ns nm) p"
definition cached_list_snapshotpods where "cached_list_snapshotpods E p n = from_past (env_list_snapshotpods E n) p"

text \<open>\<open>p\<close> is the past of the cache of \<^verbatim>\<open>SnapshotPod\<close> objects and \<open>q\<close> that of the cache of tasks.\<close>
definition cached :: "'w env \<Rightarrow> 'w \<Rightarrow> 'w \<Rightarrow> 'w env" where
  "cached E p q = E\<lparr>
     env_get_task := cached_get_task E q,
     env_list_tasks := cached_list_tasks E q,
     env_get_snapshotpod := cached_get_snapshotpod E p,
     env_list_snapshotpods := cached_list_snapshotpods E p\<rparr>"

lemma cached_sel [simp]:
  "env_now (cached E p q) = env_now E" "env_uuid (cached E p q) = env_uuid E" "env_exec (cached E p q) = env_exec E"
  "env_mkdir_temp (cached E p q) = env_mkdir_temp E" "env_write_file (cached E p q) = env_write_file E"
  "env_remove_all (cached E p q) = env_remove_all E"
  "env_update_snapshotpod (cached E p q) = env_update_snapshotpod E"
  "env_update_snapshotpod_status (cached E p q) = env_update_snapshotpod_status E"
  "env_create_task (cached E p q) = env_create_task E" "env_update_task_status (cached E p q) = env_update_task_status E"
  "env_get_pod (cached E p q) = env_get_pod E" "env_list_pods (cached E p q) = env_list_pods E"
  "env_get_secret (cached E p q) = env_get_secret E" "env_map_order (cached E p q) = env_map_order E"
  "env_get_task (cached E p q) ns nm = from_past (env_get_task E ns nm) q"
  "env_list_tasks (cached E p q) sel = from_past (env_list_tasks E sel) q"
  "env_get_snapshotpod (cached E p q) ns nm = from_past (env_get_snapshotpod E ns nm) p"
  "env_list_snapshotpods (cached E p q) n = from_past (env_list_snapshotpods E n) p"
  by (simp_all add: cached_def cached_get_task_def cached_list_tasks_def cached_get_snapshotpod_def cached_list_snapshotpods_def)

text \<open>What calls write is not touched by the cache.\<close>
lemma cached_axioms:
  "os_frame (cached E p q) obs = os_frame E obs"
  "task_store_axioms (cached E p q) tasks = task_store_axioms E tasks"
  "cluster_store_axioms (cached E p q) tasks sps = cluster_store_axioms E tasks sps"
  "sp_store (cached E p q) sps = sp_store E sps"
  "webhook_store_axioms (cached E p q) tasks = webhook_store_axioms E tasks"
  "versioned_store_axioms (cached E p q) tasks sps = versioned_store_axioms E tasks sps"
  unfolding os_frame_def task_store_axioms_def cluster_store_axioms_def sp_store_def webhook_store_axioms_def
    versioned_store_axioms_def by (simp_all only: cached_sel run_from_past snd_conv)

text \<open>It satisfies the contract when the API server is truthful and locks optimistically.\<close>
lemma cached_reads_from:
  assumes "cluster E tasks sps nodes" and "versioned_store E tasks sps"
  shows "reads_from (cached E p q) tasks sps nodes (tasks q) (sps p)"
proof (rule reads_from.intro)
  have "locked_cluster E tasks sps nodes"
    using assms unfolding locked_cluster_def cluster_def by blast
  then show "locked_cluster (cached E p q) tasks sps nodes"
    unfolding locked_cluster_def cluster_base_def versioned_store_def webhook_store_def cluster_store_def task_store_def
    by (simp only: cached_axioms)
  have t: "task_api E tasks" and c: "cluster_api E tasks sps" and sp: "sp_api E sps"
    using assms(1) unfolding cluster_def webhook_api_def cluster_api_def by blast+
  have key: "tasks q k = Some u \<Longrightarrow> task_key u = k" for k u
    by (rule task_store.task_keyed [OF task_api.axioms(1) [OF t]])
  have sp_key: "sps p k = Some u \<Longrightarrow> sp_key u = k" for k u
    by (rule sp_store.sp_filed [OF sp_api.axioms(1) [OF sp]])
  show "reads_from_axioms (cached E p q) (tasks q) (sps p)"
  proof
    fix ns nm w u assume "fst (run_state (env_get_task (cached E p q) ns nm) w) = Inr u"
    then have "tasks q (ns, nm) = Some u" using task_api.get_task_ok [OF t, of ns nm q u] by simp
    then show "tasks q (ns, nm) = Some u \<and> task_key u = (ns, nm)" using key by blast
  next
    fix sel w ts u assume "fst (run_state (env_list_tasks (cached E p q) sel) w) = Inr ts" and "u \<in> set ts"
    then show "tasks q (task_key u) = Some u" using cluster_api.list_tasks_ok [OF c, of sel q ts u] by simp
  next
    fix ns nm w u assume "fst (run_state (env_get_snapshotpod (cached E p q) ns nm) w) = Inr u"
    then have "sps p (ns, nm) = Some u" using cluster_api.get_sp_ok [OF c, of ns nm p u] by simp
    then show "sps p (ns, nm) = Some u \<and> sp_key u = (ns, nm)" using sp_key by blast
  next
    fix n w items u assume "fst (run_state (env_list_snapshotpods (cached E p q) (Some n)) w) = Inr items" and "u \<in> set items"
    then have "fst (run_state (env_list_snapshotpods E (Some n)) p) = Inr items" and "u \<in> set items" by simp_all
    from sp_api.list_sps_ok [OF sp this(1), of u] this(2) show "sps p (sp_key u) = Some u" by blast
  qed
qed

end
