(* ===== verification/CachedTheorems.thy ===== *)
theory CachedTheorems
  imports CachedReads
begin

text \<open>
  The properties of the whole system for controllers that read from a cache, and what an outdated read
  can still do: the API server refuses its writes, but the container runtime has been called.
\<close>

section \<open>A cluster of one node with caches\<close>

interpretation sim_cached: reads_from "cached sim_env p q" sim_task_store sim_sp_store "{sim_reconciler}"
    "sim_task_store q" "sim_sp_store p" for p q
  by (rule cached_reads_from [OF sim_one.cluster_axioms sim_versions.versioned_store_axioms])

text \<open>Calls whose caches are as the world \<open>q\<close>.\<close>
definition cached_task_once :: "sim_world \<Rightarrow> sim_world gstate \<Rightarrow> sim_world gstate" where
  "cached_task_once q s = snd (run_state (Task_Reconcile (cached sim_env q q) sim_reconciler ''default'' ''snap-1-app'') s)"

definition cached_pod_once :: "sim_world \<Rightarrow> sim_world gstate \<Rightarrow> sim_world gstate" where
  "cached_pod_once q s = snd (run_state (Pod_Reconcile (cached sim_env q q) ''default'' ''snap'') s)"

abbreviation sim_cached_call where
  "sim_cached_call \<equiv> cached_call sim_task_store sim_sp_store {sim_reconciler}"

abbreviation sim_lagging_run where
  "sim_lagging_run \<equiv> lagging_run sim_task_store sim_sp_store {sim_reconciler}"

lemma cached_once_calls:
  "T (sim_task_store q) \<Longrightarrow> sim_cached_call T P s (cached_task_once q s)"
  "T (sim_task_store q) \<Longrightarrow> P (sim_sp_store q) \<Longrightarrow> sim_cached_call T P s (cached_pod_once q s)"
  unfolding cached_task_once_def cached_pod_once_def
  by (rule cached_call.task_call [OF _ sim_cached.reads_from_axioms [of q q] _ prod.collapse [symmetric]], simp_all)
    (rule cached_call.pod_call [OF sim_cached.reads_from_axioms [of q q] _ _ prod.collapse [symmetric]])

text \<open>Two calls with caches that still are as at the start.\<close>
lemma lagging_twice:
  "sim_lagging_run (sim_state q) [cached_task_once q (cached_task_once q (sim_state q)), cached_task_once q (sim_state q), sim_state q]
    (cached_task_once q (cached_task_once q (sim_state q)))"
proof -
  have "sim_lagging_run (sim_state q) [cached_task_once q (sim_state q), sim_state q] (cached_task_once q (sim_state q))"
    by (rule lagging_run.run_call [OF lagging_run.run_start]) (rule cached_once_calls, simp)
  then show ?thesis by (rule lagging_run.run_call) (rule cached_once_calls, simp)
qed

section \<open>Properties\<close>

text \<open>C6: what the controllers read may be outdated: take any run of calls of the controllers and the
  webhook, of users and of their history, in which every read is answered as in some earlier state of
  the cluster. Such a run is one of the steps \<open>cached_step\<close>, for which the properties below are
  stated; every object of an earlier state is either the stored one or has a smaller resource
  version, and a task of an earlier state has only moved on.\<close>
theorem lagging_runs_covered:
  assumes "cluster_ok tasks sps s0" and "lagging_run tasks sps nodes s0 hist s"
  shows "(cached_step tasks sps nodes)\<^sup>*\<^sup>* s0 s \<and> (\<forall>h\<in>set hist. tasks_since (tasks (gs_world h)) (tasks (gs_world s)) \<and>
    sps_since (sps (gs_world h)) (sps (gs_world s)))"
  by (rule lagging_kept [OF assms(2,1)])

text \<open>A task that is accepted, and a cluster with it.\<close>
definition accepted_task :: SnapshotPodTask where
  "accepted_task = set_task_conditions [(new_condition ''Accept'' 0)\<lparr>cond_Status := ConditionTrue\<rparr>] sample_task"

definition accepted_world :: sim_world where
  "accepted_world = sim_start\<lparr>sw_tasks := [((''default'', ''snap-1-app''), accepted_task)]\<rparr>"

lemma accepted_ok: "cluster_ok sim_task_store sim_sp_store (sim_state accepted_world)"
proof -
  have "task_wf accepted_task"
    by (simp add: accepted_task_def task_wf_def sample_task_def empty_task_status_def follows_def step_names_def new_condition_def)
  then show ?thesis
    by (auto simp: cluster_ok_def accepted_world_def sim_task_store_def sim_sp_store_def split: if_splits)
qed

text \<open>The task is worked on, and once more by a call that has read it as it was accepted.\<close>
definition worked :: "sim_world gstate" where
  "worked = cached_task_once accepted_world (sim_state accepted_world)"

definition worked_again :: "sim_world gstate" where
  "worked_again = cached_task_once accepted_world worked"

theorem lagging_runs_covered_witness:
  "tasks_since (sim_task_store accepted_world) (sim_task_store (gs_world worked_again))"
  using lagging_runs_covered [OF accepted_ok lagging_twice]
  by (simp add: worked_def worked_again_def)

text \<open>C2: success means committed and pushed, also when the controllers read from caches. Start from a
  cluster whose tasks are well-formed and whose snapshot histories are truthful and let the
  controllers, the webhook and the users act in any order, each call on what its caches show:
  whenever the status of a \<^verbatim>\<open>SnapshotPod\<close> reports a snapshot as successful, a task of the name it gives
  exists, is completed, and its conditions Accept, Commit and Push all hold.\<close>
theorem cached_success_means_pushed:
  assumes "cluster_ok tasks sps s" and "(cached_step tasks sps nodes)\<^sup>*\<^sup>* s s'"
    and "sps (gs_world s') k = Some p" and "e \<in> set (snaps p)" and "srs_Result e = ResultSuccess"
  shows "\<exists>k' t. tasks (gs_world s') k' = Some t \<and> om_Name (spt_meta t) = srs_TaskName e \<and>
    sptst_Phase (spt_Status t) = PhaseCompleted \<and>
    (\<forall>n\<in>{''Accept'', ''Commit'', ''Push''}. \<exists>c\<in>set (sptst_Conditions (spt_Status t)). cond_Type c = n \<and> cond_Status c = ConditionTrue)"
proof -
  have "cluster_ok tasks sps s'" using cached_steps_kept [OF assms(2,1)] by blast
  from cluster_ok_success [OF this assms(3-5)] show ?thesis .
qed

text \<open>The round of \<open>late_world\<close>, reconciled.\<close>
definition late_round :: "sim_world gstate" where
  "late_round = cached_pod_once late_world (sim_state late_world)"

lemma late_round_results: "results late_round = [(''snap-1-app'', ResultSuccess)]"
  by code_simp

lemma late_round_reached: "(cached_step sim_task_store sim_sp_store {sim_reconciler})\<^sup>*\<^sup>* (sim_state late_world) late_round"
  unfolding late_round_def
  by (rule r_into_rtranclp, rule cached_step.call, rule cached_once_calls) (simp_all add: tasks_since_refl sps_since_refl)

theorem cached_success_means_pushed_witness:
  "\<exists>k' t. sim_task_store (gs_world late_round) k' = Some t \<and> om_Name (spt_meta t) = ''snap-1-app'' \<and>
    sptst_Phase (spt_Status t) = PhaseCompleted \<and>
    (\<forall>n\<in>{''Accept'', ''Commit'', ''Push''}. \<exists>c\<in>set (sptst_Conditions (spt_Status t)). cond_Type c = n \<and> cond_Status c = ConditionTrue)"
proof -
  have "(''snap-1-app'', ResultSuccess) \<in> set (results late_round)" by (simp add: late_round_results)
  then obtain k p e where p: "sim_sp_store (gs_world late_round) k = Some p" and e: "e \<in> set (snaps p)"
      "srs_TaskName e = ''snap-1-app''" "srs_Result e = ResultSuccess"
    by (rule results_stored)
  from cached_success_means_pushed [OF late_world_ok late_round_reached p e(1,3)] e(2)
  show ?thesis by simp
qed

text \<open>The final phases of a task are final in the whole system, also when the controllers read from
  caches. However the controllers and users go on, a task that was completed or failed keeps its spec
  and identity, its phase, its retry count and the number of its conditions that hold.\<close>
theorem cached_final_task_stays_final:
  assumes "cluster_ok tasks sps s" and "(cached_step tasks sps nodes)\<^sup>*\<^sup>* s s'"
    and "tasks (gs_world s) k = Some t" and "terminal_phase (sptst_Phase (spt_Status t))"
  shows "\<exists>u. tasks (gs_world s') k = Some u \<and> same_task t u \<and> abs_task u = abs_task t"
proof -
  have "tasks_since (tasks (gs_world s)) (tasks (gs_world s'))" using cached_steps_kept [OF assms(2,1)] by blast
  then obtain u where "tasks (gs_world s') k = Some u" "moved_on t u" using assms(3) unfolding tasks_since_def by blast
  then show ?thesis using terminal_no_steps [of "abs_task t" "abs_task u"] assms(4)
    unfolding moved_on_def by (intro exI [of _ u]) simp
qed

text \<open>The reachable states: the accepted task is completed by the first call.\<close>
lemma worked_ok: "cluster_ok sim_task_store sim_sp_store worked \<and>
    tasks_since (sim_task_store accepted_world) (sim_task_store (gs_world worked))"
  unfolding worked_def
  using call_kept [OF cached_once_calls(1) accepted_ok, of accepted_world] tasks_since_refl by simp

lemma worked_phase: "map (\<lambda>(k, t). (k, task_key t, sptst_Phase (spt_Status t))) (sw_tasks (gs_world worked)) =
    [((''default'', ''snap-1-app''), (''default'', ''snap-1-app''), PhaseCompleted)]"
  by code_simp

lemma worked_stored:
  obtains t where "sim_task_store (gs_world worked) (''default'', ''snap-1-app'') = Some t"
    and "sptst_Phase (spt_Status t) = PhaseCompleted"
  using worked_phase by (fastforce simp: sim_task_store_def map_eq_Cons_conv)

lemma worked_steps: "(cached_step sim_task_store sim_sp_store {sim_reconciler})\<^sup>*\<^sup>* worked worked_again"
proof (rule r_into_rtranclp, rule cached_step.call)
  show "sim_cached_call (\<lambda>m. tasks_since m (sim_task_store (gs_world worked))) (\<lambda>m. sps_since m (sim_sp_store (gs_world worked)))
      worked worked_again"
    unfolding worked_again_def by (rule cached_once_calls(1)) (use worked_ok in blast)
qed

theorem cached_final_task_stays_final_witness:
  "\<exists>t u. sptst_Phase (spt_Status t) = PhaseCompleted \<and> sim_task_store (gs_world worked) (''default'', ''snap-1-app'') = Some t \<and>
    sim_task_store (gs_world worked_again) (''default'', ''snap-1-app'') = Some u \<and> same_task t u \<and> abs_task u = abs_task t"
proof -
  obtain t where t: "sim_task_store (gs_world worked) (''default'', ''snap-1-app'') = Some t"
      "sptst_Phase (spt_Status t) = PhaseCompleted" by (rule worked_stored)
  from cached_final_task_stays_final [OF conjunct1 [OF worked_ok] worked_steps t(1)] t
  show ?thesis by fastforce
qed

text \<open>Every snapshot history stays short, also when the controllers read from caches: in every state
  the controllers and users can reach, no \<^verbatim>\<open>SnapshotPod\<close> has more than 20 snapshot entries, and every
  stored task is well-formed.\<close>
theorem cached_reachable_invariant:
  assumes "cluster_ok tasks sps s" and "(cached_step tasks sps nodes)\<^sup>*\<^sup>* s s'"
  shows "(\<forall>k p. sps (gs_world s') k = Some p \<longrightarrow> length (snaps p) \<le> 20) \<and>
    (\<forall>k t. tasks (gs_world s') k = Some t \<longrightarrow> task_wf t)"
proof -
  have "cluster_ok tasks sps s'" using cached_steps_kept [OF assms(2,1)] by blast
  then show ?thesis unfolding cluster_ok_def snaps_ok_def by blast
qed

theorem cached_reachable_invariant_witness:
  "\<exists>k p. sim_sp_store (gs_world late_round) k = Some p \<and> snaps p \<noteq> [] \<and> length (snaps p) \<le> 20"
proof -
  have "(''snap-1-app'', ResultSuccess) \<in> set (results late_round)" by (simp add: late_round_results)
  then obtain k p e where "sim_sp_store (gs_world late_round) k = Some p" "e \<in> set (snaps p)" by (rule results_stored)
  with cached_reachable_invariant [OF late_world_ok late_round_reached] show ?thesis by fastforce
qed

text \<open>C7: a call of a task controller that has read an outdated task stores nothing. If the cache shows a
  task of the node that is not final, and the stored task has another resource version or is gone, then no
  stored object changes, and the call reports an error (so that it is tried again) or panics; it never
  reports success.\<close>
theorem stale_call_refused:
  assumes "reads_from C tasks sps nodes q p" and "r \<in> nodes"
    and "\<And>w. fst (run_state (env_get_task C ns nm) w) = Inr t" and "to_do r t"
    and "outdated (tasks (gs_world s)) task_version (ns, nm) t"
    and "run_state (Task_Reconcile C r ns nm) s = (res, s')"
  shows "tasks (gs_world s') = tasks (gs_world s) \<and> sps (gs_world s') = sps (gs_world s) \<and>
    ((\<exists>x err. res = Done (x, Some err)) \<or> (\<exists>m. res = Panicked m))"
proof -
  have "(\<exists>x err. res = Done (x, Some err)) \<or> (\<exists>x. res = Done (x, None)) \<or> (\<exists>m. res = Panicked m)"
    by (metis outcome.exhaust option.exhaust prod.exhaust)
  then show ?thesis using reads_from.stale_task_call [OF assms] by blast
qed

lemma worked_version: "list_all (\<lambda>(k, t). task_version t \<noteq> task_version accepted_task) (sw_tasks (gs_world worked))"
  by code_simp

theorem stale_call_refused_witness:
  "sim_task_store (gs_world worked_again) = sim_task_store (gs_world worked) \<and>
   sim_sp_store (gs_world worked_again) = sim_sp_store (gs_world worked)"
proof -
  have "fst (run_state (env_get_task sim_env ''default'' ''snap-1-app'') accepted_world) = Inr accepted_task" by code_simp
  then have read: "\<And>w. fst (run_state (env_get_task (cached sim_env accepted_world accepted_world) ''default'' ''snap-1-app'') w) = Inr accepted_task"
    by simp
  have todo: "to_do sim_reconciler accepted_task" by code_simp
  have old: "outdated (sim_task_store (gs_world worked)) task_version (''default'', ''snap-1-app'') accepted_task"
    using worked_version by (auto simp: outdated_def sim_task_store_def list_all_iff split: option.splits if_splits dest!: map_of_SomeD)
  from stale_call_refused [OF sim_cached.reads_from_axioms [of accepted_world accepted_world] _ read todo old prod.collapse [symmetric]]
  show ?thesis unfolding worked_again_def cached_task_once_def by blast
qed

text \<open>A call on an outdated \<^verbatim>\<open>SnapshotPod\<close> stores no status. If the cache shows an object with a round to
  take whose stored version is another one or gone, then no stored \<^verbatim>\<open>SnapshotPod\<close> changes, no task is
  changed or removed, and the call reports an error.\<close>
theorem stale_pod_call_refused:
  assumes "reads_from C tasks sps nodes q p" and "\<And>w. fst (run_state (env_get_snapshotpod C ns nm) w) = Inr sp"
    and "0 < sint (sps_TriggerRound (sp_Spec sp))" and "outdated (sps (gs_world s)) sp_version (ns, nm) sp"
    and "tasks_since q (tasks (gs_world s))"
    and "run_state (Pod_Reconcile C ns nm) s = ((x, err), s')"
  shows "sps (gs_world s') = sps (gs_world s) \<and> tasks (gs_world s) \<subseteq>\<^sub>m tasks (gs_world s') \<and> err \<noteq> None"
  by (rule reads_from.stale_snapshotpod_call [OF assms])

lemma late_version: "list_all (\<lambda>(k, p). sp_version p \<noteq> sp_version late_sp) (sw_sps (gs_world late_round))"
  by code_simp

theorem stale_pod_call_refused_witness:
  "sim_sp_store (gs_world (cached_pod_once late_world late_round)) = sim_sp_store (gs_world late_round)"
proof -
  have "fst (run_state (env_get_snapshotpod sim_env ''default'' ''snap'') late_world) = Inr late_sp" by code_simp
  then have read: "\<And>w. fst (run_state (env_get_snapshotpod (cached sim_env late_world late_world) ''default'' ''snap'') w) = Inr late_sp"
    by simp
  have trig: "0 < sint (sps_TriggerRound (sp_Spec late_sp))" by code_simp
  have old: "outdated (sim_sp_store (gs_world late_round)) sp_version (''default'', ''snap'') late_sp"
    using late_version by (auto simp: outdated_def sim_sp_store_def list_all_iff split: option.splits if_splits dest!: map_of_SomeD)
  have past: "tasks_since (sim_task_store late_world) (sim_task_store (gs_world late_round))"
    using cached_steps_kept [OF late_round_reached late_world_ok] by simp
  obtain x err s' where run: "run_state (Pod_Reconcile (cached sim_env late_world late_world) ''default'' ''snap'') late_round = ((x, err), s')"
    by (metis prod.collapse)
  from stale_pod_call_refused [OF sim_cached.reads_from_axioms read trig old past run] run
  show ?thesis by (simp add: cached_pod_once_def)
qed

text \<open>The programs a state has seen run.\<close>
definition programs :: "sim_world gstate \<Rightarrow> string list list" where
  "programs s = map cmd_Args (sw_cmds (gs_world s))"

text \<open>What is refused has been done, in a run of the simulated world: the container of a completed task is committed once more when a
  call reads the task as it was when it was accepted: the status update is refused, but the image of
  the snapshot has been replaced on the node.\<close>
lemma stale_call_commits_again:
  "programs worked_again = programs worked @ [[''--debug'', ''commit'', ''--pause=true'', ''--message'', ''m'', ''abc'', ''reg.io/nginx:1-snapped'']] \<and>
   map (\<lambda>(k, t). sptst_Phase (spt_Status t)) (sw_tasks (gs_world worked)) = [PhaseCompleted] \<and>
   sw_tasks (gs_world worked_again) = sw_tasks (gs_world worked)"
  by code_simp

end
