(* ===== verification/Interleaving.thy ===== *)
theory Interleaving
  imports CachedTheorems
begin

text \<open>
  Calls that run at the same time. Between any two operations of a call on the API server others may
  write: other calls of the controllers, other replicas, users. The client \<open>shared\<close> lets them do so before each
  operation, and answers reads as in some earlier state. What others may do, and what a call does in its
  own writes, is one relation, \<open>legal\<close>: the theorems assume it of the others and prove it of the call, so
  it holds of any number of calls that run together.
\<close>

section \<open>What one write may do\<close>

text \<open>Every stored task is well-formed, and every stored \<^verbatim>\<open>SnapshotPod\<close> has a bounded and truthful history.\<close>
definition sound ::
  "('w \<Rightarrow> (string \<times> string \<rightharpoonup> SnapshotPodTask)) \<Rightarrow> ('w \<Rightarrow> (string \<times> string \<rightharpoonup> SnapshotPod)) \<Rightarrow> 'w \<Rightarrow> bool" where
  "sound tasks sps w \<longleftrightarrow> (\<forall>k t. tasks w k = Some t \<longrightarrow> task_wf t) \<and>
     (\<forall>k p. sps w k = Some p \<longrightarrow> snaps_ok (tasks w) (snaps p))"

lemma cluster_ok_sound: "cluster_ok tasks sps s \<longleftrightarrow> sound tasks sps (gs_world s)"
  by (simp add: cluster_ok_def sound_def)

text \<open>A write of the task controller for the task \<open>k\<close>: refused, or the task moves on.\<close>
definition task_writes ::
  "('w \<Rightarrow> (string \<times> string \<rightharpoonup> SnapshotPodTask)) \<Rightarrow> ('w \<Rightarrow> (string \<times> string \<rightharpoonup> SnapshotPod)) \<Rightarrow>
    string \<times> string \<Rightarrow> 'w \<Rightarrow> 'w \<Rightarrow> bool" where
  "task_writes tasks sps k w w' \<longleftrightarrow> sps w' = sps w \<and>
     (tasks w' = tasks w \<or> (\<exists>t u. tasks w k = Some t \<and> tasks w' = (tasks w)(k \<mapsto> u) \<and> moved_on t u \<and> task_wf u))"

text \<open>A write of the \<^verbatim>\<open>SnapshotPod\<close> controller for the object \<open>k\<close>: refused, a new task, or a status whose
  history is bounded and truthful.\<close>
definition pod_writes ::
  "('w \<Rightarrow> (string \<times> string \<rightharpoonup> SnapshotPodTask)) \<Rightarrow> ('w \<Rightarrow> (string \<times> string \<rightharpoonup> SnapshotPod)) \<Rightarrow>
    string \<times> string \<Rightarrow> 'w \<Rightarrow> 'w \<Rightarrow> bool" where
  "pod_writes tasks sps k w w' \<longleftrightarrow>
     sps w' = sps w \<and> (tasks w' = tasks w \<or>
       (\<exists>j u. tasks w j = None \<and> tasks w' = (tasks w)(j \<mapsto> u) \<and> spt_Status u = empty_task_status)) \<or>
     tasks w' = tasks w \<and> (\<exists>a b. sps w k = Some a \<and> sps w' = (sps w)(k \<mapsto> b) \<and> sp_Spec b = sp_Spec a \<and>
       (b = a \<or> sp_version a < sp_version b) \<and> snaps_ok (tasks w) (snaps b))"

text \<open>A write of the webhook: refused, or one more round for one object.\<close>
definition webhook_writes ::
  "('w \<Rightarrow> (string \<times> string \<rightharpoonup> SnapshotPodTask)) \<Rightarrow> ('w \<Rightarrow> (string \<times> string \<rightharpoonup> SnapshotPod)) \<Rightarrow> 'w \<Rightarrow> 'w \<Rightarrow> bool" where
  "webhook_writes tasks sps w w' \<longleftrightarrow> tasks w' = tasks w \<and>
     (sps w' = sps w \<or> (\<exists>a b. sps w (sp_key a) = Some a \<and> round_bumped a b \<and>
       sps w' = (sps w)(sp_key a \<mapsto> b) \<and> (b = a \<or> sp_version a < sp_version b)))"

text \<open>A write of a user: any \<^verbatim>\<open>SnapshotPod\<close> objects may be added or edited, but not their histories.\<close>
definition user_writes ::
  "('w \<Rightarrow> (string \<times> string \<rightharpoonup> SnapshotPodTask)) \<Rightarrow> ('w \<Rightarrow> (string \<times> string \<rightharpoonup> SnapshotPod)) \<Rightarrow> 'w \<Rightarrow> 'w \<Rightarrow> bool" where
  "user_writes tasks sps w w' \<longleftrightarrow> tasks w' = tasks w \<and>
     (\<forall>k a. sps w k = Some a \<longrightarrow> (\<exists>b. sps w' k = Some b \<and> (b = a \<or> sp_version a < sp_version b))) \<and>
     (\<forall>k b. sps w' k = Some b \<longrightarrow> snaps b = [] \<or> (\<exists>a. sps w k = Some a \<and> snaps b = snaps a))"

inductive legal ::
  "('w \<Rightarrow> (string \<times> string \<rightharpoonup> SnapshotPodTask)) \<Rightarrow> ('w \<Rightarrow> (string \<times> string \<rightharpoonup> SnapshotPod)) \<Rightarrow> 'w \<Rightarrow> 'w \<Rightarrow> bool"
  for tasks sps w w' where
  task: "task_writes tasks sps k w w' \<Longrightarrow> legal tasks sps w w'"
| pod: "pod_writes tasks sps k w w' \<Longrightarrow> legal tasks sps w w'"
| webhook: "webhook_writes tasks sps w w' \<Longrightarrow> legal tasks sps w w'"
| user: "user_writes tasks sps w w' \<Longrightarrow> legal tasks sps w w'"

text \<open>What any number of legal writes keeps.\<close>
definition onward ::
  "('w \<Rightarrow> (string \<times> string \<rightharpoonup> SnapshotPodTask)) \<Rightarrow> ('w \<Rightarrow> (string \<times> string \<rightharpoonup> SnapshotPod)) \<Rightarrow> 'w \<Rightarrow> 'w \<Rightarrow> bool" where
  "onward tasks sps w w' \<longleftrightarrow> tasks_since (tasks w) (tasks w') \<and>
     (\<forall>k a. sps w k = Some a \<longrightarrow> (\<exists>b. sps w' k = Some b \<and> (b = a \<or> sp_version a < sp_version b))) \<and>
     (sound tasks sps w \<longrightarrow> sound tasks sps w')"

lemma onward_refl: "onward tasks sps w w"
  by (auto simp: onward_def tasks_since_refl)

lemma onward_trans:
  assumes "onward tasks sps u v" and "onward tasks sps v w"
  shows "onward tasks sps u w"
proof -
  have "\<exists>c. sps w k = Some c \<and> (c = a \<or> sp_version a < sp_version c)" if a: "sps u k = Some a" for k a
  proof -
    obtain b where b: "sps v k = Some b" "b = a \<or> sp_version a < sp_version b" using assms(1) a unfolding onward_def by blast
    obtain c where "sps w k = Some c" "c = b \<or> sp_version b < sp_version c" using assms(2) b(1) unfolding onward_def by blast
    then show ?thesis using b(2) by auto
  qed
  then show ?thesis using assms tasks_since_trans unfolding onward_def by blast
qed

text \<open>What one write does to the invariant is what a call of \<open>Cluster\<close> does.\<close>
lemma sound_state: "sound tasks sps w = cluster_ok tasks sps \<lparr>gs_world = w, gs_env = Map.empty, gs_metrics = []\<rparr>"
  by (simp add: cluster_ok_sound)

lemma task_writes_onward:
  assumes "task_writes tasks sps k w w'"
  shows "onward tasks sps w w'"
proof -
  consider "tasks w' = tasks w" "sps w' = sps w"
    | t u where "tasks w k = Some t" "tasks w' = (tasks w)(k \<mapsto> u)" "moved_on t u" "task_wf u" "sps w' = sps w"
    using assms unfolding task_writes_def by blast
  then show ?thesis
  proof cases
    case 1
    then show ?thesis by (auto simp: onward_def sound_def tasks_since_refl)
  next
    case (2 t u)
    have "sound tasks sps w'" if "sound tasks sps w"
      using that cluster_ok_task_call [where s = "\<lparr>gs_world = w, gs_env = Map.empty, gs_metrics = []\<rparr>" and k = k and t = t
        and s' = "\<lparr>gs_world = w', gs_env = Map.empty, gs_metrics = []\<rparr>" and u = u] 2
      by (simp add: sound_state moved_on_def)
    then show ?thesis using 2 tasks_since_upd [of "tasks w", OF 2(1,3)] by (auto simp: onward_def)
  qed
qed

lemma pod_writes_onward:
  assumes "pod_writes tasks sps k w w'"
  shows "onward tasks sps w w'"
proof -
  consider (still) "tasks w' = tasks w" "sps w' = sps w"
    | (new) j u where "tasks w j = None" "tasks w' = (tasks w)(j \<mapsto> u)" "spt_Status u = empty_task_status" "sps w' = sps w"
    | (status) a b where "tasks w' = tasks w" "sps w k = Some a" "sps w' = (sps w)(k \<mapsto> b)"
        "b = a \<or> sp_version a < sp_version b" "snaps_ok (tasks w) (snaps b)"
    using assms unfolding pod_writes_def by blast
  then show ?thesis
  proof cases
    case still
    then show ?thesis by (auto simp: onward_def sound_def tasks_since_refl)
  next
    case new
    have le: "tasks w \<subseteq>\<^sub>m tasks w'" using new by (auto simp: map_le_def)
    have "sound tasks sps w'" if "sound tasks sps w"
      using that fresh_task_wf [OF new(3)] new(2,4) snaps_ok_mono [OF le] by (auto simp: sound_def)
    then show ?thesis using new(4) tasks_since_le [OF le] by (auto simp: onward_def)
  next
    case status
    then show ?thesis by (auto simp: onward_def sound_def tasks_since_refl)
  qed
qed

lemma user_writes_onward:
  assumes "user_writes tasks sps w w'"
  shows "onward tasks sps w w'"
proof -
  have "sound tasks sps w'" if ok: "sound tasks sps w"
    unfolding sound_def
  proof (intro conjI allI impI)
    fix k t assume t: "tasks w' k = Some t"
    have "tasks w' = tasks w" using assms by (simp add: user_writes_def)
    with t show "task_wf t" using ok unfolding sound_def by metis
  next
    fix k b assume "sps w' k = Some b"
    then have "snaps b = [] \<or> (\<exists>a. sps w k = Some a \<and> snaps b = snaps a)" using assms unfolding user_writes_def by blast
    then have "snaps_ok (tasks w) (snaps b)"
    proof
      assume "\<exists>a. sps w k = Some a \<and> snaps b = snaps a"
      then show ?thesis using ok unfolding sound_def by metis
    qed (simp add: snaps_ok_def)
    then show "snaps_ok (tasks w') (snaps b)" using assms by (simp add: user_writes_def)
  qed
  then show ?thesis using assms unfolding onward_def user_writes_def by (simp add: tasks_since_refl)
qed

lemma webhook_writes_user: "webhook_writes tasks sps w w' \<Longrightarrow> user_writes tasks sps w w'"
  by (auto simp: webhook_writes_def user_writes_def round_bumped_def split: if_splits)

lemma legal_onward: "legal tasks sps w w' \<Longrightarrow> onward tasks sps w w'"
  by (erule legal.cases)
    (auto dest: task_writes_onward pod_writes_onward webhook_writes_user user_writes_onward)

lemma legal_run_onward: "(legal tasks sps)\<^sup>*\<^sup>* w w' \<Longrightarrow> onward tasks sps w w'"
  by (induction rule: rtranclp_induct) (auto intro: onward_refl onward_trans dest: legal_onward)

section \<open>Turns\<close>

text \<open>An execution of one call among others: writes of its own, and turns of the others.\<close>
inductive turn :: "('w \<Rightarrow> 'w \<Rightarrow> bool) \<Rightarrow> ('w \<Rightarrow> 'w) \<Rightarrow> 'w \<Rightarrow> 'w \<Rightarrow> bool" for own others w where
  mine: "own w w' \<Longrightarrow> turn own others w w'"
| theirs: "turn own others w (others w)"

text \<open>From a state that is \<open>ok\<close>, the call takes such an execution, to a state that is \<open>ok\<close>.\<close>
definition takes_turns ::
  "('w \<Rightarrow> bool) \<Rightarrow> ('w \<Rightarrow> 'w \<Rightarrow> bool) \<Rightarrow> ('w \<Rightarrow> 'w) \<Rightarrow> 'w gstate \<Rightarrow> 'w gstate \<Rightarrow> bool" where
  "takes_turns ok own others s s' \<longleftrightarrow>
     (ok (gs_world s) \<longrightarrow> (turn own others)\<^sup>*\<^sup>* (gs_world s) (gs_world s') \<and> ok (gs_world s'))"

interpretation turns_frame: frame_rel "takes_turns ok own others" for ok :: "'w \<Rightarrow> bool" and own and others
  by unfold_locales (auto simp: takes_turns_def)

section \<open>A client among others\<close>

definition after :: "('w \<Rightarrow> 'w) \<Rightarrow> ('w, 'a) state \<Rightarrow> 'w \<Rightarrow> 'a \<times> 'w" where
  "after others m w = run_state m (others w)"

definition among :: "('w \<Rightarrow> 'w) \<Rightarrow> ('w, 'a) state \<Rightarrow> ('w, 'a) state" where
  "among others m = State (after others m)"

lemma run_among [simp]: "run_state (among others m) w = run_state m (others w)"
  by (simp add: among_def after_def)

text \<open>A read answers as in the world \<open>past w\<close>.\<close>
definition answer :: "('w \<Rightarrow> 'w) \<Rightarrow> ('w, 'a) state \<Rightarrow> 'w \<Rightarrow> 'a \<times> 'w" where
  "answer past m w = (fst (run_state m (past w)), snd (run_state m w))"

definition reading :: "('w \<Rightarrow> 'w) \<Rightarrow> ('w, 'a) state \<Rightarrow> ('w, 'a) state" where
  "reading past m = State (answer past m)"

lemma run_reading [simp]: "run_state (reading past m) w = (fst (run_state m (past w)), snd (run_state m w))"
  by (simp add: reading_def answer_def)

definition shared_get_task where "shared_get_task E past others ns nm = among others (reading past (env_get_task E ns nm))"
definition shared_list_tasks where "shared_list_tasks E past others sel = among others (reading past (env_list_tasks E sel))"
definition shared_get_snapshotpod where
  "shared_get_snapshotpod E past others ns nm = among others (reading past (env_get_snapshotpod E ns nm))"
definition shared_list_snapshotpods where
  "shared_list_snapshotpods E past others n = among others (reading past (env_list_snapshotpods E n))"
definition shared_create_task where "shared_create_task E others t = among others (env_create_task E t)"
definition shared_update_task where "shared_update_task E others t = among others (env_update_task_status E t)"
definition shared_update_snapshotpod where "shared_update_snapshotpod E others p = among others (env_update_snapshotpod E p)"
definition shared_update_status where "shared_update_status E others p = among others (env_update_snapshotpod_status E p)"

text \<open>The client of a process that does not have the API server for itself.\<close>
definition shared :: "'w env \<Rightarrow> ('w \<Rightarrow> 'w) \<Rightarrow> ('w \<Rightarrow> 'w) \<Rightarrow> 'w env" where
  "shared E past others = E\<lparr>
     env_get_task := shared_get_task E past others,
     env_list_tasks := shared_list_tasks E past others,
     env_get_snapshotpod := shared_get_snapshotpod E past others,
     env_list_snapshotpods := shared_list_snapshotpods E past others,
     env_create_task := shared_create_task E others,
     env_update_task_status := shared_update_task E others,
     env_update_snapshotpod := shared_update_snapshotpod E others,
     env_update_snapshotpod_status := shared_update_status E others\<rparr>"

lemma shared_sel [simp]:
  "env_now (shared E past others) = env_now E" "env_uuid (shared E past others) = env_uuid E"
  "env_exec (shared E past others) = env_exec E" "env_mkdir_temp (shared E past others) = env_mkdir_temp E"
  "env_write_file (shared E past others) = env_write_file E" "env_remove_all (shared E past others) = env_remove_all E"
  "env_get_pod (shared E past others) = env_get_pod E" "env_list_pods (shared E past others) = env_list_pods E"
  "env_get_secret (shared E past others) = env_get_secret E" "env_map_order (shared E past others) = env_map_order E"
  "env_parse_reference (shared E past others) = env_parse_reference E" "env_with_tag (shared E past others) = env_with_tag E"
  "env_ref_string (shared E past others) = env_ref_string E" "env_float_ns (shared E past others) = env_float_ns E"
  "env_get_task (shared E past others) ns nm = among others (reading past (env_get_task E ns nm))"
  "env_list_tasks (shared E past others) sel = among others (reading past (env_list_tasks E sel))"
  "env_get_snapshotpod (shared E past others) ns nm = among others (reading past (env_get_snapshotpod E ns nm))"
  "env_list_snapshotpods (shared E past others) n = among others (reading past (env_list_snapshotpods E n))"
  "env_create_task (shared E past others) t = among others (env_create_task E t)"
  "env_update_task_status (shared E past others) t = among others (env_update_task_status E t)"
  "env_update_snapshotpod (shared E past others) p = among others (env_update_snapshotpod E p)"
  "env_update_snapshotpod_status (shared E past others) p = among others (env_update_snapshotpod_status E p)"
  by (simp_all add: shared_def shared_get_task_def shared_list_tasks_def shared_get_snapshotpod_def shared_list_snapshotpods_def
    shared_create_task_def shared_update_task_def shared_update_snapshotpod_def shared_update_status_def)

text \<open>Without others, and with reads that are up to date, it is the client itself.\<close>
lemma among_alone: "among id m = m" "reading id m = m"
  by (cases m, simp add: among_def reading_def after_def [abs_def] answer_def [abs_def])+

lemma shared_alone: "shared E id id = E"
  unfolding shared_def shared_get_task_def shared_list_tasks_def shared_get_snapshotpod_def shared_list_snapshotpods_def
    shared_create_task_def shared_update_task_def shared_update_snapshotpod_def shared_update_status_def among_alone
  by simp

text \<open>The steps of a task do not touch the objects others write.\<close>
lemma shared_now [simp]: "time_now (shared E past others) = time_now E"
  by (simp add: time_now_def)

lemma shared_conditions [simp]:
  "ensure_condition (shared E past others) n cs = ensure_condition E n cs"
  "succeed_condition (shared E past others) c = succeed_condition E c"
  unfolding ensure_condition_def succeed_condition_def shared_now by (rule refl)+

lemma shared_auth: "getImageAuthWithSecret (shared E past others) = getImageAuthWithSecret E"
  by (intro ext) (simp only: getImageAuthWithSecret_def shared_sel)

lemma shared_recs [simp]: "task_recs (shared E past others) r = task_recs E r"
proof -
  have "reconcileCommit (shared E past others) r = reconcileCommit E r"
    by (rule ext) (simp only: reconcileCommit_def shared_sel)
  moreover have "reconcilePushImage (shared E past others) r = reconcilePushImage E r"
    unfolding reconcilePushImage_def pull_origin_def push_exit_def registry_of_def shared_now shared_auth shared_sel by (rule refl)
  ultimately show ?thesis by (simp add: task_recs_def)
qed

lemma shared_settle [simp]: "settle_phase (shared E past others) t err = settle_phase E t err"
proof -
  have "some_stale (shared E past others) err cs = some_stale E err cs" for cs
    by (induction cs) (simp_all only: some_stale.simps shared_now)
  then show ?thesis unfolding settle_phase_def shared_now by (simp only:)
qed

locale shared_cluster = locked_cluster E tasks sps nodes + cluster E tasks sps nodes
  for E :: "'w env" and tasks :: "'w \<Rightarrow> (string \<times> string \<rightharpoonup> SnapshotPodTask)"
    and sps :: "'w \<Rightarrow> (string \<times> string \<rightharpoonup> SnapshotPod)"
    and nodes :: "'w SnapshotPodTaskReconciler set" +
  fixes past others :: "'w \<Rightarrow> 'w"
  assumes others_legal: "sound tasks sps w \<Longrightarrow> (legal tasks sps)\<^sup>*\<^sup>* w (others w)"
    and past_earlier: "sound tasks sps w \<Longrightarrow> (legal tasks sps)\<^sup>*\<^sup>* (past w) w"
begin

lemma others_onward: "sound tasks sps w \<Longrightarrow> onward tasks sps w (others w)"
  by (rule legal_run_onward) (rule others_legal)

text \<open>A read shows the objects of a state from which legal writes have led to the present one.\<close>
lemma read_past:
  assumes run: "run_state (among others (reading past m)) w0 = (x, w)" and ok: "sound tasks sps w0"
    and quiet: "\<And>v. tasks (snd (run_state m v)) = tasks v" "\<And>v. sps (snd (run_state m v)) = sps v"
  obtains v where "x = fst (run_state m v)" and "onward tasks sps v w" and "sound tasks sps w"
proof -
  let ?v = "others w0"
  have v: "sound tasks sps ?v" using others_onward [OF ok] ok by (simp add: onward_def)
  have w: "tasks w = tasks ?v" "sps w = sps ?v" using run quiet by auto
  have "onward tasks sps (past ?v) w" "sound tasks sps w"
    using legal_run_onward [OF past_earlier [OF v]] v w by (simp_all add: onward_def sound_def)
  then show thesis using that run by auto
qed

end

text \<open>With the writes of one kind of call as its own.\<close>
locale shared_calls = shared_cluster E tasks sps nodes past others
  for E :: "'w env" and tasks :: "'w \<Rightarrow> (string \<times> string \<rightharpoonup> SnapshotPodTask)"
    and sps :: "'w \<Rightarrow> (string \<times> string \<rightharpoonup> SnapshotPod)"
    and nodes :: "'w SnapshotPodTaskReconciler set" and past others :: "'w \<Rightarrow> 'w" +
  fixes own :: "'w \<Rightarrow> 'w \<Rightarrow> bool"
  assumes own_refused: "tasks w' = tasks w \<Longrightarrow> sps w' = sps w \<Longrightarrow> own w w'"
    and own_legal: "own w w' \<Longrightarrow> legal tasks sps w w'"
begin

lemma own_turn:
  assumes "own (gs_world s) (gs_world s')"
  shows "takes_turns (sound tasks sps) own others s s'"
  using legal_onward [OF own_legal [OF assms]] r_into_rtranclp [of "turn own others", OF turn.mine [of own, OF assms]]
  by (simp add: takes_turns_def onward_def)

lemma quiet_turn: "still tasks sps s s' \<Longrightarrow> takes_turns (sound tasks sps) own others s s'"
  by (intro own_turn own_refused) (simp_all add: still_def)

lemma keeps_quiet: "keeps (still tasks sps) m \<Longrightarrow> keeps (takes_turns (sound tasks sps) own others) m"
  by (simp add: keeps_def quiet_turn)

lemma others_turn: "takes_turns (sound tasks sps) own others s (s\<lparr>gs_world := others (gs_world s)\<rparr>)"
  unfolding takes_turns_def using others_onward onward_def by (fastforce intro: turn.theirs)

lemma turns_onward:
  assumes "takes_turns (sound tasks sps) own others s s'" and ok: "sound tasks sps (gs_world s)"
  shows "onward tasks sps (gs_world s) (gs_world s')"
proof -
  have "(turn own others)\<^sup>*\<^sup>* (gs_world s) (gs_world s')" using assms by (simp add: takes_turns_def)
  then show ?thesis
  proof (induction rule: rtranclp_induct)
    case base
    show ?case by (rule onward_refl)
  next
    case (step v w)
    have "sound tasks sps v" using step.IH ok by (simp add: onward_def)
    with step.hyps(2) have "onward tasks sps v w"
      by cases (auto intro: legal_onward own_legal others_onward)
    with step.IH show ?case by (rule onward_trans)
  qed
qed

text \<open>An operation on the API server: a turn of the others, then the operation.\<close>
lemma among_turn:
  assumes "run_state (among others m) (gs_world s) = (x, w)" and "own (others (gs_world s)) w"
  shows "takes_turns (sound tasks sps) own others s (s\<lparr>gs_world := w\<rparr>)"
proof -
  have "takes_turns (sound tasks sps) own others (s\<lparr>gs_world := others (gs_world s)\<rparr>) (s\<lparr>gs_world := w\<rparr>)"
    by (rule own_turn) (simp add: assms(2))
  with others_turn show ?thesis by (rule turns_frame.trans_R)
qed

lemma keeps_among:
  assumes "\<And>w. tasks (snd (run_state m w)) = tasks w" and "\<And>w. sps (snd (run_state m w)) = sps w"
  shows "keeps (takes_turns (sound tasks sps) own others) (in_world (among others (reading past m)))"
proof (rule keepsI)
  fix s x s' assume "run_state (in_world (among others (reading past m))) s = (x, s')"
  then have "s' = s\<lparr>gs_world := snd (run_state m (others (gs_world s)))\<rparr>" by simp
  moreover have "own (others (gs_world s)) (snd (run_state m (others (gs_world s))))" by (intro own_refused assms)
  ultimately show "takes_turns (sound tasks sps) own others s s'"
    using among_turn [of "reading past m" s, OF _ ] by simp
qed

end

end
