(* ===== verification/SharedTasks.thy ===== *)
theory SharedTasks
  imports Interleaving
begin

text \<open>
  A call of the task controller among other calls. The object it works on is \<open>known\<close>: the stored one has moved
  on from it. As long as nobody else has written the task, every update is a step of the abstract machine; once
  somebody has, every further update is refused.
\<close>

section \<open>The task controller among others\<close>

sublocale shared_cluster \<subseteq> by_task: shared_calls E tasks sps nodes past others "task_writes tasks sps key" for key
proof
  show "task_writes tasks sps key w w'" if "tasks w' = tasks w" "sps w' = sps w" for w w'
    using that by (simp add: task_writes_def)
  show "legal tasks sps w w'" if "task_writes tasks sps key w w'" for w w'
    using that by (rule legal.task)
qed

text \<open>What is known of an object in memory: the stored one has moved on from it.\<close>
definition known :: "(string \<times> string \<rightharpoonup> SnapshotPodTask) \<Rightarrow> SnapshotPodTask \<Rightarrow> bool" where
  "known m t \<longleftrightarrow> (\<exists>cur. m (task_key t) = Some cur \<and> moved_on t cur)"

definition behind :: "(string \<times> string \<rightharpoonup> SnapshotPodTask) \<Rightarrow> SnapshotPodTask \<Rightarrow> bool" where
  "behind m t \<longleftrightarrow> (\<exists>cur. m (task_key t) = Some cur \<and> task_version t < task_version cur)"

lemma known_since: "known m t \<Longrightarrow> tasks_since m m' \<Longrightarrow> known m' t"
  unfolding known_def tasks_since_def using moved_on_trans by meson

lemma behind_since: "behind m t \<Longrightarrow> tasks_since m m' \<Longrightarrow> behind m' t"
  unfolding behind_def tasks_since_def moved_on_def by (metis less_trans)

lemma known_cases: "known m t \<Longrightarrow> m (task_key t) = Some t \<or> behind m t"
  by (auto simp: known_def behind_def moved_on_def)

lemma behind_same: "task_key u = task_key t \<Longrightarrow> task_version u = task_version t \<Longrightarrow> behind m u = behind m t"
  by (simp add: behind_def)

lemma behind_set [simp]: "behind m (set_task_conditions cs t) = behind m t"
  by (simp add: behind_def)

lemma behind_outdated: "behind m t \<Longrightarrow> outdated m task_version (task_key t) t"
  by (auto simp: behind_def outdated_def)

text \<open>Further steps of the loop are steps of the abstract machine.\<close>
lemma moved_wf:
  assumes "moved t u" and "task_wf t" and "\<not> terminal_phase (sptst_Phase (spt_Status t))"
  shows "task_wf u \<and> \<not> terminal_phase (sptst_Phase (spt_Status u)) \<and> task_step\<^sup>*\<^sup>* (abs_task t) (abs_task u)"
proof -
  have same: "same_task t u" using assms(1) by (simp add: moved_def)
  have le3: "done_count (sptst_Conditions (spt_Status u)) \<le> 3"
    using assms(1) follows_done_le [of step_names] by (auto simp: moved_def)
  let ?d = "done_count (sptst_Conditions (spt_Status u)) - done_count (sptst_Conditions (spt_Status t))"
  have "abs_task u = (abs_task t)\<lparr>ta_done := ta_done (abs_task t) + ?d\<rparr>"
    using assms(1) same_task_sel(1) [OF same] by (simp add: abs_task_def moved_def)
  then have "task_step\<^sup>*\<^sup>* (abs_task t) (abs_task u)"
    using advance_steps [of "abs_task t" ?d] le3 assms by (simp add: moved_def)
  then show ?thesis using assms same_task_sel(1) [OF same] by (auto simp: moved_def task_wf_def)
qed

context shared_cluster
begin

text \<open>The update of an object that others have changed is refused.\<close>
lemma shared_refused:
  assumes ok: "sound tasks sps (gs_world s)" and b: "behind (tasks (gs_world s)) t"
    and upd: "run_state (env_update_task_status (shared E past others) t) (gs_world s) = (u, w)"
  shows "takes_turns (sound tasks sps) (task_writes tasks sps key) others s (s\<lparr>gs_world := w\<rparr>) \<and> (\<exists>e. u = Inl e)"
proof -
  have upd: "run_state (among others (env_update_task_status E t)) (gs_world s) = (u, w)" using upd by simp
  have "onward tasks sps (gs_world s) (others (gs_world s))" using by_task.turns_onward [OF by_task.others_turn ok] by simp
  then have "behind (tasks (others (gs_world s))) t" using behind_since [OF b] by (simp add: onward_def)
  from task_refused [OF behind_outdated [OF this]] upd have r: "\<exists>e. u = Inl e" "tasks w = tasks (others (gs_world s))" by auto
  moreover have "sps w = sps (others (gs_world s))" using update_task_sps [of t "others (gs_world s)"] upd by simp
  ultimately show ?thesis using by_task.among_turn [OF upd by_task.own_refused] by blast
qed

lemma task_update_cases:
  assumes "tasks w k = Some t" and "task_key u = k" and "run_state (env_update_task_status E u) w = (res, w')"
  obtains (refused) e where "tasks w' = tasks w" and "res = Inl e"
  | (written) v where "status_written t u v" and "tasks w' = (tasks w)(k \<mapsto> v)" and "\<And>x. res = Inr x \<Longrightarrow> x = v"
proof (cases res)
  case (Inl e)
  then show thesis using update_task_err [of u w e w'] assms that by auto
next
  case (Inr x)
  then show thesis using update_task_ok [of u w x w'] assms that(2) by auto
qed

text \<open>The update of an object in memory that was derived from \<open>t\<close>.\<close>
lemma shared_update:
  assumes ok: "sound tasks sps (gs_world s)" and t: "known (tasks (gs_world s)) t" "task_key t = key"
    and u: "same_task t u" "task_version u = task_version t"
    and writes: "\<And>v. same_task t v \<Longrightarrow> spt_Status v = wire_task_status (spt_Status u) \<Longrightarrow>
      task_wf v \<and> task_step\<^sup>*\<^sup>* (abs_task t) (abs_task v)"
    and upd: "run_state (env_update_task_status (shared E past others) u) (gs_world s) = (res, w)"
  shows "takes_turns (sound tasks sps) (task_writes tasks sps key) others s (s\<lparr>gs_world := w\<rparr>) \<and>
    (\<forall>v. res = Inr v \<longrightarrow> same_task t v \<and> spt_Status v = wire_task_status (spt_Status u) \<and> tasks w key = Some v)"
proof -
  let ?w = "others (gs_world s)"
  have key: "task_key u = key" using same_task_key [OF u(1)] t(2) by simp
  have upd': "run_state (among others (env_update_task_status E u)) (gs_world s) = (res, w)"
    and upd1: "run_state (env_update_task_status E u) ?w = (res, w)" using upd by simp_all
  have "onward tasks sps (gs_world s) ?w" using by_task.turns_onward [OF by_task.others_turn ok] by simp
  then have kn: "known (tasks ?w) t" using known_since [OF t(1)] by (simp add: onward_def)
  have sps: "sps w = sps ?w" using update_task_sps [of u ?w] upd1 by simp
  from known_cases [OF kn] show ?thesis
  proof
    assume cur: "tasks ?w (task_key t) = Some t"
    then have "tasks ?w key = Some t" using t(2) by simp
    from this key upd1 show ?thesis
    proof (cases rule: task_update_cases)
      case refused
      then show ?thesis using by_task.among_turn [OF upd' by_task.own_refused] sps by simp
    next
      case (written v)
      have v: "same_task t v" "spt_Status v = wire_task_status (spt_Status u)"
        using written(1) by (auto simp: status_written_def same_taskI)
      have "v = t \<or> task_version t < task_version v"
        using task_grows [OF _ upd1, of t v] cur key t(2) written(2) by simp
      then have "moved_on t v" using v(1) writes [OF v] by (simp add: moved_on_def)
      then have "task_writes tasks sps key ?w w"
        using cur t(2) written(2) writes [OF v] sps unfolding task_writes_def by blast
      then show ?thesis using by_task.among_turn [OF upd'] v written(2,3) by auto
    qed
  next
    assume "behind (tasks ?w) t"
    then have "behind (tasks ?w) u" using behind_same [of u t] u(2) key t(2) by simp
    from task_refused [OF behind_outdated [OF this] upd1] obtain e where "res = Inl e" "tasks w = tasks ?w" by blast
    then show ?thesis using by_task.among_turn [OF upd' by_task.own_refused] sps by simp
  qed
qed

text \<open>The steps touch neither store.\<close>
lemma steps_still:
  assumes "r \<in> nodes"
  shows "\<forall>p\<in>set (task_recs E r). \<forall>t. keeps (still tasks sps) (snd p t)"
proof -
  have "keeps (still tasks sps) (f t)" if "(n, f) \<in> set (task_recs E r)" for n f t
  proof -
    have "keeps (unseen tasks) (f t)" by (rule task_runtimes.unseen_steps [OF node_task_runtimes [OF assms] that])
    moreover have "keeps (unseen sps) (f t)"
      using that unseen_sps_push [OF assms] unseen_sps_commit [OF assms]
      by (auto simp: task_recs_def reconcileAccept_def intro: unseen_frame.keeps_return)
    ultimately show ?thesis by (simp add: keeps_def unseen_def still_def)
  qed
  then show ?thesis by auto
qed

lemma quiet_conditions:
  "keeps (still tasks sps) (ensure_condition E n cs)" "keeps (still tasks sps) (succeed_condition E c)"
  unfolding succeed_condition_def Let_def by (rule still_ensure) (intro still_frame.keeps_rules still_now)

text \<open>A quiet stretch of the loop, before its update.\<close>
lemma before_update:
  assumes "still tasks sps s s2" and "sound tasks sps (gs_world s)"
  shows "takes_turns (sound tasks sps) (task_writes tasks sps key) others s s2" and "sound tasks sps (gs_world s2)"
    and "tasks (gs_world s2) = tasks (gs_world s)"
  using by_task.quiet_turn [OF assms(1), of key] assms by (simp_all add: takes_turns_def still_def)

text \<open>A step is tried: the condition is ensured, the step runs, and neither store changes.\<close>
lemma tried_still:
  assumes "\<And>t. keeps (still tasks sps) (f t)"
    and "run_state (ensure_condition (shared E past others) n cs) s = ((conds, i), s1)"
    and "run_state (f (set_task_conditions conds t)) s1 = (res, s2)"
  shows "still tasks sps s s2"
  by (rule still_frame.trans_R [OF keepsD [OF quiet_conditions(1) assms(2) [unfolded shared_conditions]] keepsD [OF assms(1,3)]])

lemma succeeded_still:
  assumes "still tasks sps s s2" and "run_state (succeed_condition (shared E past others) c) s2 = (c', s3)"
  shows "still tasks sps s s3"
  by (rule still_frame.trans_R [OF assms(1) keepsD [OF quiet_conditions(2) assms(2) [unfolded shared_conditions]]])

section \<open>An object that others have changed\<close>

lemma behind_update:
  assumes q: "still tasks sps s s2" and ok: "sound tasks sps (gs_world s)" and b: "behind (tasks (gs_world s)) t"
    and upd: "run_state (env_update_task_status (shared E past others) (set_task_conditions cs t)) (gs_world s2) = (u, w)"
  shows "takes_turns (sound tasks sps) (task_writes tasks sps key) others s (s2\<lparr>gs_world := w\<rparr>) \<and> (\<exists>e. u = Inl e)"
proof -
  note b2 = before_update [OF q ok]
  have "behind (tasks (gs_world s2)) (set_task_conditions cs t)" using b b2(3) by simp
  from shared_refused [OF b2(2) this upd, of key] show ?thesis using turns_frame.trans_R [OF b2(1) [of key]] by blast
qed

text \<open>Every update of the loop is refused.\<close>
lemma behind_loop:
  assumes "\<forall>p\<in>set recs. \<forall>t. keeps (still tasks sps) (snd p t)"
    and "sound tasks sps (gs_world s)" and "behind (tasks (gs_world s)) t"
    and "run_state (run_recs (shared E past others) recs t) s = (ex, s')"
  shows "takes_turns (sound tasks sps) (task_writes tasks sps key) others s s' \<and>
    (\<forall>t2 err. ex = LoopEnd t2 err \<longrightarrow> behind (tasks (gs_world s')) t2)"
  using assms
proof (induction recs arbitrary: t s)
  case Nil
  then show ?case using turns_frame.refl_R by auto
next
  case (Cons rec recs)
  obtain n f where rec: "rec = (n, f)" by (cases rec)
  have frame: "\<forall>p\<in>set recs. \<forall>t. keeps (still tasks sps) (snd p t)" and f: "\<And>t. keeps (still tasks sps) (f t)"
    using Cons.prems(1) rec by auto
  note tried = tried_still [where f = f, OF f] and refuse = behind_update [OF _ Cons.prems(2,3), where key = key]
  from run_recs_iteration [OF Cons.prems(4) [unfolded rec]] show ?case
  proof cases
    case (held conds i s1)
    note b = before_update [OF keepsD [OF quiet_conditions(1) held(1) [unfolded shared_conditions]] Cons.prems(2)]
    have "behind (tasks (gs_world s1)) (set_task_conditions conds t)" using Cons.prems(3) b(3) by simp
    from Cons.IH [OF frame b(2) this held(3)] show ?thesis using turns_frame.trans_R [OF b(1) [of key]] by blast
  next
    case (panicked conds i s1 m)
    from before_update(1) [OF tried [OF panicked(2,4)] Cons.prems(2)] panicked(1) show ?thesis by simp
  next
    case (failed conds i s1 err s2 u w)
    from refuse [OF tried [OF failed(3,5)] failed(6)] failed(1,2) show ?thesis by auto
  next
    case (refused conds i s1 s2 c s3 e w)
    from refuse [OF succeeded_still [OF tried [OF refused(3,5)] refused(6)] refused(7)] refused(1,2) show ?thesis by auto
  next
    case (passed conds i s1 s2 c s3 v w)
    from refuse [OF succeeded_still [OF tried [OF passed(1,3)] passed(4)] passed(5)] show ?thesis by auto
  qed
qed

section \<open>An object that was stored\<close>

text \<open>What the loop knows of its object, before the step of number \<open>j\<close>.\<close>
definition in_hand :: "(string \<times> string \<rightharpoonup> SnapshotPodTask) \<Rightarrow> string \<times> string \<Rightarrow> nat \<Rightarrow> SnapshotPodTask \<Rightarrow> bool" where
  "in_hand m key j t \<longleftrightarrow> known m t \<and> task_key t = key \<and> task_wf t \<and> \<not> terminal_phase (sptst_Phase (spt_Status t)) \<and>
     j \<le> done_count (sptst_Conditions (spt_Status t))"

text \<open>The end of the loop: all steps are done, or the error of the next one is reported.\<close>
definition loop_ended :: "(string \<times> string \<rightharpoonup> SnapshotPodTask) \<Rightarrow> string \<times> string \<Rightarrow> SnapshotPodTask \<Rightarrow> go_error option \<Rightarrow> bool" where
  "loop_ended m key t err \<longleftrightarrow> in_hand m key 0 t \<and>
     (err = None \<longleftrightarrow> done_count (sptst_Conditions (spt_Status t)) = 3) \<and>
     (err \<noteq> None \<longrightarrow> done_count (sptst_Conditions (spt_Status t)) < 3 \<and>
       length (sptst_Conditions (spt_Status t)) = Suc (done_count (sptst_Conditions (spt_Status t))))"

lemma in_hand_since: "in_hand m key j t \<Longrightarrow> tasks_since m m' \<Longrightarrow> in_hand m' key j t"
  unfolding in_hand_def using known_since by blast

text \<open>The update of the condition of the step \<open>j\<close>.\<close>
lemma in_hand_update:
  assumes q: "still tasks sps s s2" and ok: "sound tasks sps (gs_world s)" and t: "in_hand (tasks (gs_world s)) key j t"
    and rdy: "ready_for step_names j conds \<and> done_count (sptst_Conditions (spt_Status t)) = j"
    and c: "cond_Type c = cond_Type (conds ! j)"
    and upd: "run_state (env_update_task_status (shared E past others) (set_task_conditions (conds[j := c]) t)) (gs_world s2) = (u, w)"
  shows "takes_turns (sound tasks sps) (task_writes tasks sps key) others s (s2\<lparr>gs_world := w\<rparr>)"
    and "u = Inr v \<Longrightarrow> in_hand (tasks w) key 0 v \<and> length (sptst_Conditions (spt_Status v)) = Suc j \<and>
      done_count (sptst_Conditions (spt_Status v)) = (if cond_Status c = ConditionTrue then Suc j else j)"
proof -
  note b = before_update [OF q ok]
  have kn: "known (tasks (gs_world s2)) t" and t': "task_key t = key" "task_wf t" "\<not> terminal_phase (sptst_Phase (spt_Status t))"
    using t b(3) by (simp_all add: in_hand_def)
  have set: "moved t v \<and> length (sptst_Conditions (spt_Status v)) = Suc j \<and>
      done_count (sptst_Conditions (spt_Status v)) = (if cond_Status c = ConditionTrue then Suc j else j)"
    if "same_task t v" "spt_Status v = wire_task_status (spt_Status (set_task_conditions (conds[j := c]) t))" for v
    using moved_set_condition [OF _ c _ that] rdy by blast
  have sp: "same_task t (set_task_conditions (conds[j := c]) t)" "task_version (set_task_conditions (conds[j := c]) t) = task_version t"
    by (simp_all add: same_task_set)
  have "task_wf v \<and> task_step\<^sup>*\<^sup>* (abs_task t) (abs_task v)"
    if "same_task t v" "spt_Status v = wire_task_status (spt_Status (set_task_conditions (conds[j := c]) t))" for v
    using moved_wf [OF _ t'(2,3)] set [OF that] by blast
  note e = shared_update [OF b(2) kn t'(1) sp this upd]
  show "takes_turns (sound tasks sps) (task_writes tasks sps key) others s (s2\<lparr>gs_world := w\<rparr>)"
    using e turns_frame.trans_R [OF b(1) [of key]] by blast
  assume "u = Inr v"
  with e have v: "same_task t v" "spt_Status v = wire_task_status (spt_Status (set_task_conditions (conds[j := c]) t))" "tasks w key = Some v"
    by blast+
  then show "in_hand (tasks w) key 0 v \<and> length (sptst_Conditions (spt_Status v)) = Suc j \<and>
      done_count (sptst_Conditions (spt_Status v)) = (if cond_Status c = ConditionTrue then Suc j else j)"
    using set [OF v(1,2)] moved_wf [of t v] t' same_task_key [OF v(1)] by (simp add: in_hand_def known_def)
qed

text \<open>One iteration: the loop ends, or it goes on with the next step.\<close>
lemma in_hand_iteration:
  assumes r: "r \<in> nodes" and f: "\<And>t. keeps (still tasks sps) (f t)" and j: "j < 3"
    and ok: "sound tasks sps (gs_world s)" and t: "in_hand (tasks (gs_world s)) key j t"
    and run: "iteration (shared E past others) (step_names ! j) f recs t s ex s'"
  obtains (ended) "takes_turns (sound tasks sps) (task_writes tasks sps key) others s s'"
      "\<forall>t2 err. ex = LoopEnd t2 err \<longrightarrow> loop_ended (tasks (gs_world s')) key t2 err"
  | (goes_on) t1 s1 where "takes_turns (sound tasks sps) (task_writes tasks sps key) others s s1"
      "in_hand (tasks (gs_world s1)) key (Suc j) t1" "run_state (run_recs (shared E past others) recs t1) s1 = (ex, s')"
proof -
  have fol: "follows step_names (sptst_Conditions (spt_Status t))" and le: "j \<le> done_count (sptst_Conditions (spt_Status t))"
    using t by (simp_all add: in_hand_def task_wf_def)
  note next_condition = task_runtimes.ensure_next [OF node_task_runtimes [OF r] _ j fol le]
  note tried = tried_still [where f = f, OF f] and update = in_hand_update [OF _ ok t]
  from run show thesis
  proof cases
    case (held conds i s1)
    note ens = held(1) [unfolded shared_conditions]
    note e = next_condition(3) [OF ens held(2)] and b = before_update [OF keepsD [OF quiet_conditions(1) ens] ok]
    show thesis by (rule goes_on [OF b(1), of t]) (use held(3) e t b(3) in \<open>simp_all add: in_hand_def Suc_le_eq\<close>)
  next
    case (panicked conds i s1 m)
    show thesis by (rule ended [OF before_update(1) [OF tried [OF panicked(2,4)] ok]]) (simp add: panicked(1))
  next
    case (failed conds i s1 err s2 u w)
    note ens = failed(3) [unfolded shared_conditions]
    note e = next_condition(1) [OF ens] next_condition(4) [OF ens failed(4)]
    note u = update [OF tried [OF failed(3,5)] e(2) _ failed(6) [unfolded e(1)]]
    show thesis by (rule ended) (use u failed(1,2) j in \<open>auto simp: loop_ended_def split: sum.splits\<close>)
  next
    case (refused conds i s1 s2 c s3 e w)
    note ens = refused(3) [unfolded shared_conditions]
    note e = next_condition(1) [OF ens] next_condition(4) [OF ens refused(4)]
    have "cond_Type c = cond_Type (conds ! j)"
      using succeed_condition_sel [OF refused(6) [unfolded shared_conditions]] e(1) by simp
    note u = update [OF succeeded_still [OF tried [OF refused(3,5)] refused(6)] e(2) this refused(7) [unfolded e(1)]]
    show thesis by (rule ended) (use u(1) refused(1,2) in simp_all)
  next
    case (passed conds i s1 s2 c s3 v w)
    note ens = passed(1) [unfolded shared_conditions]
    note e = next_condition(1) [OF ens] next_condition(4) [OF ens passed(2)]
    have c: "cond_Type c = cond_Type (conds ! j)" "cond_Status c = ConditionTrue"
      using succeed_condition_sel [OF passed(4) [unfolded shared_conditions]] e(1) by simp_all
    note u = update [OF succeeded_still [OF tried [OF passed(1,3)] passed(4)] e(2) c(1) passed(5) [unfolded e(1)]]
    show thesis by (rule goes_on [OF u(1), of v]) (use u(2) [OF refl] c(2) passed(6) in \<open>simp_all add: in_hand_def\<close>)
  qed
qed

text \<open>As long as nobody else writes the object, it moves on.\<close>
lemma in_hand_loop:
  assumes "r \<in> nodes" and "\<forall>p\<in>set recs. \<forall>t. keeps (still tasks sps) (snd p t)"
    and "map fst recs = drop j step_names" and "j \<le> 3" and "sound tasks sps (gs_world s)"
    and "in_hand (tasks (gs_world s)) key j t"
    and "run_state (run_recs (shared E past others) recs t) s = (ex, s')"
  shows "takes_turns (sound tasks sps) (task_writes tasks sps key) others s s' \<and>
    (\<forall>t2 err. ex = LoopEnd t2 err \<longrightarrow> loop_ended (tasks (gs_world s')) key t2 err)"
  using assms(2-)
proof (induction recs arbitrary: j t s)
  case Nil
  have "follows step_names (sptst_Conditions (spt_Status t))" using Nil.prems(5) by (simp add: in_hand_def task_wf_def)
  then have "done_count (sptst_Conditions (spt_Status t)) = 3" using Nil.prems follows_done_le by (force simp: in_hand_def)
  with Nil.prems show ?case using turns_frame.refl_R by (auto simp: loop_ended_def in_hand_def)
next
  case (Cons rec recs)
  obtain n f where rec: "rec = (n, f)" by (cases rec)
  have j: "j < 3" and n: "n = step_names ! j" and recs: "map fst recs = drop (Suc j) step_names"
    using Cons.prems(2) rec by (auto simp: Cons_nth_drop_Suc [symmetric] step_names_def
      numeral_eq_Suc less_Suc_eq_le le_Suc_eq drop_Cons' split: if_splits)
  have frame: "\<forall>p\<in>set recs. \<forall>t. keeps (still tasks sps) (snd p t)" and f: "\<And>t. keeps (still tasks sps) (f t)"
    using Cons.prems(1) rec by auto
  note run = run_recs_iteration [OF Cons.prems(6) [unfolded rec n]]
  show ?case
  proof (rule in_hand_iteration [OF assms(1) f j Cons.prems(4,5) run])
    fix t1 s1 assume s1: "takes_turns (sound tasks sps) (task_writes tasks sps key) others s s1"
      and t1: "in_hand (tasks (gs_world s1)) key (Suc j) t1" and rest: "run_state (run_recs (shared E past others) recs t1) s1 = (ex, s')"
    have "sound tasks sps (gs_world s1)" using s1 Cons.prems(4) by (simp add: takes_turns_def)
    from Cons.IH [OF frame recs Suc_leI [OF j] this t1 rest] show ?thesis using turns_frame.trans_R [OF s1] by blast
  qed blast
qed

end

text \<open>What the call does outside the loop and the final update.\<close>
sublocale shared_cluster \<subseteq> task_turns: task_ops "takes_turns (sound tasks sps) (task_writes tasks sps key) others"
    "shared E past others" for key
  by unfold_locales (simp_all add: turns_frame.refl_R by_task.keeps_quiet still_now still_ops.R_emit, rule turns_frame.trans_R)

context shared_cluster
begin

lemma settle_shared:
  assumes "run_state (settle_phase (shared E past others) t err) s = (t3, s2)" and "sound tasks sps (gs_world s)"
  shows "takes_turns (sound tasks sps) (task_writes tasks sps key) others s s2" and "sound tasks sps (gs_world s2)"
    and "tasks_since (tasks (gs_world s)) (tasks (gs_world s2))" and "spt_meta t3 = spt_meta t"
proof -
  show "takes_turns (sound tasks sps) (task_writes tasks sps key) others s s2"
    by (rule keepsD [OF task_turns.frame_settle assms(1)])
  show "tasks_since (tasks (gs_world s)) (tasks (gs_world s2))" "sound tasks sps (gs_world s2)"
    using by_task.turns_onward [OF keepsD [OF task_turns.frame_settle assms(1)] assms(2)] assms(2) by (simp_all add: onward_def)
  show "spt_meta t3 = spt_meta t" using settle_meta [of t err s] assms(1) by simp
qed

text \<open>An attempt ends in the loop, or it settles the phase and stores the task.\<close>
lemma attempt_parts:
  assumes "run_state (attempt_task C r t0 t) s = (res, s')"
  obtains (loop) ex where "run_state (run_recs C (task_recs C r) t) s = (ex, s')"
  | (finish) t2 err s1 t3 s2 where "run_state (run_recs C (task_recs C r) t) s = (LoopEnd t2 err, s1)"
      and "run_state (settle_phase C t2 err) s1 = (t3, s2)" and "run_state (finish_task C t0 t3) s2 = (res, s')"
proof -
  obtain ex s1 where ex: "run_state (run_recs C (task_recs C r) t) s = (ex, s1)" by (metis prod.collapse)
  show thesis
  proof (cases ex)
    case (LoopEnd t2 err)
    obtain t3 s2 where "run_state (settle_phase C t2 err) s1 = (t3, s2)" by (metis prod.collapse)
    then show thesis using finish [OF ex [unfolded LoopEnd]] assms ex LoopEnd by (simp add: attempt_task_def)
  qed (use assms ex loop in \<open>auto simp: attempt_task_def\<close>)
qed

lemma known_attempt:
  assumes r: "r \<in> nodes" and ok: "sound tasks sps (gs_world s)" and t: "in_hand (tasks (gs_world s)) key 0 t"
    and run: "run_state (attempt_task (shared E past others) r t0 t) s = (res, s')"
  shows "takes_turns (sound tasks sps) (task_writes tasks sps key) others s s'"
proof -
  have names: "map fst (task_recs E r) = drop 0 step_names" by (simp add: task_recs_def step_names_def)
  from run show ?thesis
  proof (cases rule: attempt_parts)
    case (loop ex)
    then show ?thesis using in_hand_loop [OF r steps_still [OF r] names _ ok t] by simp
  next
    case (finish t2 err s1 t3 s2)
    have l1: "takes_turns (sound tasks sps) (task_writes tasks sps key) others s s1" and l2: "loop_ended (tasks (gs_world s1)) key t2 err"
      using in_hand_loop [OF r steps_still [OF r] names _ ok t finish(1) [unfolded shared_recs]] by simp_all
    then have l: "known (tasks (gs_world s1)) t2" "task_key t2 = key" "task_wf t2" "\<not> terminal_phase (sptst_Phase (spt_Status t2))"
      by (simp_all add: loop_ended_def in_hand_def)
    have ok1: "sound tasks sps (gs_world s1)" using l1 ok by (simp add: takes_turns_def)
    note set = settle_shared [OF finish(2) ok1]
    have st: "settled t2 t3" using task_runtimes.settle_outcome [OF node_task_runtimes [OF r] l(3,4) _ _ finish(2) [unfolded shared_settle]]
      l2 unfolding loop_ended_def by blast
    have kn: "known (tasks (gs_world s2)) t2" by (rule known_since [OF l(1) set(3)])
    obtain u w where upd: "run_state (env_update_task_status (shared E past others) t3) (gs_world s2) = (u, w)"
      and rest: "takes_turns (sound tasks sps) (task_writes tasks sps key) others (s2\<lparr>gs_world := w\<rparr>) s'"
      by (rule task_turns.finish_parts [OF finish(3)])
    have same: "same_task t2 t3" "task_version t3 = task_version t2" using st set(4) by (simp_all add: settled_def)
    have "task_wf v \<and> task_step\<^sup>*\<^sup>* (abs_task t2) (abs_task v)"
      if "same_task t2 v" "spt_Status v = wire_task_status (spt_Status t3)" for v
    proof -
      have "spt_Spec v = spt_Spec t3" using same_task_sel(1) [OF that(1)] same_task_sel(1) [OF same(1)] by simp
      from wire_task [OF that(2) this] show ?thesis using st by (auto simp: settled_def)
    qed
    note e = shared_update [OF set(2) kn l(2) same this upd]
    show ?thesis using turns_frame.trans_R [OF l1] turns_frame.trans_R [OF set(1)] turns_frame.trans_R [OF conjunct1 [OF e] rest]
      by blast
  qed
qed

lemma behind_attempt:
  assumes r: "r \<in> nodes" and ok: "sound tasks sps (gs_world s)" and t: "behind (tasks (gs_world s)) t"
    and run: "run_state (attempt_task (shared E past others) r t0 t) s = (res, s')"
  shows "takes_turns (sound tasks sps) (task_writes tasks sps key) others s s'"
  using run
proof (cases rule: attempt_parts)
  case (loop ex)
  then show ?thesis using behind_loop [OF steps_still [OF r] ok t] by simp
next
  case (finish t2 err s1 t3 s2)
  have l: "takes_turns (sound tasks sps) (task_writes tasks sps key) others s s1" "behind (tasks (gs_world s1)) t2"
    using behind_loop [OF steps_still [OF r] ok t, of "LoopEnd t2 err" s1] finish(1) by simp_all
  have ok1: "sound tasks sps (gs_world s1)" using l(1) ok by (simp add: takes_turns_def)
  note set = settle_shared [OF finish(2) ok1]
  have "behind (tasks (gs_world s2)) t2" by (rule behind_since [OF l(2) set(3)])
  then have b: "behind (tasks (gs_world s2)) t3" using set(4) by (simp add: behind_def)
  obtain u w where upd: "run_state (env_update_task_status (shared E past others) t3) (gs_world s2) = (u, w)"
    and rest: "takes_turns (sound tasks sps) (task_writes tasks sps key) others (s2\<lparr>gs_world := w\<rparr>) s'"
    by (rule task_turns.finish_parts [OF finish(3)])
  note e = conjunct1 [OF shared_refused [OF set(2) b upd]]
  show ?thesis using turns_frame.trans_R [OF l(1)] turns_frame.trans_R [OF set(1)] turns_frame.trans_R [OF e rest]
    by blast
qed

text \<open>A call of a task controller among others.\<close>
lemma shared_task_call:
  assumes r: "r \<in> nodes" and ok: "sound tasks sps (gs_world s)"
    and run: "run_state (Task_Reconcile (shared E past others) r ns nm) s = (res, s')"
  shows "takes_turns (sound tasks sps) (task_writes tasks sps (ns, nm)) others s s'"
proof -
  let ?R = "takes_turns (sound tasks sps) (task_writes tasks sps (ns, nm)) others"
  have get: "?R s1 (s1\<lparr>gs_world := w\<rparr>)"
    if "run_state (env_get_task (shared E past others) ns nm) (gs_world s1) = (x, w)" for s1 x w
    using keepsD [OF by_task.keeps_among [of "env_get_task E ns nm"], of s1 x "s1\<lparr>gs_world := w\<rparr>"] that
      get_task_quiet get_task_sps by simp
  from run show ?thesis
  proof (cases rule: task_turns.call_parts [where key = "(ns, nm)"])
    case (not_read s1 e w)
    then show ?thesis using turns_frame.trans_R get by blast
  next
    case (not_to_do s1 t w)
    then show ?thesis using turns_frame.trans_R get by blast
  next
    case (attempt s1 t w t0)
    let ?s2 = "s1\<lparr>gs_world := w\<rparr>"
    have s2: "?R s ?s2" by (rule turns_frame.trans_R [OF attempt(1) get [OF attempt(2)]])
    have ok1: "sound tasks sps (gs_world s1)" using attempt(1) ok by (simp add: takes_turns_def)
    obtain v where read: "Inr t = fst (run_state (env_get_task E ns nm) v)" and v: "onward tasks sps v w"
      and "sound tasks sps w"
      by (rule read_past [OF attempt(2) [unfolded shared_sel] ok1 get_task_quiet get_task_sps])
    then have ok2: "sound tasks sps (gs_world ?s2)" by simp
    have stored: "tasks v (ns, nm) = Some t" by (rule get_task_ok [OF read [symmetric]])
    have key: "task_key t = (ns, nm)" by (rule task_keyed [OF stored])
    have kn: "known (tasks (gs_world ?s2)) t"
      using v stored key unfolding onward_def tasks_since_def known_def by simp
    show ?thesis
    proof (cases "tasks (gs_world ?s2) (task_key t) = Some t")
      case True
      then have wf: "task_wf t" using ok2 unfolding sound_def by blast
      then have "run_state (attempt_task (shared E past others) r t0 t) ?s2 = (res, s')" using attempt(5) by (simp add: task_wf_def)
      moreover have "in_hand (tasks (gs_world ?s2)) (ns, nm) 0 t" using kn key wf attempt(3) by (simp add: in_hand_def to_do_def)
      ultimately show ?thesis using turns_frame.trans_R [OF s2 known_attempt [OF r ok2]] by blast
    next
      case False
      then have "behind (tasks (gs_world ?s2)) t" using known_cases [OF kn] by blast
      then have "behind (tasks (gs_world ?s2)) (if sint (sptst_RetryCount (spt_Status t)) < 0
          then set_task_status (\<lambda>st. st\<lparr>sptst_RetryCount := 0\<rparr>) t else t)"
        by (simp add: behind_def)
      from turns_frame.trans_R [OF s2 behind_attempt [OF r ok2 this attempt(5)]] show ?thesis .
    qed
  qed
qed

end

end
