(* ===== verification/PodHistory.thy ===== *)
theory PodHistory
  imports PodTheorems
begin

text \<open>
  What a call of the \<^verbatim>\<open>SnapshotPod\<close> controller makes of the status it has read: entries are added one by one
  and the oldest dropped, entries get results, the conditions of the three steps are set, and the round may be
  marked as handled. The first section says exactly which entries are left, the second is the relation between the
  status before and after, the third the round that fails half-way.
\<close>

section \<open>Which entries are left\<close>

abbreviation pod_conds :: "SnapshotPod \<Rightarrow> condition list" where
  "pod_conds sp \<equiv> spst_Conditions (sp_Status sp)"

text \<open>Entries are added one by one, and the history is cut down each time.\<close>
definition add_entries :: "SnapshotRunningStatus list \<Rightarrow> SnapshotRunningStatus list \<Rightarrow> SnapshotRunningStatus list" where
  "add_entries ss new = foldl (\<lambda>ss e. keep_last (ss @ [e])) ss new"

lemma add_entries_simps [simp]:
  "add_entries ss [] = ss" "add_entries ss (e # new) = add_entries (keep_last (ss @ [e])) new"
  "add_entries ss (new @ new2) = add_entries (add_entries ss new) new2"
  by (simp_all add: add_entries_def)

text \<open>How many of \<open>n\<close> entries are left.\<close>
definition kept_of :: "nat \<Rightarrow> nat" where
  "kept_of n = (if n \<le> 20 then n else 5 + (n - 21) mod 16)"

lemma kept_of_Suc: "kept_of (Suc n) = (if kept_of n = 20 then 5 else Suc (kept_of n))"
proof (cases "n \<le> 20")
  case False
  then have "n - 20 = Suc (n - 21)" by simp
  then have "(n - 20) mod 16 = (if (n - 21) mod 16 = 15 then 0 else Suc ((n - 21) mod 16))" by (simp add: mod_Suc)
  then show ?thesis using False by (simp add: kept_of_def)
qed (auto simp: kept_of_def)

lemma kept_of_le: "kept_of n \<le> n" "kept_of n \<le> 20"
proof -
  have "(n - 21) mod 16 \<le> n - 21" "(n - 21) mod 16 < 16" by simp_all
  then show "kept_of n \<le> n" "kept_of n \<le> 20" unfolding kept_of_def by (auto simp del: mod_less_eq_dividend)
qed

lemma keep_last_drop:
  "keep_last (drop (length xs - kept_of (length xs)) xs @ [e]) = drop (Suc (length xs) - kept_of (Suc (length xs))) (xs @ [e])"
proof -
  let ?k = "kept_of (length xs)"
  have glue: "drop (length xs - ?k) xs @ [e] = drop (length xs - ?k) (xs @ [e])" by simp
  have "length (drop (length xs - ?k) (xs @ [e])) = Suc ?k" using kept_of_le(1) [of "length xs"] by simp
  then show ?thesis
    unfolding glue using kept_of_le [of "length xs"] by (auto simp: keep_last_def kept_of_Suc simp del: drop_append)
qed

text \<open>What is left are the newest.\<close>
lemma add_entries_closed:
  assumes "length ss \<le> 20"
  shows "add_entries ss new = drop (length (ss @ new) - kept_of (length (ss @ new))) (ss @ new)"
proof (induction new rule: rev_induct)
  case Nil
  then show ?case using assms by (simp add: kept_of_def)
next
  case (snoc e new)
  then show ?case using keep_last_drop [of "ss @ new" e] by (simp del: drop_append)
qed

text \<open>An entry of the round of the spec, as it is added.\<close>
definition new_entry :: "SnapshotPod \<Rightarrow> SnapshotRunningStatus \<Rightarrow> bool" where
  "new_entry sp e \<longleftrightarrow> srs_TriggerRound e = sps_TriggerRound (sp_Spec sp) \<and> srs_Result e = ResultCreated \<and>
     srs_FailedReason e = [] \<and> srs_CompletedAt e = None"

text \<open>The entries of the loop: one for each container up to the first that fails.\<close>
lemma containers_history:
  assumes "run_state (snapshot_containers E p cs sp) s = ((sp', err), s')"
  obtains new where "snaps sp' = add_entries (snaps sp) new" and "\<forall>e\<in>set new. new_entry sp e"
    and "if err = None then map srs_ContainerName new = cs else \<exists>c rest. cs = map srs_ContainerName new @ c # rest"
    and "sp_meta sp' = sp_meta sp" and "sp_Spec sp' = sp_Spec sp" and "pod_conds sp' = pod_conds sp"
    and "spst_LastTriggerRound (sp_Status sp') = spst_LastTriggerRound (sp_Status sp)"
  using assms
proof (induction cs arbitrary: sp s thesis)
  case Nil
  then show ?case using Nil.prems(1) [of "[]"] by auto
next
  case (Cons c cs)
  obtain sp1 e1 s1 where one: "run_state (snapshot_container E p c sp) s = ((sp1, e1), s1)" by (metis prod.collapse)
  note c = container_snaps [OF one]
  show ?case
  proof (cases e1)
    case (Some e)
    then have "sp' = sp" "err = Some e" using Cons.prems(2) one c by simp_all
    then show ?thesis using Cons.prems(1) [of "[]"] by simp
  next
    case None
    then have rest: "run_state (snapshot_containers E p cs sp1) s1 = ((sp', err), s')" using Cons.prems(2) one by simp
    obtain e where e: "snaps sp1 = keep_last (snaps sp @ [e])" "new_entry sp e" "srs_ContainerName e = c"
      using c None by (auto simp: new_entry_def)
    have same: "new_entry sp1 = new_entry sp" using c by (simp add: new_entry_def fun_eq_iff)
    from rest show ?thesis
    proof (rule Cons.IH [rotated])
      fix new assume "snaps sp' = add_entries (snaps sp1) new" "\<forall>e\<in>set new. new_entry sp1 e"
        "if err = None then map srs_ContainerName new = cs else \<exists>c rest. cs = map srs_ContainerName new @ c # rest"
        "sp_meta sp' = sp_meta sp1" "sp_Spec sp' = sp_Spec sp1" "pod_conds sp' = pod_conds sp1"
        "spst_LastTriggerRound (sp_Status sp') = spst_LastTriggerRound (sp_Status sp1)"
      then show thesis using e c same by (intro Cons.prems(1) [of "e # new"]) (auto split: if_splits)
    qed
  qed
qed

text \<open>The step that starts a round, in every case.\<close>
lemma tasks_history:
  assumes "run_state (reconcileTasks E sp) s = ((sp', err), s')"
  obtains new where "snaps sp' = add_entries (snaps sp) new" and "\<forall>e\<in>set new. new_entry sp e"
    and "if round_recorded sp then new = [] \<and> err = None else
      (case fst (run_state (getPod E sp) s) of Inl e \<Rightarrow> new = [] \<and> err = Some e
       | Inr p \<Rightarrow> if err = None then map srs_ContainerName new = wanted_containers sp p
           else \<exists>c rest. wanted_containers sp p = map srs_ContainerName new @ c # rest)"
    and "sp_meta sp' = sp_meta sp" and "sp_Spec sp' = sp_Spec sp" and "pod_conds sp' = pod_conds sp"
    and "spst_LastTriggerRound (sp_Status sp') \<in> {spst_LastTriggerRound (sp_Status sp), sps_TriggerRound (sp_Spec sp)}"
proof (cases "round_recorded sp")
  case True
  then show thesis using assms by (intro that [of "[]"]) (auto simp: reconcileTasks_def round_recorded_def split: if_splits)
next
  case False
  obtain res s1 where get: "run_state (getPod E sp) s = (res, s1)" by (metis prod.collapse)
  have body: "run_state (case res of Inl err \<Rightarrow> State_Monad.return (sp, Some err)
      | Inr p \<Rightarrow> snapshot_containers E p (wanted_containers sp p) sp) s1 = ((sp', err), s')"
    using assms False get by (simp add: reconcileTasks_def round_recorded_def)
  show thesis
  proof (cases res)
    case (Inl e)
    then show thesis using body False get by (intro that [of "[]"]) auto
  next
    case (Inr p)
    then have "run_state (snapshot_containers E p (wanted_containers sp p) sp) s1 = ((sp', err), s')" using body by simp
    then show thesis by (rule containers_history) (use False get Inr in \<open>intro that, auto\<close>)
  qed
qed

section \<open>The status before and after\<close>

text \<open>An entry that may have got a result; one that had its result keeps it. The precision of times is one second.\<close>
definition entry_moved :: "SnapshotRunningStatus \<Rightarrow> SnapshotRunningStatus \<Rightarrow> bool" where
  "entry_moved e e' \<longleftrightarrow> srs_TaskName e' = srs_TaskName e \<and> srs_TriggerRound e' = srs_TriggerRound e \<and>
     srs_ImageRef e' = srs_ImageRef e \<and> srs_ContainerName e' = srs_ContainerName e \<and>
     wire_time (srs_TriggerTime e') = wire_time (srs_TriggerTime e) \<and>
     (terminal_result (srs_Result e) \<longrightarrow> srs_Result e' = srs_Result e \<and> srs_FailedReason e' = srs_FailedReason e \<and>
       map_option wire_time (srs_CompletedAt e') = map_option wire_time (srs_CompletedAt e))"

text \<open>A condition that may have been set, if it is one of the three steps.\<close>
definition cond_moved :: "condition \<Rightarrow> condition \<Rightarrow> bool" where
  "cond_moved c c' \<longleftrightarrow> cond_Type c' = cond_Type c \<and> cond_Reason c' = cond_Reason c \<and>
     (cond_Type c \<notin> {''Accept'', ''Tasks'', ''TaskStatus''} \<longrightarrow> wire_condition c' = wire_condition c)"

text \<open>
  What a call makes of an object: entries of its round are added, unless the round is recorded already, and the
  oldest dropped; entries get results; conditions of the steps are added and set; the round may be marked as handled.
\<close>
definition status_moved :: "SnapshotPod \<Rightarrow> SnapshotPod \<Rightarrow> bool" where
  "status_moved a b \<longleftrightarrow> sp_Spec b = sp_Spec a \<and>
     (\<exists>new. (\<forall>e\<in>set new. new_entry a e) \<and> (round_recorded a \<longrightarrow> new = []) \<and>
       list_all2 entry_moved (add_entries (snaps a) new) (snaps b)) \<and>
     (\<exists>added. list_all2 cond_moved (pod_conds a @ added) (pod_conds b)) \<and>
     spst_LastTriggerRound (sp_Status b) \<in> {spst_LastTriggerRound (sp_Status a), sps_TriggerRound (sp_Spec a)}"

lemma entry_moved_refl [simp]: "entry_moved e e"
  by (simp add: entry_moved_def)

lemma entry_moved_trans: "entry_moved a b \<Longrightarrow> entry_moved b c \<Longrightarrow> entry_moved a c"
  by (simp add: entry_moved_def)

lemma cond_moved_refl [simp]: "cond_moved c c"
  by (simp add: cond_moved_def)

lemma cond_moved_trans: "cond_moved a b \<Longrightarrow> cond_moved b c \<Longrightarrow> cond_moved a c"
  by (simp add: cond_moved_def)

lemma wire_time_idem [simp]: "wire_time (wire_time t) = wire_time t"
  by (simp add: wire_time_def minus_mod_eq_mult_div)

lemma entry_moved_wire: "entry_moved e e' \<Longrightarrow> entry_moved e (wire_snapshot e')"
  by (simp add: entry_moved_def wire_snapshot_def option.map_comp comp_def)

lemma cond_moved_wire: "cond_moved c c' \<Longrightarrow> cond_moved c (wire_condition c')"
  by (auto simp: cond_moved_def wire_condition_def)

text \<open>Adding entries does not look at those that are there.\<close>
lemma add_entries_moved:
  "list_all2 entry_moved xs ys \<Longrightarrow> list_all2 entry_moved (add_entries xs new) (add_entries ys new)"
proof (induction new arbitrary: xs ys)
  case (Cons e new)
  have "list_all2 entry_moved (xs @ [e]) (ys @ [e])" using Cons.prems by (simp add: list_all2_appendI)
  then have "list_all2 entry_moved (keep_last (xs @ [e])) (keep_last (ys @ [e]))"
    using list_all2_lengthD [OF Cons.prems] by (simp add: keep_last_def del: drop_append)
  from Cons.IH [OF this] show ?case by simp
qed simp

lemma entries_moved_trans: "list_all2 entry_moved xs ys \<Longrightarrow> list_all2 entry_moved ys zs \<Longrightarrow> list_all2 entry_moved xs zs"
  by (rule list_all2_trans [OF entry_moved_trans])

lemma conds_moved_trans: "list_all2 cond_moved xs ys \<Longrightarrow> list_all2 cond_moved ys zs \<Longrightarrow> list_all2 cond_moved xs zs"
  by (rule list_all2_trans [OF cond_moved_trans])

lemma entries_moved_rounds: "list_all2 entry_moved xs ys \<Longrightarrow> srs_TriggerRound ` set ys = srs_TriggerRound ` set xs"
  by (induction rule: list_all2_induct) (auto simp: entry_moved_def)

lemma round_recorded_rounds:
  "round_recorded sp \<longleftrightarrow> spst_LastTriggerRound (sp_Status sp) = sps_TriggerRound (sp_Spec sp) \<or>
     sps_TriggerRound (sp_Spec sp) \<in> srs_TriggerRound ` set (snaps sp)"
  unfolding round_recorded_def list_ex_iff image_iff by metis

lemma status_moved_recorded: "status_moved a b \<Longrightarrow> round_recorded a \<Longrightarrow> round_recorded b"
  unfolding status_moved_def round_recorded_rounds using entries_moved_rounds by fastforce

lemma status_movedI:
  assumes "sp_Spec b = sp_Spec a" and "\<forall>e\<in>set new. new_entry a e" and "round_recorded a \<Longrightarrow> new = []"
    and "list_all2 entry_moved (add_entries (snaps a) new) (snaps b)" and "list_all2 cond_moved (pod_conds a @ added) (pod_conds b)"
    and "spst_LastTriggerRound (sp_Status b) \<in> {spst_LastTriggerRound (sp_Status a), sps_TriggerRound (sp_Spec a)}"
  shows "status_moved a b"
  using assms unfolding status_moved_def by blast

lemma status_moved_trans:
  assumes ab: "status_moved a b" and bc: "status_moved b c"
  shows "status_moved a c"
proof -
  obtain new1 added1 where 1: "\<forall>e\<in>set new1. new_entry a e" "round_recorded a \<longrightarrow> new1 = []"
      "list_all2 entry_moved (add_entries (snaps a) new1) (snaps b)" "list_all2 cond_moved (pod_conds a @ added1) (pod_conds b)"
    using ab unfolding status_moved_def by blast
  obtain new2 added2 where 2: "\<forall>e\<in>set new2. new_entry b e" "round_recorded b \<longrightarrow> new2 = []"
      "list_all2 entry_moved (add_entries (snaps b) new2) (snaps c)" "list_all2 cond_moved (pod_conds b @ added2) (pod_conds c)"
    using bc unfolding status_moved_def by blast
  have spec: "sp_Spec b = sp_Spec a" "sp_Spec c = sp_Spec b" using ab bc by (simp_all add: status_moved_def)
  show ?thesis
  proof (rule status_movedI [where new = "new1 @ new2" and added = "added1 @ added2"])
    show "\<forall>e\<in>set (new1 @ new2). new_entry a e" using 1(1) 2(1) spec by (auto simp: new_entry_def)
    show "round_recorded a \<Longrightarrow> new1 @ new2 = []" using 1(2) 2(2) status_moved_recorded [OF ab] by simp
    show "list_all2 entry_moved (add_entries (snaps a) (new1 @ new2)) (snaps c)"
      using entries_moved_trans [OF add_entries_moved [OF 1(3)] 2(3)] by simp
    have "list_all2 cond_moved (pod_conds a @ added1 @ added2) (pod_conds b @ added2)"
      using list_all2_appendI [OF 1(4), of added2 added2] by (simp add: list_all2_same)
    then show "list_all2 cond_moved (pod_conds a @ added1 @ added2) (pod_conds c)" using 2(4) by (rule conds_moved_trans)
  qed (use ab bc spec in \<open>auto simp: status_moved_def\<close>)
qed

lemma status_moved_refl: "status_moved sp sp"
  by (rule status_movedI [where new = "[]" and added = "[]"]) (simp_all add: list_all2_same)

text \<open>The object with other conditions.\<close>
lemma status_moved_conds:
  assumes "sp_Spec b = sp_Spec a" and "snaps b = snaps a" and "spst_LastTriggerRound (sp_Status b) = spst_LastTriggerRound (sp_Status a)"
    and "list_all2 cond_moved (pod_conds a @ added) (pod_conds b)"
  shows "status_moved a b"
  using assms by (intro status_movedI [where new = "[]" and added = added]) (simp_all add: list_all2_same)

text \<open>What the API server keeps of it.\<close>
lemma status_moved_written:
  assumes "status_moved a p" and "sp_status_written a p b"
  shows "status_moved a b"
proof -
  have "status_moved p b"
  proof (rule status_movedI [where new = "[]" and added = "[]"])
    show "sp_Spec b = sp_Spec p" using assms by (auto simp: status_moved_def sp_status_written_def)
    show "list_all2 entry_moved (add_entries (snaps p) []) (snaps b)" "list_all2 cond_moved (pod_conds p @ []) (pod_conds b)"
      using assms(2) by (auto simp: sp_status_written_def list_all2_map2 list_all2_same 
          intro: entry_moved_wire [OF entry_moved_refl] cond_moved_wire [OF cond_moved_refl])
  qed (use assms(2) in \<open>auto simp: sp_status_written_def\<close>)
  with assms(1) show ?thesis by (rule status_moved_trans)
qed

text \<open>A condition of one of the steps is found or added, and set.\<close>
lemma ensure_cond_moved:
  assumes "run_state (ensure_condition E n conds) s = ((conds', i), s')" and "n \<in> {''Accept'', ''Tasks'', ''TaskStatus''}"
  shows "\<exists>added. conds' = conds @ added" and "i < length conds'" and "cond_Type (conds' ! i) = n"
proof -
  have "(\<exists>added. conds' = conds @ added) \<and> i < length conds' \<and> cond_Type (conds' ! i) = n"
  proof (cases "find_index_of (\<lambda>c. cond_Type c = n) conds")
    case None
    then show ?thesis using assms(1) by (auto simp: ensure_condition_def new_condition_def simp del: run_time_now split: prod.splits)
  next
    case (Some j)
    then show ?thesis using assms(1) find_index_of_Some [OF Some] by (auto simp: ensure_condition_def)
  qed
  then show "\<exists>added. conds' = conds @ added" "i < length conds'" "cond_Type (conds' ! i) = n" by blast+
qed

lemma set_pod_condition_conds:
  "pod_conds (set_pod_condition i f sp) = (pod_conds sp)[i := f (pod_conds sp ! i)]"
  by (simp add: set_pod_condition_def set_sp_status_def)

lemma set_pod_condition_round [simp]:
  "spst_LastTriggerRound (sp_Status (set_pod_condition i f sp)) = spst_LastTriggerRound (sp_Status sp)"
  by (simp add: set_pod_condition_def set_sp_status_def)

lemma set_cond_moved:
  assumes "i < length (pod_conds sp)" and "cond_Type (pod_conds sp ! i) \<in> {''Accept'', ''Tasks'', ''TaskStatus''}"
    and "\<And>c. cond_Type (f c) = cond_Type c \<and> cond_Reason (f c) = cond_Reason c"
  shows "status_moved sp (set_pod_condition i f sp)"
proof (rule status_moved_conds [where added = "[]"])
  have "cond_moved (pod_conds sp ! j) ((pod_conds sp)[i := f (pod_conds sp ! i)] ! j)" if "j < length (pod_conds sp)" for j
    using that assms by (cases "j = i") (auto simp: cond_moved_def)
  then show "list_all2 cond_moved (pod_conds sp @ []) (pod_conds (set_pod_condition i f sp))"
    unfolding set_pod_condition_conds append_Nil2 by (intro list_all2_all_nthI) (simp_all only: length_list_update)
qed simp_all

lemma step_done_moved:
  assumes "step_done i sp1 sp3" and "i < length (pod_conds sp1)" and "cond_Type (pod_conds sp1 ! i) \<in> {''Accept'', ''Tasks'', ''TaskStatus''}"
  shows "status_moved sp1 sp3"
proof -
  let ?sp2 = "set_pod_condition i (\<lambda>c. c\<lparr>cond_Status := ConditionTrue\<rparr>) sp1"
  have 2: "status_moved sp1 ?sp2" using assms(2,3) by (intro set_cond_moved) simp_all
  have "status_moved ?sp2 (set_pod_condition i (\<lambda>c. c\<lparr>cond_LastTransitionTime := t\<rparr>) ?sp2)" for t
    using assms(2,3) by (intro set_cond_moved) (simp_all add: set_pod_condition_conds)
  with 2 show ?thesis using assms(1) status_moved_trans by (auto simp: step_done_def Let_def)
qed

context pod_ops
begin

lemma collect_moved:
  assumes "run_state (reconcileTasksStatus E sp) s = ((sp', err), s')"
  shows "status_moved sp sp' \<and> pod_conds sp' = pod_conds sp"
proof -
  note parts = status_parts [OF assms]
  have last: "spst_LastTriggerRound (sp_Status sp') = spst_LastTriggerRound (sp_Status sp)"
    using assms by (auto simp: reconcileTasksStatus_def Let_def split: sum.splits prod.splits)
  have "list_all2 entry_moved (snaps sp) (snaps sp')"
    using parts
  proof (elim conjE disjE exE)
    fix m assume "list_all2 (\<lambda>e e'. \<exists>s1 s2. run_state (update_snapshot E m e) s1 = (e', s2)) (snaps sp) (snaps sp')"
    then show ?thesis by (rule list_all2_mono) (auto simp: entry_moved_def dest!: update_snapshot_sel)
  qed (simp add: list_all2_same)
  then have "status_moved sp sp'"
    using parts last by (intro status_movedI [where new = "[]" and added = "[]"]) (simp_all add: list_all2_same)
  then show ?thesis using parts by blast
qed

lemma pod_step_status:
  assumes "(n, f) \<in> set (pod_recs E)" and "run_state (f sp) s = ((sp', err), s')"
  shows "status_moved sp sp' \<and> pod_conds sp' = pod_conds sp"
proof -
  consider (v) "f = (\<lambda>sp. do { err \<leftarrow> pod_validate E sp; State_Monad.return (sp, err) })"
    | (t) "f = reconcileTasks E" | (u) "f = reconcileTasksStatus E"
    using assms(1) by (auto simp: pod_recs_def)
  then show ?thesis
  proof cases
    case v
    then have "sp' = sp" using assms(2) by (auto split: prod.splits)
    then show ?thesis by (simp add: status_moved_refl)
  next
    case t
    with assms(2) have "run_state (reconcileTasks E sp) s = ((sp', err), s')" by simp
    then show ?thesis
    proof (rule tasks_history)
      fix new assume h: "snaps sp' = add_entries (snaps sp) new" "\<forall>e\<in>set new. new_entry sp e"
        "if round_recorded sp then new = [] \<and> err = None else
          (case fst (run_state (getPod E sp) s) of Inl e \<Rightarrow> new = [] \<and> err = Some e
           | Inr p \<Rightarrow> if err = None then map srs_ContainerName new = wanted_containers sp p
               else \<exists>c rest. wanted_containers sp p = map srs_ContainerName new @ c # rest)"
        "sp_Spec sp' = sp_Spec sp" "pod_conds sp' = pod_conds sp"
        "spst_LastTriggerRound (sp_Status sp') \<in> {spst_LastTriggerRound (sp_Status sp), sps_TriggerRound (sp_Spec sp)}"
      then show ?thesis
        by (intro conjI status_movedI [where new = new and added = "[]"]) (simp_all add: list_all2_same)
    qed
  next
    case u
    then show ?thesis using assms(2) collect_moved by blast
  qed
qed

text \<open>The whole loop.\<close>
lemma run_pod_recs_status:
  assumes "set recs \<subseteq> set (pod_recs E)" and "run_state (run_pod_recs E recs sp) s = (sp', s')"
  shows "status_moved sp sp'"
  using assms
proof (induction recs arbitrary: sp s)
  case Nil
  then show ?case by (simp add: status_moved_refl)
next
  case (Cons rec recs)
  obtain n f where rec: "rec = (n, f)" by (cases rec)
  have in_recs: "(n, f) \<in> set (pod_recs E)" and recs: "set recs \<subseteq> set (pod_recs E)" using Cons.prems(1) rec by simp_all
  have n: "n \<in> {''Accept'', ''Tasks'', ''TaskStatus''}" using in_recs by (auto simp: pod_recs_def)
  have stepped: "status_moved sp sp1 \<and> i < length (pod_conds sp1) \<and> cond_Type (pod_conds sp1 ! i) = n"
    if ens: "run_state (ensure_condition E n (pod_conds sp)) s = ((conds, i), s1)"
      and step: "run_state (f (set_sp_status (\<lambda>st. st\<lparr>spst_Conditions := conds\<rparr>) sp)) s1 = ((sp1, err), s2)" for conds i s1 sp1 err s2
  proof -
    note c = ensure_cond_moved [OF ens n]
    obtain added where added: "conds = pod_conds sp @ added" using c(1) by blast
    have "status_moved sp (set_sp_status (\<lambda>st. st\<lparr>spst_Conditions := conds\<rparr>) sp)"
      by (rule status_moved_conds [where added = added]) (simp_all add: added list_all2_same)
    with pod_step_status [OF in_recs step] c show ?thesis using status_moved_trans by auto
  qed
  from Cons.prems(2) [unfolded rec] show ?case
  proof (cases rule: pod_iteration)
    case (fails conds i s1 sp1 e)
    note m = stepped [OF fails(1,3)]
    have "status_moved sp1 sp'" unfolding fails(4) using m n by (intro set_cond_moved) simp_all
    then show ?thesis using m status_moved_trans by blast
  next
    case (goes_on conds i s1 sp1 s2 sp3 s3)
    note m = stepped [OF goes_on(1,3)]
    have "status_moved sp1 sp3" using m n by (intro step_done_moved [OF goes_on(4)]) simp_all
    with Cons.IH [OF recs goes_on(6)] m show ?thesis using status_moved_trans by blast
  qed
qed

end

section \<open>Calls and what happens between them\<close>

text \<open>Calls for one object, and anything that leaves this object alone, such as the work on its tasks.\<close>
definition meanwhile :: "'w env \<Rightarrow> ('w \<Rightarrow> (string \<times> string \<rightharpoonup> SnapshotPod)) \<Rightarrow> string \<times> string \<Rightarrow> 'w gstate \<Rightarrow> 'w gstate \<Rightarrow> bool" where
  "meanwhile E sps k s s' \<longleftrightarrow> s' = snd (run_state (Pod_Reconcile E (fst k) (snd k)) s) \<or> sps (gs_world s') k = sps (gs_world s) k"

text \<open>The target pod depends on the namespace and the spec alone.\<close>
lemma getPod_cong:
  assumes "om_Namespace (sp_meta b) = om_Namespace (sp_meta a)" and "sp_Spec b = sp_Spec a"
  shows "getPod E b = getPod E a"
  unfolding getPod_def assms by (rule refl)

lemma add_entries_last: "new \<noteq> [] \<Longrightarrow> last new \<in> set (add_entries ss new)"
proof (induction new rule: rev_induct)
  case (snoc e new)
  have "e \<in> set (keep_last (xs @ [e]))" for xs by (simp add: keep_last_def)
  then show ?case by simp
qed simp

text \<open>A step that fails half-way leaves the round recorded, and a container without an entry.\<close>
lemma partial_round:
  assumes "run_state (reconcileTasks E sp) s = ((sp', Some e), s')" and "snaps sp' \<noteq> snaps sp"
  obtains p names c rest where "fst (run_state (getPod E sp) s) = Inr p" and "wanted_containers sp p = names @ c # rest"
    and "names \<noteq> []" and "round_recorded sp'"
  using assms(1)
proof (rule tasks_history)
  fix new
  assume h: "snaps sp' = add_entries (snaps sp) new" "\<forall>e\<in>set new. new_entry sp e" "sp_Spec sp' = sp_Spec sp"
    "if round_recorded sp then new = [] \<and> Some e = None else
      (case fst (run_state (getPod E sp) s) of Inl x \<Rightarrow> new = [] \<and> Some e = Some x
       | Inr p \<Rightarrow> if Some e = None then map srs_ContainerName new = wanted_containers sp p
           else \<exists>c rest. wanted_containers sp p = map srs_ContainerName new @ c # rest)"
  have new: "new \<noteq> []" using h(1) assms(2) by auto
  then have "last new \<in> set (snaps sp')" "new_entry sp (last new)" using h(1,2) add_entries_last by auto
  then have "round_recorded sp'" unfolding round_recorded_def list_ex_iff h(3) by (auto simp: new_entry_def)
  then show thesis using h(4) new that by (auto split: if_splits sum.splits)
qed

context cluster_api
begin

text \<open>A call leaves the stored object, or moves its status.\<close>
lemma pod_call_status:
  assumes stored: "sps (gs_world s) (ns, nm) = Some sp" and run: "run_state (Pod_Reconcile E ns nm) s = (res, s')"
  shows "\<exists>p. sps (gs_world s') (ns, nm) = Some p \<and> status_moved sp p"
  using run
proof (cases rule: pod_reconcile_parts)
  case none
  then show ?thesis using stored status_moved_refl by (auto simp: still_def)
next
  case (loop sp0 s2 sp1 s3 u w4)
  then have sp0: "sp0 = sp" using stored by simp
  have m: "status_moved sp sp1" by (rule still_ops.run_pod_recs_status [OF subset_refl loop(4) [unfolded sp0]])
  note g = run_pod_recs_moves [OF subset_refl loop(4) lists_truthful]
  have key: "sp_key sp1 = (ns, nm)" using g sp_keyed [OF loop(1)] by (simp add: pod_moves_def)
  have cur: "sps (gs_world s3) (sp_key sp1) = Some sp" using g loop(3) stored key by (simp add: grown_def still_def)
  have s': "sps (gs_world s') = sps w4" using loop(6) by (simp add: still_def)
  show ?thesis
  proof (rule sp_update_effect [OF cur loop(5)])
    assume "sps w4 = sps (gs_world s3)"
    then show ?thesis using cur key s' status_moved_refl by auto
  next
    fix p assume "sp_status_written sp sp1 p" "sps w4 = (sps (gs_world s3))(sp_key sp1 \<mapsto> p)"
    then show ?thesis using status_moved_written [OF m] key s' by auto
  qed
qed

lemma meanwhile_status:
  assumes "(meanwhile E sps (ns, nm))\<^sup>*\<^sup>* s s'" and "sps (gs_world s) (ns, nm) = Some sp"
  shows "\<exists>p. sps (gs_world s') (ns, nm) = Some p \<and> status_moved sp p"
  using assms(1)
proof (induction rule: rtranclp_induct)
  case base
  then show ?case using assms(2) status_moved_refl by blast
next
  case (step t u)
  then obtain p where p: "sps (gs_world t) (ns, nm) = Some p" "status_moved sp p" by blast
  have "\<exists>q. sps (gs_world u) (ns, nm) = Some q \<and> status_moved p q"
    using step.hyps(2) p(1) pod_call_status [OF p(1) prod.collapse [symmetric]] status_moved_refl
    by (auto simp: meanwhile_def)
  then show ?case using p(2) status_moved_trans by blast
qed

text \<open>While the target pod cannot be found, the loop ends at its first step.\<close>
lemma lost_pod_loop:
  assumes lost: "\<And>t. isl (fst (run_state (getPod E sp) t))"
    and open_round: "spst_LastTriggerRound (sp_Status sp) \<noteq> sps_TriggerRound (sp_Spec sp)"
    and run: "run_state (run_pod_recs E (pod_recs E) sp) s = (sp', s')"
  shows "snaps sp' = snaps sp \<and> spst_LastTriggerRound (sp_Status sp') = spst_LastTriggerRound (sp_Status sp)"
proof -
  let ?v = "\<lambda>sp. do { err \<leftarrow> pod_validate E sp; State_Monad.return (sp, err) }"
  have invalid: "\<exists>e. run_state (?v x) t = ((x, Some e), snd (run_state (getPod E sp) t))"
    if "sp_Spec x = sp_Spec sp" "sp_meta x = sp_meta sp"
      "spst_LastTriggerRound (sp_Status x) = spst_LastTriggerRound (sp_Status sp)" for x t
  proof -
    obtain e t' where "run_state (getPod E sp) t = (Inl e, t')" using lost [of t] by (metis isl_def prod.collapse)
    moreover have "getPod E x = getPod E sp" using that by (intro getPod_cong) simp_all
    ultimately show ?thesis using open_round that by (simp add: pod_validate_def)
  qed
  from run [unfolded pod_recs_def] show ?thesis
  proof (cases rule: still_ops.pod_iteration)
    case (fails conds i s1 sp1 e)
    then show ?thesis using invalid [of "set_sp_status (\<lambda>st. st\<lparr>spst_Conditions := conds\<rparr>) sp" s1] by auto
  next
    case (goes_on conds i s1 sp1 s2 sp3 s3)
    then show ?thesis using invalid [of "set_sp_status (\<lambda>st. st\<lparr>spst_Conditions := conds\<rparr>) sp" s1] by auto
  qed
qed

lemma lost_pod_call:
  assumes stored: "sps (gs_world s) (ns, nm) = Some sp" and run: "run_state (Pod_Reconcile E ns nm) s = (res, s')"
    and lost: "\<And>t. isl (fst (run_state (getPod E sp) t))"
    and open_round: "spst_LastTriggerRound (sp_Status sp) \<noteq> sps_TriggerRound (sp_Spec sp)"
  shows "\<exists>p. sps (gs_world s') (ns, nm) = Some p \<and> sp_Spec p = sp_Spec sp \<and> map srs_TaskName (snaps p) = map srs_TaskName (snaps sp) \<and>
    map srs_Result (snaps p) = map srs_Result (snaps sp) \<and>
    spst_LastTriggerRound (sp_Status p) = spst_LastTriggerRound (sp_Status sp)"
  using run
proof (cases rule: pod_reconcile_parts)
  case none
  then show ?thesis using stored by (auto simp: still_def)
next
  case (loop sp0 s2 sp1 s3 u w4)
  then have sp0: "sp0 = sp" using stored by simp
  note m = lost_pod_loop [OF lost open_round loop(4) [unfolded sp0]]
  note g = run_pod_recs_moves [OF subset_refl loop(4) lists_truthful]
  have key: "sp_key sp1 = (ns, nm)" using g sp_keyed [OF loop(1)] by (simp add: pod_moves_def)
  have cur: "sps (gs_world s3) (sp_key sp1) = Some sp" using g loop(3) stored key by (simp add: grown_def still_def)
  have s': "sps (gs_world s') = sps w4" using loop(6) by (simp add: still_def)
  show ?thesis
  proof (rule sp_update_effect [OF cur loop(5)])
    assume "sps w4 = sps (gs_world s3)"
    then show ?thesis using cur key s' by auto
  next
    fix p assume "sp_status_written sp sp1 p" "sps w4 = (sps (gs_world s3))(sp_key sp1 \<mapsto> p)"
    then show ?thesis using m key s' by (auto simp: sp_status_written_def comp_def)
  qed
qed

lemma lost_pod_meanwhile:
  assumes "(meanwhile E sps (ns, nm))\<^sup>*\<^sup>* s s'" and stored: "sps (gs_world s) (ns, nm) = Some sp"
    and lost: "\<And>t. isl (fst (run_state (getPod E sp) t))"
    and open_round: "spst_LastTriggerRound (sp_Status sp) \<noteq> sps_TriggerRound (sp_Spec sp)"
  shows "\<exists>p. sps (gs_world s') (ns, nm) = Some p \<and> sp_Spec p = sp_Spec sp \<and> map srs_TaskName (snaps p) = map srs_TaskName (snaps sp) \<and>
    map srs_Result (snaps p) = map srs_Result (snaps sp) \<and>
    spst_LastTriggerRound (sp_Status p) = spst_LastTriggerRound (sp_Status sp)"
  using assms(1)
proof (induction rule: rtranclp_induct)
  case base
  then show ?case using stored by blast
next
  case (step t u)
  then obtain p where p: "sps (gs_world t) (ns, nm) = Some p" "sp_Spec p = sp_Spec sp"
      "map srs_TaskName (snaps p) = map srs_TaskName (snaps sp)" "map srs_Result (snaps p) = map srs_Result (snaps sp)"
      "spst_LastTriggerRound (sp_Status p) = spst_LastTriggerRound (sp_Status sp)" by blast
  have "sp_key p = sp_key sp" using sp_keyed [OF p(1)] sp_keyed [OF stored] by simp
  then have "getPod E p = getPod E sp" using p(2) by (intro getPod_cong) simp_all
  then show ?case using step.hyps(2) lost_pod_call [OF p(1) prod.collapse [symmetric]] lost open_round p
    by (auto simp: meanwhile_def)
qed

end

section \<open>Properties\<close>

text \<open>C28: which entries a new round leaves. The step that starts a round adds one entry for each wanted container
  of the pod it finds, in their order, up to the first that fails; nothing is added if the round is recorded
  already or the pod is not found. Of the \<open>n\<close> entries, old and new, the newest are kept: all of them up to 20, and each time
  a 21st comes, the last 5, so that between 5 and 20 are left.\<close>
theorem snapshot_history_bounded:
  assumes "run_state (reconcileTasks E sp) s = ((sp', err), s')" and "length (snaps sp) \<le> 20"
  shows "\<exists>new. let n = length (snaps sp) + length new in
      snaps sp' = drop (n - (if n \<le> 20 then n else 5 + (n - 21) mod 16)) (snaps sp @ new) \<and>
      (\<forall>e\<in>set new. srs_TriggerRound e = sps_TriggerRound (sp_Spec sp) \<and> srs_Result e = ResultCreated) \<and>
      (if round_recorded sp then new = [] \<and> err = None else
        (case fst (run_state (getPod E sp) s) of Inl e \<Rightarrow> new = [] \<and> err = Some e
         | Inr p \<Rightarrow> if err = None then map srs_ContainerName new = wanted_containers sp p
             else \<exists>c rest. wanted_containers sp p = map srs_ContainerName new @ c # rest))"
  using assms(1)
proof (rule tasks_history)
  fix new
  assume h: "snaps sp' = add_entries (snaps sp) new" "\<forall>e\<in>set new. new_entry sp e"
    "if round_recorded sp then new = [] \<and> err = None else
      (case fst (run_state (getPod E sp) s) of Inl e \<Rightarrow> new = [] \<and> err = Some e
       | Inr p \<Rightarrow> if err = None then map srs_ContainerName new = wanted_containers sp p
           else \<exists>c rest. wanted_containers sp p = map srs_ContainerName new @ c # rest)"
  show ?thesis
    using h(2,3) add_entries_closed [OF assms(2), of new] unfolding h(1) Let_def kept_of_def
    by (intro exI [of _ new] conjI) (simp_all add: new_entry_def)
qed

text \<open>A full history, and a round for two containers: of 22 entries 6 are left.\<close>
definition full_sp :: SnapshotPod where
  "full_sp = set_sp_status (\<lambda>st. st\<lparr>spst_Snapshots := replicate 20 \<lparr>srs_TriggerRound = 0, srs_TriggerTime = 0,
     srs_TaskName = ''snap-0-app'', srs_ImageRef = ''nginx:s'', srs_ContainerName = ''app'', srs_Result = ResultSuccess,
     srs_FailedReason = [], srs_CompletedAt = None\<rparr>\<rparr>) sample_sp"

abbreviation full_run :: "(SnapshotPod \<times> go_error option) \<times> sim_world gstate" where
  "full_run \<equiv> run_state (reconcileTasks sim_env full_sp) (sim_state pod_world)"

theorem snapshot_history_bounded_witness:
  "\<exists>new. map srs_ContainerName new = [''app'', ''log''] \<and> snaps (fst (fst full_run)) = drop 16 (snaps full_sp @ new) \<and>
    length (snaps (fst (fst full_run))) = 6"
proof -
  have ok: "snd (fst full_run) = None" by code_simp
  have get: "fst (run_state (getPod sim_env full_sp) (sim_state pod_world)) = Inr sample_pod" by code_simp
  have wanted: "wanted_containers full_sp sample_pod = [''app'', ''log'']" by code_simp
  have len: "length (snaps full_sp) = 20" and fresh: "\<not> round_recorded full_sp"
    by (simp_all add: full_sp_def round_recorded_def sample_sp_def list_ex_iff)
  have run: "full_run = ((fst (fst full_run), None), snd full_run)" using ok by (metis prod.collapse)
  from snapshot_history_bounded [OF run eq_imp_le [OF len]] show ?thesis
  proof (elim exE, goal_cases)
    case (1 new)
    then show ?case using len fresh get wanted by (intro exI [of _ new]) (auto simp: Let_def)
  qed
qed


text \<open>The same cluster with one fault: the second creation of a task times out. Then the object is stored.\<close>
abbreviation half_run :: "(SnapshotPod \<times> go_error option) \<times> sim_world gstate" where
  "half_run \<equiv> run_state (reconcileTasks sim_env sample_sp) (sim_state (pod_world\<lparr>sw_fault := (\<lambda>n. n = 2)\<rparr>))"

definition half_stored :: "sim_world gstate" where
  "half_stored = sim_state (gs_world (snd half_run)\<lparr>sw_sps := [((''default'', ''snap''), fst (fst half_run))]\<rparr>)"


end
