(* ===== verification/SharedPods.thy ===== *)
theory SharedPods
  imports SharedTasks PodHistory
begin

text \<open>
  A call of the \<^verbatim>\<open>SnapshotPod\<close> controller, and one of the webhook, among other calls. The steps of the
  controller are those of \<open>pod_steps\<close>, whose frame is now the turns of the call and of the others. An object
  that others have written since it was read is not overwritten.
\<close>

section \<open>The SnapshotPod controller among others\<close>

text \<open>
  A write of a call for the object \<open>k\<close>: refused, a new task, or the object as it is stored at that moment
  with its status moved on: entries of the round added to the stored history, entries that had no
  result given one, conditions of the steps set. Nothing else of the stored object changes but its version.
\<close>
definition pod_call_writes ::
  "('w \<Rightarrow> (string \<times> string \<rightharpoonup> SnapshotPodTask)) \<Rightarrow> ('w \<Rightarrow> (string \<times> string \<rightharpoonup> SnapshotPod)) \<Rightarrow>
    string \<times> string \<Rightarrow> 'w \<Rightarrow> 'w \<Rightarrow> bool" where
  "pod_call_writes tasks sps k w w' \<longleftrightarrow>
     sps w' = sps w \<and> (tasks w' = tasks w \<or>
       (\<exists>j u. tasks w j = None \<and> tasks w' = (tasks w)(j \<mapsto> u) \<and> spt_Status u = empty_task_status)) \<or>
     tasks w' = tasks w \<and> (\<exists>a b. sps w k = Some a \<and> sps w' = (sps w)(k \<mapsto> b) \<and>
       sp_meta b = (sp_meta a)\<lparr>om_ResourceVersion := sp_version b\<rparr> \<and> (b = a \<or> sp_version a < sp_version b) \<and>
       status_moved a b \<and> snaps_ok (tasks w) (snaps b))"

lemma pod_call_writes_legal: "pod_call_writes tasks sps k w w' \<Longrightarrow> pod_writes tasks sps k w w'"
  unfolding pod_call_writes_def pod_writes_def status_moved_def by blast

sublocale shared_cluster \<subseteq> by_pod: shared_calls E tasks sps nodes past others "pod_call_writes tasks sps key" for key
proof
  show "pod_call_writes tasks sps key w w'" if "tasks w' = tasks w" "sps w' = sps w" for w w'
    using that by (simp add: pod_call_writes_def)
  show "legal tasks sps w w'" if "pod_call_writes tasks sps key w w'" for w w'
    using that by (intro legal.pod pod_call_writes_legal)
qed

context shared_cluster
begin

lemma shared_create: "keeps (takes_turns (sound tasks sps) (pod_call_writes tasks sps key) others) (in_world (among others (env_create_task E t)))"
proof (rule keepsI)
  fix s x s' assume "run_state (in_world (among others (env_create_task E t))) s = (x, s')"
  then have s': "s' = s\<lparr>gs_world := snd (run_state (env_create_task E t) (others (gs_world s)))\<rparr>" by simp
  obtain y w where run: "run_state (among others (env_create_task E t)) (gs_world s) = (y, w)" by (metis prod.collapse)
  have "run_state (env_create_task E t) (others (gs_world s)) = (y, w)" using run by simp
  note e = cluster_store.create_effect [OF cluster_store_axioms this]
  have "pod_call_writes tasks sps key (others (gs_world s)) w"
  proof (cases "tasks w = tasks (others (gs_world s))")
    case True
    then show ?thesis using e by (simp add: pod_call_writes_def)
  next
    case False
    then obtain t' where t': "tasks (others (gs_world s)) (task_key t) = None" "created t t'"
        "tasks w = (tasks (others (gs_world s)))(task_key t \<mapsto> t')" using e by blast
    have "spt_Status t' = empty_task_status" using t'(2) by (auto simp: created_def)
    then show ?thesis using e t'(1,3) unfolding pod_call_writes_def by blast
  qed
  from by_pod.among_turn [OF run this] show "takes_turns (sound tasks sps) (pod_call_writes tasks sps key) others s s'"
    using run by (simp add: s')
qed

text \<open>A listing of tasks: a task that it shows completed is completed.\<close>
lemma shared_listed:
  assumes "sound tasks sps (gs_world s)" and "run_state (env_list_tasks (shared E past others) lbl) (gs_world s) = (Inr ts, w)"
    and "t \<in> set ts" and "sptst_Phase (spt_Status t) = PhaseCompleted"
  shows "completed_task (tasks w) (om_Name (spt_meta t))"
proof -
  obtain v where v: "Inr ts = fst (run_state (env_list_tasks E lbl) v)" "onward tasks sps v w"
    by (rule read_past [OF assms(2) [unfolded shared_sel] assms(1) list_tasks_tasks list_tasks_sps])
  have "tasks v (task_key t) = Some t" using list_tasks_ok [OF v(1) [symmetric]] assms(3) by blast
  then have "completed_task (tasks v) (om_Name (spt_meta t))" using assms(4) unfolding completed_task_def by blast
  then show ?thesis using v(2) tasks_since_completed unfolding onward_def by blast
qed

end

text \<open>The steps of the controller, with the turns as their frame.\<close>
sublocale shared_cluster \<subseteq> pod_turns: pod_steps "takes_turns (sound tasks sps) (pod_call_writes tasks sps key) others"
    "shared E past others" tasks "\<lambda>s. sound tasks sps (gs_world s)" for key
proof
  let ?R = "takes_turns (sound tasks sps) (pod_call_writes tasks sps key) others"
  show "keeps ?R (time_now (shared E past others))" using by_pod.keeps_quiet [OF still_now] by simp
  show "keeps ?R (emit ops)" for ops by (rule by_pod.keeps_quiet [OF still_ops.R_emit])
  show "keeps ?R (in_world (env_get_pod (shared E past others) ns nm))" for ns nm
    using by_pod.keeps_quiet [OF still_ops.R_get_pod] by simp
  show "keeps ?R (in_world (env_list_pods (shared E past others) ns sel))" for ns sel
    using by_pod.keeps_quiet [OF still_ops.R_list_pods] by simp
  show "keeps ?R (in_world (env_uuid (shared E past others)))" using by_pod.keeps_quiet [OF still_ops.R_uuid] by simp
  show "keeps ?R (in_world (env_map_order (shared E past others) ks))" for ks
    using by_pod.keeps_quiet [OF still_ops.R_order] by simp
  show "keeps ?R (in_world (env_list_tasks (shared E past others) lbl))" for lbl
    unfolding shared_sel by (rule by_pod.keeps_among [OF list_tasks_tasks list_tasks_sps])
  show "keeps ?R (in_world (env_create_task (shared E past others) t))" for t
    unfolding shared_sel by (rule shared_create)
next
  fix s s' :: "'w gstate" and x
  assume r: "takes_turns (sound tasks sps) (pod_call_writes tasks sps key) others s s'" and ok: "sound tasks sps (gs_world s)"
  show "sound tasks sps (gs_world s')" using r ok by (simp add: takes_turns_def)
  show "completed_task (tasks (gs_world s)) x \<Longrightarrow> completed_task (tasks (gs_world s')) x"
    using by_pod.turns_onward [OF r ok] tasks_since_completed unfolding onward_def by blast
qed (rule shared_listed)

context shared_cluster
begin

text \<open>An object that was read and is stored with another version is behind for good.\<close>
lemma sp_onward:
  assumes "onward tasks sps v w" and "sps v k = Some a"
  obtains "sps w k = Some a" | b where "sps w k = Some b" and "sp_version a < sp_version b"
  using assms unfolding onward_def by blast

text \<open>The final update of a status: refused, or on top of the object the call has read.\<close>
lemma shared_status_update:
  assumes ok: "sound tasks sps (gs_world s)" and key: "sp_key p = key" and read: "onward tasks sps v (gs_world s)" "sps v key = Some a"
    and same: "sp_meta p = sp_meta a" and moved: "status_moved a p" and snaps: "sps (gs_world s) key = Some a \<Longrightarrow> snaps_ok (tasks (gs_world s)) (snaps p)"
    and upd: "run_state (env_update_snapshotpod_status (shared E past others) p) (gs_world s) = (u, w)"
  shows "takes_turns (sound tasks sps) (pod_call_writes tasks sps key) others s (s\<lparr>gs_world := w\<rparr>)"
proof -
  let ?w = "others (gs_world s)"
  have upd': "run_state (among others (env_update_snapshotpod_status E p)) (gs_world s) = (u, w)"
    and upd1: "run_state (env_update_snapshotpod_status E p) ?w = (u, w)" using upd by simp_all
  have ts: "tasks w = tasks ?w" using update_sp_tasks [of p ?w] upd1 by simp
  note others = others_onward [OF ok]
  have "pod_call_writes tasks sps key ?w w"
  proof (rule sp_onward [OF onward_trans [OF read(1) others] read(2)])
    assume cur: "sps ?w key = Some a"
    have "sps (gs_world s) key = Some a"
    proof (rule sp_onward [OF read])
      fix b assume b: "sps (gs_world s) key = Some b" "sp_version a < sp_version b"
      show ?thesis by (rule sp_onward [OF others b(1)]) (use cur b(2) in auto)
    qed
    from snaps [OF this] have ok': "snaps_ok (tasks ?w) (snaps p)"
      using snaps_ok_done [of "tasks (gs_world s)" "tasks ?w"] others tasks_since_completed unfolding onward_def by blast
    have cur': "sps ?w (sp_key p) = Some a" using cur key by simp
    show ?thesis
    proof (rule sp_update_effect [OF cur' upd1])
      assume "sps w = sps ?w"
      then show ?thesis using ts by (simp add: pod_call_writes_def)
    next
      fix p' assume p': "sp_status_written a p p'" "sps w = (sps ?w)(sp_key p \<mapsto> p')"
      have "p' = a \<or> sp_version a < sp_version p'" using sp_grows [OF cur' upd1] p'(2) by simp
      moreover have "sp_meta p' = (sp_meta a)\<lparr>om_ResourceVersion := sp_version p'\<rparr>" "snaps_ok (tasks ?w) (snaps p')"
        using p'(1) ok' by (auto simp: sp_status_written_def)
      moreover have "status_moved a p'" by (rule status_moved_written [OF moved p'(1)])
      ultimately show ?thesis using p'(2) ts cur key unfolding pod_call_writes_def by blast
    qed
  next
    fix b assume "sps ?w key = Some b" "sp_version a < sp_version b"
    then have "outdated (sps ?w) sp_version (sp_key p) p" using key same by (auto simp: outdated_def)
    from sp_refused [OF this upd1] ts show ?thesis by (simp add: pod_call_writes_def)
  qed
  then show ?thesis by (rule by_pod.among_turn [OF upd'])
qed

text \<open>A call of the \<^verbatim>\<open>SnapshotPod\<close> controller among others.\<close>
lemma shared_pod_call:
  assumes ok: "sound tasks sps (gs_world s)"
    and run: "run_state (Pod_Reconcile (shared E past others) ns nm) s = (res, s')"
  shows "takes_turns (sound tasks sps) (pod_call_writes tasks sps (ns, nm)) others s s'"
proof -
  let ?R = "takes_turns (sound tasks sps) (pod_call_writes tasks sps (ns, nm)) others"
  have get: "?R s1 (s1\<lparr>gs_world := w\<rparr>)"
    if "run_state (env_get_snapshotpod (shared E past others) ns nm) (gs_world s1) = (x, w)" for s1 x w
    using keepsD [OF by_pod.keeps_among [of "env_get_snapshotpod E ns nm"], of s1 x "s1\<lparr>gs_world := w\<rparr>"] that
      get_sp_tasks get_sp_sps by simp
  from run show ?thesis
  proof (cases rule: pod_turns.pod_call_parts [where key = "(ns, nm)"])
    case (none s1 got w)
    show ?thesis by (rule turns_frame.trans_R [OF none(1) turns_frame.trans_R [OF get [OF none(2)] none(3)]])
  next
    case (loop s1 sp w sp1 s3 u w4)
    let ?s2 = "s1\<lparr>gs_world := w\<rparr>"
    have s2: "?R s ?s2" by (rule turns_frame.trans_R [OF loop(1) get [OF loop(2)]])
    have ok1: "sound tasks sps (gs_world s1)" using loop(1) ok by (simp add: takes_turns_def)
    obtain v where read: "Inr sp = fst (run_state (env_get_snapshotpod E ns nm) v)" and v: "onward tasks sps v w"
      and "sound tasks sps w"
      by (rule read_past [OF loop(2) [unfolded shared_sel] ok1 get_sp_tasks get_sp_sps])
    then have ok2: "sound tasks sps (gs_world ?s2)" by simp
    have stored: "sps v (ns, nm) = Some sp" by (rule get_sp_ok [OF read [symmetric]])
    note m = pod_turns.run_pod_recs_frame [OF subset_refl loop(4) ok2, of "(ns, nm)"]
    have r3: "?R ?s2 s3" and meta: "sp_meta sp1 = sp_meta sp" using m by (simp_all add: pod_moves_def)
    have ok3: "sound tasks sps (gs_world s3)" using r3 ok2 by (simp add: takes_turns_def)
    have on3: "onward tasks sps w (gs_world s3)" using by_pod.turns_onward [OF r3 ok2] by simp
    have key: "sp_key sp1 = (ns, nm)" using sp_keyed [OF stored] meta by simp
    have snaps: "snaps_ok (tasks (gs_world s3)) (snaps sp1)" if cur: "sps (gs_world s3) (ns, nm) = Some sp"
    proof -
      have "sps w (ns, nm) = Some sp"
      proof (rule sp_onward [OF v stored])
        fix b assume b: "sps w (ns, nm) = Some b" "sp_version sp < sp_version b"
        show ?thesis by (rule sp_onward [OF on3 b(1)]) (use cur b(2) in auto)
      qed
      then have "snaps_ok (tasks (gs_world ?s2)) (snaps sp)" using ok2 unfolding sound_def by simp
      then show ?thesis using m by (simp add: pod_moves_def)
    qed
    have moved: "status_moved sp sp1" by (rule pod_turns.run_pod_recs_status [OF subset_refl loop(4)])
    note u = shared_status_update [OF ok3 key onward_trans [OF v on3] stored meta moved snaps loop(5)]
    show ?thesis using turns_frame.trans_R [OF s2] turns_frame.trans_R [OF r3] turns_frame.trans_R [OF u loop(6)] by blast
  qed
qed

end

section \<open>The webhook among others\<close>

sublocale shared_cluster \<subseteq> by_webhook: shared_calls E tasks sps nodes past others "webhook_writes tasks sps"
proof
  show "webhook_writes tasks sps w w'" if "tasks w' = tasks w" "sps w' = sps w" for w w'
    using that by (simp add: webhook_writes_def)
  show "legal tasks sps w w'" if "webhook_writes tasks sps w w'" for w w'
    using that by (rule legal.webhook)
qed

context shared_cluster
begin

text \<open>One more round for an object that was listed: refused, or on top of that object.\<close>
lemma shared_raise:
  assumes ok: "sound tasks sps w1" and listed: "onward tasks sps v w1" "sps v (sp_key sp) = Some sp"
    and upd: "run_state (env_update_snapshotpod E (next_round sp)) (others w1) = (u, w)"
  shows "webhook_writes tasks sps (others w1) w"
proof -
  let ?w = "others w1"
  have ts: "tasks w = tasks ?w" using update_spec_tasks [of "next_round sp" ?w] upd by simp
  show ?thesis
  proof (rule sp_onward [OF onward_trans [OF listed(1) others_onward [OF ok]] listed(2)])
    assume cur: "sps ?w (sp_key sp) = Some sp"
    have key: "sp_key (next_round sp) = sp_key sp" by simp
    from raise_stored [OF cur upd] show ?thesis
    proof
      assume "sps w = sps ?w"
      then show ?thesis using ts by (simp add: webhook_writes_def)
    next
      assume "\<exists>sp'. round_bumped sp sp' \<and> sps w = (sps ?w)(sp_key sp \<mapsto> sp')"
      then obtain sp' where sp': "round_bumped sp sp'" "sps w = (sps ?w)(sp_key sp \<mapsto> sp')" by blast
      then have "sp' = sp \<or> sp_version sp < sp_version sp'"
        using spec_grows [OF _ upd] cur key by simp
      then show ?thesis using sp' ts cur unfolding webhook_writes_def by blast
    qed
  next
    fix b assume "sps ?w (sp_key sp) = Some b" "sp_version sp < sp_version b"
    then have "outdated (sps ?w) sp_version (sp_key sp) sp" by (auto simp: outdated_def)
    from stale_raise [OF this upd] ts show ?thesis by (simp add: webhook_writes_def)
  qed
qed

lemma shared_list_sps:
  "keeps (takes_turns (sound tasks sps) (webhook_writes tasks sps) others) (in_world (env_list_snapshotpods (shared E past others) n))"
  unfolding shared_sel by (rule by_webhook.keeps_among [OF list_sps_tasks list_sps_quiet])

lemma shared_pod_update:
  "keeps (takes_turns (sound tasks sps) (webhook_writes tasks sps) others) (handlePodUpdate (shared E past others) ns p)"
    (is "keeps ?R _")
proof (rule keepsI)
  fix s res s' assume run: "run_state (handlePodUpdate (shared E past others) ns p) s = (res, s')"
  let ?list = "env_list_snapshotpods (shared E past others) (Some ns)"
  obtain x w1 where list: "run_state ?list (gs_world s) = (x, w1)" by (metis prod.collapse)
  have r1: "?R s (s\<lparr>gs_world := w1\<rparr>)" using keepsD [OF shared_list_sps, of "Some ns" s] list by simp
  have same: "?R s t = ?R s s'" if "gs_world t = gs_world s'" for t using that by (simp add: takes_turns_def)
  have if_ok: "?R s s'" if "sound tasks sps (gs_world s) \<Longrightarrow> ?R s s'" using that by (auto simp: takes_turns_def)
  from update_parts [OF run] show "?R s s'"
  proof (elim disjE exE conjE)
    assume "gs_world s' = snd (run_state ?list (gs_world s))"
    then show ?thesis using r1 same [of "s\<lparr>gs_world := w1\<rparr>"] list by simp
  next
    fix sp assume found: "to_raise (shared E past others) (gs_world s) ns p sp"
      and s': "gs_world s' = snd (run_state (env_update_snapshotpod (shared E past others) (next_round sp)) (snd (run_state ?list (gs_world s))))"
    obtain items where items: "x = Inr items" "sp \<in> set items"
      using found list unfolding to_raise_def by (auto simp: find_Some_iff)
    obtain u w where upd: "run_state (among others (env_update_snapshotpod E (next_round sp))) w1 = (u, w)"
      by (metis prod.collapse)
    then have w: "w = gs_world s'" using s' list by simp
    show ?thesis
    proof (rule if_ok)
      assume ok: "sound tasks sps (gs_world s)"
      obtain v where v: "Inr items = fst (run_state (env_list_snapshotpods E (Some ns)) v)" "onward tasks sps v w1" "sound tasks sps w1"
        by (rule read_past [OF list [unfolded shared_sel items(1)] ok list_sps_tasks list_sps_quiet])
      have "sps v (sp_key sp) = Some sp" using list_sps_ok [OF v(1) [symmetric]] items(2) by blast
      from shared_raise [OF v(3,2) this] upd have "webhook_writes tasks sps (others w1) w" by simp
      moreover have "run_state (among others (env_update_snapshotpod E (next_round sp))) (gs_world (s\<lparr>gs_world := w1\<rparr>)) = (u, w)"
        using upd by simp
      note by_webhook.among_turn [OF this]
      ultimately have "?R (s\<lparr>gs_world := w1\<rparr>) (s\<lparr>gs_world := w\<rparr>)" by simp
      from turns_frame.trans_R [OF r1 this] show ?thesis using same [of "s\<lparr>gs_world := w\<rparr>"] w by simp
    qed
  qed
qed

text \<open>A call of the webhook among others.\<close>
lemma shared_webhook_call:
  assumes "run_state (Webhook_Handle (shared E past others) srt rq) s = (rs, s')"
  shows "takes_turns (sound tasks sps) (webhook_writes tasks sps) others s s'"
proof -
  have "keeps (takes_turns (sound tasks sps) (webhook_writes tasks sps) others) (in_world (env_map_order (shared E past others) ks))" for ks
    using by_webhook.keeps_quiet [OF still_ops.R_order] by simp
  then have "keeps (takes_turns (sound tasks sps) (webhook_writes tasks sps) others) (Webhook_Handle (shared E past others) srt rq)"
    unfolding Webhook_Handle_def handlePodCreate_def Let_def
    by (cases "rq_Operation rq") (auto intro!: turns_frame.keeps_rules shared_list_sps shared_pod_update)
  from keepsD [OF this assms] show ?thesis .
qed

end

end
