(* ===== verification/SharedTheorems.thy ===== *)
theory SharedTheorems
  imports SharedPods
begin

text \<open>
  The properties of calls that run at the same time, and two races: a task that another replica completes
  while a node works on it, and a \<^verbatim>\<open>SnapshotPod\<close> that a user edits while it is reconciled.
\<close>

section \<open>Calls are legal writes\<close>

context shared_calls
begin

lemma turns_legal:
  assumes "takes_turns (sound tasks sps) own others s s'" and ok: "sound tasks sps (gs_world s)"
  shows "(legal tasks sps)\<^sup>*\<^sup>* (gs_world s) (gs_world s') \<and> sound tasks sps (gs_world s')"
proof -
  have "(turn own others)\<^sup>*\<^sup>* (gs_world s) (gs_world s')" using assms by (simp add: takes_turns_def)
  then show ?thesis
  proof (induction rule: rtranclp_induct)
    case (step v w)
    have v: "sound tasks sps v" using step.IH by blast
    from step.hyps(2) have "(legal tasks sps)\<^sup>*\<^sup>* v w"
      by cases (auto intro: own_legal others_legal [OF v])
    moreover from this have "sound tasks sps w" using legal_run_onward v by (fastforce simp: onward_def)
    ultimately show ?case using step.IH by (meson rtranclp_trans)
  qed (simp add: ok)
qed

end

text \<open>A call of a controller or of the webhook, among any others.\<close>
inductive concurrent_call ::
  "('w \<Rightarrow> (string \<times> string \<rightharpoonup> SnapshotPodTask)) \<Rightarrow> ('w \<Rightarrow> (string \<times> string \<rightharpoonup> SnapshotPod)) \<Rightarrow>
    'w SnapshotPodTaskReconciler set \<Rightarrow> 'w gstate \<Rightarrow> 'w gstate \<Rightarrow> bool" for tasks sps nodes where
  task_call: "shared_cluster E tasks sps nodes past others \<Longrightarrow> r \<in> nodes \<Longrightarrow>
    run_state (Task_Reconcile (shared E past others) r ns nm) s = (res, s') \<Longrightarrow> concurrent_call tasks sps nodes s s'"
| pod_call: "shared_cluster E tasks sps nodes past others \<Longrightarrow>
    run_state (Pod_Reconcile (shared E past others) ns nm) s = (res', s') \<Longrightarrow> concurrent_call tasks sps nodes s s'"
| webhook_call: "shared_cluster E tasks sps nodes past others \<Longrightarrow>
    run_state (Webhook_Handle (shared E past others) srt rq) s = (rs, s') \<Longrightarrow> concurrent_call tasks sps nodes s s'"

context shared_cluster
begin

lemma task_call_legal:
  assumes "r \<in> nodes" and "sound tasks sps (gs_world s)" and "run_state (Task_Reconcile (shared E past others) r ns nm) s = (res, s')"
  shows "(legal tasks sps)\<^sup>*\<^sup>* (gs_world s) (gs_world s') \<and> sound tasks sps (gs_world s')"
  by (rule by_task.turns_legal [OF shared_task_call [OF assms] assms(2)])

lemma pod_call_legal:
  assumes "sound tasks sps (gs_world s)" and "run_state (Pod_Reconcile (shared E past others) ns nm) s = (res, s')"
  shows "(legal tasks sps)\<^sup>*\<^sup>* (gs_world s) (gs_world s') \<and> sound tasks sps (gs_world s')"
  by (rule by_pod.turns_legal [OF shared_pod_call [OF assms] assms(1)])

lemma webhook_call_legal:
  assumes "sound tasks sps (gs_world s)" and "run_state (Webhook_Handle (shared E past others) srt rq) s = (rs, s')"
  shows "(legal tasks sps)\<^sup>*\<^sup>* (gs_world s) (gs_world s') \<and> sound tasks sps (gs_world s')"
  by (rule by_webhook.turns_legal [OF shared_webhook_call [OF assms(2)] assms(1)])

end

lemma concurrent_call_legal:
  assumes "concurrent_call tasks sps nodes s s'" and ok: "sound tasks sps (gs_world s)"
  shows "(legal tasks sps)\<^sup>*\<^sup>* (gs_world s) (gs_world s') \<and> sound tasks sps (gs_world s')"
  using assms(1)
proof cases
  case (task_call E past others r ns nm res)
  then show ?thesis using shared_cluster.task_call_legal ok by blast
next
  case (pod_call E past others ns nm res)
  then show ?thesis using shared_cluster.pod_call_legal ok by blast
next
  case (webhook_call E past others srt rq rs)
  then show ?thesis using shared_cluster.webhook_call_legal ok by blast
qed

lemma concurrent_calls_legal:
  assumes "(concurrent_call tasks sps nodes)\<^sup>*\<^sup>* s s'" and "sound tasks sps (gs_world s)"
  shows "(legal tasks sps)\<^sup>*\<^sup>* (gs_world s) (gs_world s') \<and> sound tasks sps (gs_world s')"
  using assms
proof (induction rule: rtranclp_induct)
  case (step t u)
  then show ?case using concurrent_call_legal [OF step.hyps(2)] by (meson rtranclp_trans)
qed simp

section \<open>Two races\<close>

interpretation sim_alone: shared_cluster sim_env sim_task_store sim_sp_store "{sim_reconciler}" id id
  by (intro shared_cluster.intro locked_cluster.intro sim_one.cluster_axioms sim_one.cluster_base_axioms
    sim_versions.versioned_store_axioms shared_cluster_axioms.intro) simp_all

abbreviation sim_sound :: "sim_world \<Rightarrow> bool" where "sim_sound \<equiv> sound sim_task_store sim_sp_store"
abbreviation sim_legal :: "sim_world \<Rightarrow> sim_world \<Rightarrow> bool" where "sim_legal \<equiv> legal sim_task_store sim_sp_store"

text \<open>Another replica of the node, which works on the task as soon as something has been read.\<close>
definition rival_call :: "sim_world \<Rightarrow> sim_world" where
  "rival_call w = gs_world (snd (run_state (Task_Reconcile sim_env sim_reconciler ''default'' ''snap-1-app'') (sim_state w)))"

fun rival_if :: "bool \<Rightarrow> sim_world \<Rightarrow> sim_world" where
  "rival_if True w = rival_call w"
| "rival_if False w = w"

definition rival :: "sim_world \<Rightarrow> sim_world" where
  "rival w = rival_if (sw_calls w \<noteq> 0) w"

text \<open>A user who raises the trigger round of every object as soon as something has been read.\<close>
definition raise_round :: "SnapshotPod \<Rightarrow> SnapshotPod" where
  "raise_round p = p\<lparr>sp_Spec := (sp_Spec p)\<lparr>sps_TriggerRound := 2\<rparr>,
     sp_meta := (sp_meta p)\<lparr>om_ResourceVersion := Suc (om_ResourceVersion (sp_meta p))\<rparr>\<rparr>"

fun edit_if :: "bool \<Rightarrow> sim_world \<Rightarrow> sim_world" where
  "edit_if True w = w\<lparr>sw_sps := map (\<lambda>(k, p). (k, raise_round p)) (sw_sps w)\<rparr>"
| "edit_if False w = w"

definition user_edit :: "sim_world \<Rightarrow> sim_world" where
  "user_edit w = edit_if (sw_calls w \<noteq> 0) w"

lemma rival_legal: "sim_sound w \<Longrightarrow> sim_legal\<^sup>*\<^sup>* w (rival w)"
  using sim_alone.task_call_legal [OF singletonI, of "sim_state w", OF _ prod.collapse [symmetric], unfolded shared_alone]
  by (cases "sw_calls w \<noteq> 0") (simp_all add: rival_def rival_call_def)

lemma user_edit_legal: "sim_legal\<^sup>*\<^sup>* w (user_edit w)"
proof -
  let ?w = "w\<lparr>sw_sps := map (\<lambda>(k, p). (k, raise_round p)) (sw_sps w)\<rparr>"
  have "sim_sp_store ?w k = map_option raise_round (sim_sp_store w k)" for k
    by (simp add: sim_sp_store_def map_of_map raise_round_def split: option.splits)
  moreover have "sim_task_store ?w = sim_task_store w" by (rule sim_task_store_cong) simp
  ultimately have "user_writes sim_task_store sim_sp_store w ?w" by (auto simp: user_writes_def raise_round_def)
  then show ?thesis by (cases "sw_calls w \<noteq> 0") (auto simp: user_edit_def intro: legal.user)
qed

interpretation sim_race: shared_cluster sim_env sim_task_store sim_sp_store "{sim_reconciler}" id rival
  by (intro shared_cluster.intro locked_cluster.intro sim_one.cluster_axioms sim_one.cluster_base_axioms
    sim_versions.versioned_store_axioms shared_cluster_axioms.intro rival_legal) simp_all

interpretation sim_edit: shared_cluster sim_env sim_task_store sim_sp_store "{sim_reconciler}" id user_edit
  by (intro shared_cluster.intro locked_cluster.intro sim_one.cluster_axioms sim_one.cluster_base_axioms
    sim_versions.versioned_store_axioms shared_cluster_axioms.intro user_edit_legal) simp_all

definition raced_call where
  "raced_call = run_state (Task_Reconcile (shared sim_env id rival) sim_reconciler ''default'' ''snap-1-app'') (sim_state committed_world)"

definition raced_pod_call where
  "raced_pod_call = run_state (Pod_Reconcile (shared sim_env id user_edit) ''default'' ''snap'') (sim_state late_world)"

text \<open>The rival wins: both have pushed, the task is completed, and the call is told to try again.\<close>
lemma raced_outcome:
  "(fst raced_call, map (\<lambda>(k, t). sptst_Phase (spt_Status t)) (sw_tasks (gs_world (snd raced_call))),
    length (filter (\<lambda>c. List.member (cmd_Args c) ''push'') (sw_cmds (gs_world (snd raced_call))))) =
    (Done (no_requeue, Some (ApiError ReasonConflict ''the object has been modified'')), [PhaseCompleted], 2)"
  by code_simp

lemma committed_ok: "cluster_ok sim_task_store sim_sp_store (sim_state committed_world)"
proof -
  have "task_wf committed_task" by (rule committed_facts(2))
  then show ?thesis
    by (auto simp: cluster_ok_def committed_world_def sim_task_store_def sim_sp_store_def split: if_splits)
qed

section \<open>Properties\<close>

text \<open>C4: a call of a task controller while others write. Before every operation on the API server others may
  act (other calls, replicas, users), and reads may be outdated, as long as what the others do are legal
  writes. Then the call is an interleaving of turns of the others with writes of its own, each of which is
  refused or moves the task as it is stored at that moment by steps of the abstract machine, under a new
  version, to a well-formed task; and the invariant of the cluster holds at the end.\<close>
theorem task_call_among_others:
  assumes "shared_cluster E tasks sps nodes past others" and "r \<in> nodes" and "sound tasks sps (gs_world s)"
    and "run_state (Task_Reconcile (shared E past others) r ns nm) s = (res, s')"
  shows "(turn (task_writes tasks sps (ns, nm)) others)\<^sup>*\<^sup>* (gs_world s) (gs_world s') \<and> sound tasks sps (gs_world s')"
  using shared_cluster.shared_task_call [OF assms] assms(3) by (simp add: takes_turns_def)

theorem task_call_among_others_witness:
  "(turn (task_writes sim_task_store sim_sp_store (''default'', ''snap-1-app'')) rival)\<^sup>*\<^sup>* committed_world (gs_world (snd raced_call)) \<and>
    sim_sound (gs_world (snd raced_call)) \<and>
    fst raced_call = Done (no_requeue, Some (ApiError ReasonConflict ''the object has been modified''))"
  using task_call_among_others [OF sim_race.shared_cluster_axioms singletonI committed_ok [unfolded cluster_ok_sound]
    prod.collapse [symmetric], of "''default''" "''snap-1-app''"] raced_outcome
  by (simp add: raced_call_def)

text \<open>C5: a call of the \<^verbatim>\<open>SnapshotPod\<close> controller while others write. It is an interleaving of turns of the
  others with writes of its own, each of which is refused, creates a task that was not there, or moves the status of
  the object as it is stored at that moment, under a new version: entries of the round are added behind the stored
  history, of which the oldest may be dropped; entries that have their result keep it; of the stored conditions only
  those of the three steps are set. So what others have written since the object was read is never
  replaced: such a write is refused. The new history is bounded and truthful.\<close>
theorem pod_call_among_others:
  assumes "shared_cluster E tasks sps nodes past others" and "sound tasks sps (gs_world s)"
    and "run_state (Pod_Reconcile (shared E past others) ns nm) s = (res, s')"
  shows "(turn (pod_call_writes tasks sps (ns, nm)) others)\<^sup>*\<^sup>* (gs_world s) (gs_world s') \<and> sound tasks sps (gs_world s')"
  using shared_cluster.shared_pod_call [OF assms] assms(2) by (simp add: takes_turns_def)

theorem pod_call_among_others_witness:
  "(turn (pod_call_writes sim_task_store sim_sp_store (''default'', ''snap'')) user_edit)\<^sup>*\<^sup>* late_world (gs_world (snd raced_pod_call)) \<and>
    sim_sound (gs_world (snd raced_pod_call))"
  using pod_call_among_others [OF sim_edit.shared_cluster_axioms late_world_ok [unfolded cluster_ok_sound]
    prod.collapse [symmetric], of "''default''" "''snap''"]
  by (simp add: raced_pod_call_def)

text \<open>C3: success means committed and pushed, also when calls overlap. After any number of calls of the
  controllers and the webhook, each interleaved with any legal writes of others between its operations and with
  outdated reads, a snapshot that is reported successful has its completed task with the conditions Accept,
  Commit and Push; a task that was final keeps its phase, its retry count and its finished steps; and no
  history has more than 20 entries.\<close>
theorem concurrent_success_means_pushed:
  assumes "sound tasks sps (gs_world s)" and "(concurrent_call tasks sps nodes)\<^sup>*\<^sup>* s s'"
  shows "(\<forall>k p e. sps (gs_world s') k = Some p \<and> e \<in> set (snaps p) \<and> srs_Result e = ResultSuccess \<longrightarrow>
      (\<exists>k' t. tasks (gs_world s') k' = Some t \<and> om_Name (spt_meta t) = srs_TaskName e \<and>
        sptst_Phase (spt_Status t) = PhaseCompleted \<and> (\<forall>n\<in>{''Accept'', ''Commit'', ''Push''}.
          \<exists>c\<in>set (sptst_Conditions (spt_Status t)). cond_Type c = n \<and> cond_Status c = ConditionTrue))) \<and>
    (\<forall>k t. tasks (gs_world s) k = Some t \<and> terminal_phase (sptst_Phase (spt_Status t)) \<longrightarrow>
      (\<exists>u. tasks (gs_world s') k = Some u \<and> same_task t u \<and> abs_task u = abs_task t)) \<and>
    (\<forall>k p. sps (gs_world s') k = Some p \<longrightarrow> length (snaps p) \<le> 20)"
proof -
  note legal = concurrent_calls_legal [OF assms(2,1)]
  then have ok: "cluster_ok tasks sps s'" and since: "tasks_since (tasks (gs_world s)) (tasks (gs_world s'))"
    using legal_run_onward [of tasks sps "gs_world s" "gs_world s'"] by (simp_all add: cluster_ok_sound onward_def)
  have "\<exists>u. tasks (gs_world s') k = Some u \<and> same_task t u \<and> abs_task u = abs_task t"
    if "tasks (gs_world s) k = Some t" "terminal_phase (sptst_Phase (spt_Status t))" for k t
    using since that terminal_no_steps [of "abs_task t"] unfolding tasks_since_def moved_on_def by fastforce
  moreover have "length (snaps p) \<le> 20" if "sps (gs_world s') k = Some p" for k p
    using ok that unfolding cluster_ok_def snaps_ok_def by blast
  ultimately show ?thesis using cluster_ok_success [OF ok] by blast
qed

theorem concurrent_success_means_pushed_witness:
  "\<exists>k' t. sim_task_store (gs_world round_done) k' = Some t \<and> om_Name (spt_meta t) = ''snap-1-app'' \<and>
    sptst_Phase (spt_Status t) = PhaseCompleted"
proof -
  have "concurrent_call sim_task_store sim_sp_store {sim_reconciler} (sim_state late_world) round_done"
    unfolding round_done_def pod_once_def
    by (rule concurrent_call.pod_call [OF sim_alone.shared_cluster_axioms, unfolded shared_alone, OF prod.collapse [symmetric]])
  then have steps: "(concurrent_call sim_task_store sim_sp_store {sim_reconciler})\<^sup>*\<^sup>* (sim_state late_world) round_done" ..
  have "(''snap-1-app'', ResultSuccess) \<in> set (results round_done)" by (simp add: round_done_results)
  then obtain k p e where "sim_sp_store (gs_world round_done) k = Some p" "e \<in> set (snaps p)"
      "srs_TaskName e = ''snap-1-app''" "srs_Result e = ResultSuccess"
    by (rule results_stored)
  with concurrent_success_means_pushed [OF late_world_ok [unfolded cluster_ok_sound] steps] show ?thesis by metis
qed

end
