(* ===== verification/RoundProgress.thy ===== *)
theory RoundProgress
  imports Cluster PodHistory
begin

text \<open>
  How a round ends. Once a round is handled (its number is the last one handled in the status) and its
  tasks are final, one more call of the \<^verbatim>\<open>SnapshotPod\<close> controller gives every entry its result and does not
  ask for another call. A round that is not handled yet needs its target pod until then: when the
  pod is gone, the results of tasks that are completed are never collected.
\<close>

section \<open>The conditions of a SnapshotPod\<close>

definition pod_steps :: "string list" where
  "pod_steps = [''Accept'', ''Tasks'', ''TaskStatus'']"

text \<open>No condition but those of the steps, none twice, and those of the steps \<open>done\<close> hold.\<close>
definition conds_ok :: "string set \<Rightarrow> condition list \<Rightarrow> bool" where
  "conds_ok done conds \<longleftrightarrow> distinct (map cond_Type conds) \<and> set (map cond_Type conds) \<subseteq> set pod_steps \<and>
     (\<forall>c\<in>set conds. cond_Type c \<in> done \<longrightarrow> cond_Status c = ConditionTrue)"

lemma conds_ok_Nil [simp]: "conds_ok done []"
  by (simp add: conds_ok_def)

lemma conds_ok_all: "conds_ok (set pod_steps) conds \<Longrightarrow> list_all (\<lambda>c. cond_Status c = ConditionTrue) conds"
  by (auto simp: conds_ok_def list_all_iff)

lemma ensure_conds_ok:
  assumes "conds_ok done conds" and "n \<in> set pod_steps" and "n \<notin> done"
    and "run_state (ensure_condition E n conds) s = ((conds', i), s')"
  shows "conds_ok done conds' \<and> i < length conds' \<and> cond_Type (conds' ! i) = n"
proof (cases "find_index_of (\<lambda>c. cond_Type c = n) conds")
  case None
  then have "n \<notin> cond_Type ` set conds" by (auto simp: find_index_of_None)
  then show ?thesis using assms None
    by (auto simp: ensure_condition_def conds_ok_def new_condition_def image_subset_iff simp del: run_time_now split: prod.splits)
next
  case (Some j)
  then show ?thesis using assms find_index_of_Some [OF Some] by (auto simp: ensure_condition_def)
qed

lemma conds_ok_update:
  assumes "conds_ok done conds" and "i < length conds" and "cond_Type c = cond_Type (conds ! i)" and "cond_Status c = ConditionTrue"
  shows "conds_ok (insert (cond_Type c) done) (conds[i := c])"
proof -
  have types: "map cond_Type (conds[i := c]) = map cond_Type conds"
    using assms(2,3) by (metis list_update_id map_update nth_map length_map)
  have "cond_Status x = ConditionTrue" if x: "x \<in> set (conds[i := c])" "cond_Type x = cond_Type c \<or> cond_Type x \<in> done" for x
  proof -
    obtain j where j: "j < length conds" "x = conds[i := c] ! j" using x(1) by (auto simp: in_set_conv_nth)
    show ?thesis
    proof (cases "j = i")
      case False
      then have "x = conds ! j" using j by simp
      moreover have "cond_Type (conds ! j) \<noteq> cond_Type (conds ! i)"
        using False j(1) assms(1,2) unfolding conds_ok_def by (metis length_map nth_eq_iff_index_eq nth_map)
      ultimately show ?thesis using x(2) assms(1,3) j(1) unfolding conds_ok_def by auto
    qed (use j assms(4) in simp)
  qed
  then show ?thesis using assms(1) types unfolding conds_ok_def by auto
qed

text \<open>What a step leaves of the object besides its conditions.\<close>
definition same_but_conds :: "SnapshotPod \<Rightarrow> SnapshotPod \<Rightarrow> bool" where
  "same_but_conds sp sp' \<longleftrightarrow> sp_meta sp' = sp_meta sp \<and> sp_Spec sp' = sp_Spec sp \<and> snaps sp' = snaps sp \<and>
     spst_LastTriggerRound (sp_Status sp') = spst_LastTriggerRound (sp_Status sp)"

lemma same_but_conds_set [simp]:
  "same_but_conds sp (set_pod_condition i f sp)" "same_but_conds sp (set_sp_status (\<lambda>st. st\<lparr>spst_Conditions := conds\<rparr>) sp)"
  by (simp_all add: same_but_conds_def set_pod_condition_def)

lemma same_but_conds_trans: "same_but_conds a b \<Longrightarrow> same_but_conds b c \<Longrightarrow> same_but_conds a c"
  by (simp add: same_but_conds_def)

context cluster_store
begin

text \<open>One step of the loop: it fails and ends the loop, or it succeeds and its condition holds.\<close>
lemma one_pod_step:
  assumes run: "run_state (run_pod_recs E ((n, f) # recs) sp) s = (sp', s')"
    and ok: "conds_ok done (pod_conds sp)" and n: "n \<in> set pod_steps" "n \<notin> done"
    and f: "\<And>x s y e t. run_state (f x) s = ((y, e), t) \<Longrightarrow> pod_conds y = pod_conds x"
  obtains (fails) sp0 sp1 e s1 where "same_but_conds sp sp0" and "still tasks sps s s1"
      and "run_state (f sp0) s1 = ((sp1, Some e), s')" and "same_but_conds sp1 sp'"
      and "\<exists>c\<in>set (pod_conds sp'). cond_Type c = n \<and> cond_Status c = ConditionFalse"
  | (goes_on) sp0 sp1 sp3 s1 s2 s3 where "same_but_conds sp sp0" and "still tasks sps s s1"
      and "run_state (f sp0) s1 = ((sp1, None), s2)" and "same_but_conds sp1 sp3" and "still tasks sps s2 s3"
      and "conds_ok (insert n done) (pod_conds sp3)" and "run_state (run_pod_recs E recs sp3) s3 = (sp', s')"
  using run
proof (cases rule: still_ops.pod_iteration)
  case (fails conds i s1 sp1 e)
  note c = ensure_conds_ok [OF ok n fails(1)]
  have conds1: "pod_conds sp1 = conds" using f [OF fails(3)] by (simp add: set_sp_status_def)
  have "(conds ! i)\<lparr>cond_Status := ConditionFalse, cond_Message := error_text e\<rparr> \<in> set (pod_conds sp')"
    using c conds1 fails(4) by (simp add: set_pod_condition_conds set_update_memI)
  then have "\<exists>x\<in>set (pod_conds sp'). cond_Type x = n \<and> cond_Status x = ConditionFalse" using c by (rule_tac bexI) simp_all
  then show thesis using fails by (intro that(1) [OF _ fails(2,3)]) simp_all
next
  case (goes_on conds i s1 sp1 s2 sp3 s3)
  note c = ensure_conds_ok [OF ok n goes_on(1)]
  have conds1: "pod_conds sp1 = conds" using f [OF goes_on(3)] by (simp add: set_sp_status_def)
  have ok2: "conds_ok (insert n done) (conds[i := (conds ! i)\<lparr>cond_Status := ConditionTrue\<rparr>])"
    using conds_ok_update [of "done" conds i "(conds ! i)\<lparr>cond_Status := ConditionTrue\<rparr>"] c by simp
  have "conds_ok (insert n done) (conds[i := (conds ! i)\<lparr>cond_Status := ConditionTrue, cond_LastTransitionTime := t\<rparr>])" for t
    using conds_ok_update [OF ok2, of i "(conds ! i)\<lparr>cond_Status := ConditionTrue, cond_LastTransitionTime := t\<rparr>"] c
    by (simp add: insert_absorb)
  then have ok3: "conds_ok (insert n done) (pod_conds sp3)"
    using goes_on(4) ok2 c by (auto simp: step_done_def Let_def set_pod_condition_conds conds1)
  have "same_but_conds sp1 sp3"
    using goes_on(4) same_but_conds_trans [OF same_but_conds_set(1) same_but_conds_set(1)] by (auto simp: step_done_def Let_def)
  from that(2) [OF _ goes_on(2,3) this goes_on(5) ok3 goes_on(6)] show thesis by simp
qed

end

context cluster_store
begin

text \<open>The steps leave the conditions alone.\<close>
lemma pod_step_conds:
  assumes "(n, f) \<in> set (pod_recs E)" and "run_state (f x) s = ((y, e), t)"
  shows "pod_conds y = pod_conds x"
  using still_ops.pod_step_status [OF assms] by blast

end

section \<open>A round that is handled\<close>

definition handled :: "SnapshotPod \<Rightarrow> bool" where
  "handled sp \<longleftrightarrow> spst_LastTriggerRound (sp_Status sp) = sps_TriggerRound (sp_Spec sp)"

lemma handled_same: "same_but_conds sp sp' \<Longrightarrow> handled sp' = handled sp"
  by (simp add: same_but_conds_def handled_def)

context cluster_store
begin

text \<open>A step that has nothing to do for an object that is handled.\<close>
lemma quiet_pod_step:
  assumes "run_state (run_pod_recs E ((n, f) # recs) sp) s = (sp', s')" and "conds_ok done (pod_conds sp)"
    and "n \<in> set pod_steps" and "n \<notin> done" and "(n, f) \<in> set (pod_recs E)" and h: "handled sp"
    and quiet: "\<And>x t. handled x \<Longrightarrow> run_state (f x) t = ((x, None), t)"
  obtains sp3 s3 where "same_but_conds sp sp3" and "still tasks sps s s3" and "conds_ok (insert n done) (pod_conds sp3)"
    and "run_state (run_pod_recs E recs sp3) s3 = (sp', s')"
proof (rule one_pod_step [OF assms(1-4) pod_step_conds [OF assms(5)]])
  fix sp0 sp1 e s1
  assume "same_but_conds sp sp0" and "run_state (f sp0) s1 = ((sp1, Some e), s')"
  then show thesis using quiet [of sp0 s1] handled_same h by simp
next
  fix sp0 sp1 sp3 s1 s2 s3
  assume a: "same_but_conds sp sp0" "still tasks sps s s1" "run_state (f sp0) s1 = ((sp1, None), s2)" "same_but_conds sp1 sp3"
    "still tasks sps s2 s3" "conds_ok (insert n done) (pod_conds sp3)" "run_state (run_pod_recs E recs sp3) s3 = (sp', s')"
  then have "sp1 = sp0" "s2 = s1" using quiet [of sp0 s1] handled_same h by simp_all
  then show thesis using that a same_but_conds_trans still_frame.trans_R by blast
qed auto

lemma handled_loop:
  assumes h: "handled sp" and ok: "conds_ok {} (pod_conds sp)" and run: "run_state (run_pod_recs E (pod_recs E) sp) s = (sp', s')"
  shows "(\<exists>c\<in>set (pod_conds sp'). cond_Type c = ''TaskStatus'' \<and> cond_Status c = ConditionFalse) \<or>
    conds_ok (set pod_steps) (pod_conds sp') \<and> (\<exists>x s1 y s2. run_state (reconcileTasksStatus E x) s1 = ((y, None), s2) \<and>
      same_but_conds sp x \<and> tasks (gs_world s1) = tasks (gs_world s) \<and> snaps sp' = snaps y)"
proof -
  let ?v = "\<lambda>sp. do { err \<leftarrow> pod_validate E sp; State_Monad.return (sp, err) }"
  have v: "run_state (?v x) t = ((x, None), t)" if "handled x" for x t
    using that by (simp add: pod_validate_def handled_def)
  have t: "run_state (reconcileTasks E x) u = ((x, None), u)" if "handled x" for x u
    using that by (simp add: reconcileTasks_def handled_def)
  have recs: "(''Accept'', ?v) \<in> set (pod_recs E)" "(''Tasks'', reconcileTasks E) \<in> set (pod_recs E)"
    "(''TaskStatus'', reconcileTasksStatus E) \<in> set (pod_recs E)" by (simp_all add: pod_recs_def)
  have a: "run_state (run_pod_recs E ((''Accept'', ?v) # [(''Tasks'', reconcileTasks E), (''TaskStatus'', reconcileTasksStatus E)]) sp) s = (sp', s')"
    using run by (simp add: pod_recs_def)
  obtain sp1 s1 where sp1: "same_but_conds sp sp1" "still tasks sps s s1" "conds_ok {''Accept''} (pod_conds sp1)"
    and b: "run_state (run_pod_recs E ((''Tasks'', reconcileTasks E) # [(''TaskStatus'', reconcileTasksStatus E)]) sp1) s1 = (sp', s')"
    by (rule quiet_pod_step [OF a ok _ _ recs(1) h v]) (auto simp: pod_steps_def)
  have h1: "handled sp1" using handled_same [OF sp1(1)] h by simp
  obtain sp2 s2 where sp2: "same_but_conds sp1 sp2" "still tasks sps s1 s2" "conds_ok {''Tasks'', ''Accept''} (pod_conds sp2)"
    and c: "run_state (run_pod_recs E ((''TaskStatus'', reconcileTasksStatus E) # []) sp2) s2 = (sp', s')"
    by (rule quiet_pod_step [OF b sp1(3) _ _ recs(2) h1 t]) (auto simp: pod_steps_def)
  have same: "same_but_conds sp sp2" "still tasks sps s s2"
    using same_but_conds_trans [OF sp1(1) sp2(1)] still_frame.trans_R [OF sp1(2) sp2(2)] by blast+
  show ?thesis
  proof (rule one_pod_step [OF c sp2(3) _ _ pod_step_conds [OF recs(3)]])
    fix x y z r1 r2 r3
    assume g: "same_but_conds sp2 x" "still tasks sps s2 r1" "run_state (reconcileTasksStatus E x) r1 = ((y, None), r2)"
      "same_but_conds y z" "conds_ok (insert ''TaskStatus'' {''Tasks'', ''Accept''}) (pod_conds z)"
      "run_state (run_pod_recs E [] z) r3 = (sp', s')"
    have "sp' = z" using g(6) by simp
    moreover have "same_but_conds sp x" using same(1) g(1) by (rule same_but_conds_trans)
    moreover have "tasks (gs_world r1) = tasks (gs_world s)" using same(2) g(2) by (simp add: still_def)
    moreover have "set pod_steps = insert ''TaskStatus'' {''Tasks'', ''Accept''}" by (auto simp: pod_steps_def)
    moreover have "snaps z = snaps y" using g(4) by (simp add: same_but_conds_def)
    ultimately show ?thesis using g(3,5) by (intro disjI2 conjI exI [of _ x] exI [of _ r1] exI [of _ y] exI [of _ r2]) simp_all
  next
    assume "\<exists>c\<in>set (pod_conds sp'). cond_Type c = ''TaskStatus'' \<and> cond_Status c = ConditionFalse"
    then show ?thesis ..
  qed (simp_all add: pod_steps_def)
qed

end

section \<open>Final tasks\<close>

lemma SliceToMap_member: "x \<in> set xs \<Longrightarrow> SliceToMap xs f (fst (f x)) \<noteq> None"
proof (induction xs rule: rev_induct)
  case (snoc y xs)
  then show ?case by (cases "fst (f y) = fst (f x)") (auto simp: SliceToMap_def)
qed simp

text \<open>The tasks the controller looks at for an object: those with its label.\<close>
definition labelled :: "SnapshotPod \<Rightarrow> SnapshotPodTask \<Rightarrow> bool" where
  "labelled sp t \<longleftrightarrow> map_of (map_entries (om_Labels (spt_meta t))) SnapshotNameLabel = Some (om_Name (sp_meta sp))"

text \<open>Every entry without a result has a stored task in a final phase.\<close>
definition tasks_final :: "(string \<times> string \<rightharpoonup> SnapshotPodTask) \<Rightarrow> SnapshotPod \<Rightarrow> bool" where
  "tasks_final m sp \<longleftrightarrow> (\<forall>e\<in>set (snaps sp). \<not> terminal_result (srs_Result e) \<longrightarrow>
     (\<exists>t. m (om_Namespace (sp_meta sp), srs_TaskName e) = Some t \<and> labelled sp t \<and> terminal_phase (sptst_Phase (spt_Status t))))"

text \<open>No object of the same name in another namespace has a task of the same name.\<close>
definition names_unique :: "(string \<times> string \<rightharpoonup> SnapshotPodTask) \<Rightarrow> SnapshotPod \<Rightarrow> bool" where
  "names_unique m sp \<longleftrightarrow> (\<forall>k t k' t'. m k = Some t \<and> m k' = Some t' \<and> labelled sp t \<and> labelled sp t' \<and>
     om_Name (spt_meta t) = om_Name (spt_meta t') \<longrightarrow> k = k')"

text \<open>The result an entry gets.\<close>
definition result_of :: "(string \<times> string \<rightharpoonup> SnapshotPodTask) \<Rightarrow> SnapshotPod \<Rightarrow> SnapshotRunningStatus \<Rightarrow> SnapshotRunningStatus \<Rightarrow> bool" where
  "result_of m sp e e' \<longleftrightarrow> srs_TaskName e' = srs_TaskName e \<and> srs_ContainerName e' = srs_ContainerName e \<and>
     srs_ImageRef e' = srs_ImageRef e \<and>
     (if terminal_result (srs_Result e) then srs_Result e' = srs_Result e
      else \<exists>t. m (om_Namespace (sp_meta sp), srs_TaskName e) = Some t \<and>
        srs_Result e' = (if sptst_Phase (spt_Status t) = PhaseCompleted then ResultSuccess else ResultFailed))"

lemma result_of_terminal: "result_of m sp e e' \<Longrightarrow> terminal_result (srs_Result e')"
  by (auto simp: result_of_def terminal_result_def split: if_splits)

lemma result_of_wire [simp]: "result_of m sp e (wire_snapshot e') = result_of m sp e e'"
  by (simp add: result_of_def)

lemma labels_match_labelled:
  "labels_match (Some [(SnapshotNameLabel, om_Name (sp_meta sp))]) (om_Labels (spt_meta t)) = labelled sp t"
  by (simp add: labels_match_def labelled_def map_entries_def)

lemma same_but_conds_final:
  assumes "same_but_conds sp x"
  shows "tasks_final m x = tasks_final m sp" "names_unique m x = names_unique m sp" "result_of m x = result_of m sp"
  using assms by (simp_all add: tasks_final_def names_unique_def labelled_def same_but_conds_def result_of_def fun_eq_iff)

context cluster_api
begin

lemma listed_final:
  assumes ts: "fst (run_state (env_list_tasks E (Some [(SnapshotNameLabel, om_Name (sp_meta sp))])) w) = Inr ts"
    and t: "tasks w (om_Namespace (sp_meta sp), n) = Some t" "labelled sp t" and u: "names_unique (tasks w) sp"
  shows "SliceToMap ts (\<lambda>item. (om_Name (spt_meta item), item)) n = Some t"
proof -
  let ?m = "SliceToMap ts (\<lambda>item. (om_Name (spt_meta item), item))"
  have key: "task_key t = (om_Namespace (sp_meta sp), n)" by (rule task_keyed [OF t(1)])
  have "t \<in> set ts" using list_tasks_ok [OF ts, of t] t key by (simp add: labels_match_labelled)
  then obtain t' where t': "?m n = Some t'"
    using SliceToMap_member [of t ts "\<lambda>item. (om_Name (spt_meta item), item)"] key by auto
  have l: "om_Name (spt_meta t') = n" "tasks w (task_key t') = Some t'" "labelled sp t'"
    using listed_tasks [OF ts t'] labels_match_labelled by blast+
  have name: "om_Name (spt_meta t) = n" using key by simp
  have "(om_Namespace (sp_meta sp), n) = task_key t'"
    by (rule u [unfolded names_unique_def, rule_format, of _ t _ t']) (intro conjI t l, simp only: name l(1))
  then have "Some t' = Some t" using l(2) t(1) by metis
  then show ?thesis using t' by simp
qed

lemma status_final:
  assumes run: "run_state (reconcileTasksStatus E x) s = ((y, None), s')"
    and final: "tasks_final (tasks (gs_world s)) x" and u: "names_unique (tasks (gs_world s)) x"
  shows "list_all2 (result_of (tasks (gs_world s)) x) (snaps x) (snaps y)"
proof -
  obtain ts m where m: "m = SliceToMap ts (\<lambda>item. (om_Name (spt_meta item), item))"
    and ts: "fst (run_state (env_list_tasks E (Some [(SnapshotNameLabel, om_Name (sp_meta x))])) (gs_world s)) = Inr ts"
    and all: "list_all2 (\<lambda>e e'. \<exists>s1 s2. run_state (update_snapshot E m e) s1 = (e', s2)) (snaps x) (snaps y)"
    using status_run [OF run] by auto
  show ?thesis
  proof (rule list_all2_all_nthI)
    show "length (snaps x) = length (snaps y)" by (rule list_all2_lengthD [OF all])
    fix i assume i: "i < length (snaps x)"
    let ?e = "snaps x ! i" and ?e' = "snaps y ! i"
    obtain s1 s2 where "run_state (update_snapshot E m ?e) s1 = (?e', s2)" using list_all2_nthD [OF all i] by blast
    note sel = update_snapshot_sel [OF this]
    show "result_of (tasks (gs_world s)) x ?e ?e'"
    proof (cases "terminal_result (srs_Result ?e)")
      case False
      then obtain t where t: "tasks (gs_world s) (om_Namespace (sp_meta x), srs_TaskName ?e) = Some t" "labelled x t"
          "terminal_phase (sptst_Phase (spt_Status t))"
        using final i unfolding tasks_final_def by (meson nth_mem)
      have "m (srs_TaskName ?e) = Some t" unfolding m by (rule listed_final [OF ts t(1,2) u])
      then show ?thesis using sel t False by (auto simp: result_of_def terminal_phase_def)
    qed (use sel in \<open>auto simp: result_of_def\<close>)
  qed
qed

lemma handled_settles:
  assumes stored: "sps (gs_world s) (ns, nm) = Some sp" and trig: "0 < sint (sps_TriggerRound (sp_Spec sp))"
    and h: "handled sp" and ok: "conds_ok {} (pod_conds sp)"
    and final: "tasks_final (tasks (gs_world s)) sp" and u: "names_unique (tasks (gs_world s)) sp"
    and run: "run_state (Pod_Reconcile E ns nm) s = ((q, None), s')"
  shows "\<exists>p. sps (gs_world s') (ns, nm) = Some p \<and>
    ((\<exists>c\<in>set (pod_conds p). cond_Type c = ''TaskStatus'' \<and> cond_Status c = ConditionFalse) \<or>
     q = no_requeue \<and> list_all2 (result_of (tasks (gs_world s)) sp) (snaps sp) (snaps p))"
  using run
proof (cases rule: pod_reconcile_parts)
  case none
  then show ?thesis using stored trig by force
next
  case (loop sp' s2 sp1 s3 v w4)
  then have sp': "sp' = sp" using stored by simp
  obtain p where v: "v = Inr p" and q: "q = (if unfinished p then \<lparr>RequeueAfter = 15 * second_ns\<rparr> else no_requeue)"
    using loop(7) by (cases v) auto
  have m: "sp_key sp1 = sp_key sp" using run_pod_recs_moves [OF subset_refl loop(4) lists_truthful] sp' by (simp add: pod_moves_def)
  obtain cur where p: "sp_status_written cur sp1 p" "sps w4 (ns, nm) = Some p"
    using update_sp_ok [OF loop(5) [unfolded v]] m sp_keyed [OF stored] by auto
  have stored': "sps (gs_world s') (ns, nm) = Some p" using loop(6) p(2) by (simp add: still_def)
  have pc: "pod_conds p = map wire_condition (pod_conds sp1)" "snaps p = map wire_snapshot (snaps sp1)"
    using p(1) by (auto simp: sp_status_written_def)
  from handled_loop [OF h ok loop(4) [unfolded sp']] show ?thesis
  proof
    assume "\<exists>c\<in>set (pod_conds sp1). cond_Type c = ''TaskStatus'' \<and> cond_Status c = ConditionFalse"
    then have "\<exists>c\<in>set (pod_conds p). cond_Type c = ''TaskStatus'' \<and> cond_Status c = ConditionFalse" using pc(1) by auto
    then show ?thesis using stored' by blast
  next
    assume "conds_ok (set pod_steps) (pod_conds sp1) \<and> (\<exists>x s1 y s2'. run_state (reconcileTasksStatus E x) s1 = ((y, None), s2') \<and>
      same_but_conds sp x \<and> tasks (gs_world s1) = tasks (gs_world s2) \<and> snaps sp1 = snaps y)"
    then obtain x s1 y s2' where c: "conds_ok (set pod_steps) (pod_conds sp1)"
      and x: "run_state (reconcileTasksStatus E x) s1 = ((y, None), s2')" "same_but_conds sp x"
        "tasks (gs_world s1) = tasks (gs_world s2)" "snaps sp1 = snaps y" by blast
    have t: "tasks (gs_world s1) = tasks (gs_world s)" using x(3) loop(3) by (simp add: still_def)
    have "list_all2 (result_of (tasks (gs_world s)) sp) (snaps sp) (snaps sp1)"
      using status_final [OF x(1)] final u x(2,4) same_but_conds_final [OF x(2)] t by (simp add: same_but_conds_def)
    then have r: "list_all2 (result_of (tasks (gs_world s)) sp) (snaps sp) (snaps p)"
      unfolding pc(2) by (simp add: list_all2_map2)
    have "\<forall>e\<in>set (snaps p). terminal_result (srs_Result e)"
      using r result_of_terminal by (fastforce simp: list_all2_conv_all_nth in_set_conv_nth)
    moreover have "list_all (\<lambda>c. cond_Status c = ConditionTrue) (pod_conds p)"
      using conds_ok_all [OF c] pc(1) by (simp add: list.pred_map comp_def)
    ultimately have "\<not> unfinished p" by (auto simp: unfinished_def list_ex_iff list_all_iff)
    then show ?thesis using stored' q r by (intro exI [of _ p]) simp
  qed
qed

end

section \<open>Properties\<close>

text \<open>C16: a handled round comes to its end. Let the stored object have handled its round, let every entry that
  has no result yet have a task with the label of the object in a final phase, and let no other object have a
  task of the same name. Then a call that reports no error either fails to list the tasks and says so in
  its condition, or gives every entry its result, Success if the task is completed and Failed if not,
  keeps the results that are there, and does not ask for another call.\<close>
theorem handled_round_settles:
  assumes "cluster_api E tasks sps" and "sps (gs_world s) (ns, nm) = Some sp" and "0 < sint (sps_TriggerRound (sp_Spec sp))"
    and "handled sp" and "conds_ok {} (pod_conds sp)" and "tasks_final (tasks (gs_world s)) sp"
    and "names_unique (tasks (gs_world s)) sp" and "run_state (Pod_Reconcile E ns nm) s = ((q, None), s')"
  shows "\<exists>p. sps (gs_world s') (ns, nm) = Some p \<and>
    ((\<exists>c\<in>set (pod_conds p). cond_Type c = ''TaskStatus'' \<and> cond_Status c = ConditionFalse) \<or>
     q = no_requeue \<and> list_all2 (result_of (tasks (gs_world s)) sp) (snaps sp) (snaps p))"
  by (rule cluster_api.handled_settles [OF assms])

theorem handled_round_settles_witness:
  "\<exists>p. sim_sp_store (gs_world (snd (pod_run late_world))) (''default'', ''snap'') = Some p \<and>
    ((\<exists>c\<in>set (pod_conds p). cond_Type c = ''TaskStatus'' \<and> cond_Status c = ConditionFalse) \<or>
     no_requeue = no_requeue \<and> list_all2 (result_of (sim_task_store late_world) late_sp) (snaps late_sp) (snaps p))"
proof -
  have "fst (pod_run late_world) = (no_requeue, None)" by code_simp
  then have run: "pod_run late_world = ((no_requeue, None), snd (pod_run late_world))" by (metis prod.collapse)
  have stored: "sim_sp_store (gs_world (sim_state late_world)) (''default'', ''snap'') = Some late_sp"
    by (simp add: late_world_def sim_sp_store_def late_sp_def sample_sp_def)
  have facts: "0 < sint (sps_TriggerRound (sp_Spec late_sp))" "handled late_sp" "conds_ok {} (pod_conds late_sp)"
    "names_unique (sim_task_store (gs_world (sim_state late_world))) late_sp"
    by (auto simp: handled_def names_unique_def late_world_def sim_task_store_def late_sp_def sample_sp_def
      set_sp_status_def split: if_splits option.splits)
  have "tasks_final (sim_task_store (gs_world (sim_state late_world))) late_sp"
    by (simp add: tasks_final_def late_sp_def late_world_def sim_task_store_def pushed_task_def sample_task_def sample_sp_def
      labelled_def set_sp_status_def set_task_status_def set_task_conditions_def map_entries_def)
  from handled_round_settles [OF sim_cluster.cluster_api_axioms stored facts(1,2,3) this facts(4) run] show ?thesis by simp
qed

text \<open>A round for the container \<^verbatim>\<open>app\<close> alone, until its task is completed; then the pods are deleted.\<close>
definition sole_world :: sim_world where
  "sole_world = pod_world\<lparr>sw_sps := [((''default'', ''snap''), sample_sp\<lparr>sp_Spec := (sp_Spec sample_sp)\<lparr>
     sps_Target := \<lparr>tp_Name = ''web'', tp_Selector = None, tp_Containers = [''app'']\<rparr>\<rparr>\<rparr>)]\<rparr>"

definition task_completed :: "sim_world gstate" where
  "task_completed = task_once ''snap-1-app'' (pod_once (sim_state sole_world))"

definition pods_deleted :: "sim_world gstate \<Rightarrow> sim_world gstate" where
  "pods_deleted s = s\<lparr>gs_world := (gs_world s)\<lparr>sw_pods := []\<rparr>\<rparr>"

definition task_phases :: "sim_world gstate \<Rightarrow> SnapshotPodTaskPhase list" where
  "task_phases s = map (\<lambda>(k, t). sptst_Phase (spt_Status t)) (sw_tasks (gs_world s))"

definition round_results :: "sim_world gstate \<Rightarrow> SnapshotRunningResult list" where
  "round_results s = concat (map (\<lambda>(k, p). map srs_Result (snaps p)) (sw_sps (gs_world s)))"

text \<open>What is seen of a state: the phases of the tasks and the results of the entries.\<close>
definition seen :: "sim_world gstate \<Rightarrow> SnapshotPodTaskPhase list \<times> SnapshotRunningResult list" where
  "seen s = (task_phases s, round_results s)"

lemma with_pod: "seen (pod_once task_completed) = ([PhaseCompleted], [ResultSuccess])"
  by code_simp

lemma without_pod: "seen (pod_calls 2 (pods_deleted task_completed)) = ([PhaseCompleted], [ResultCreated])"
  by code_simp

lemma vanished_pod_run:
  "seen (pod_once task_completed) = ([PhaseCompleted], [ResultSuccess]) \<and>
   seen (pod_calls 2 (pods_deleted task_completed)) = ([PhaseCompleted], [ResultCreated])"
  using with_pod without_pod by simp

text \<open>C17: the results of a round are lost with its pod. Let the stored object not have marked its round as handled
  (the call that creates the tasks does not), and let the target pod not be found any more, as after a
  round that the deletion of the pod has triggered. Then no later call collects anything, whatever happens to
  the tasks between the calls: every entry keeps its result, also when its task is completed, and the round
  stays unhandled.\<close>
theorem vanished_pod_hides_results:
  assumes "cluster_api E tasks sps" and "sps (gs_world s) (ns, nm) = Some sp"
    and "spst_LastTriggerRound (sp_Status sp) \<noteq> sps_TriggerRound (sp_Spec sp)"
    and "\<And>t. isl (fst (run_state (getPod E sp) t))"
    and "(meanwhile E sps (ns, nm))\<^sup>*\<^sup>* s s'"
  shows "\<exists>p. sps (gs_world s') (ns, nm) = Some p \<and> map srs_TaskName (snaps p) = map srs_TaskName (snaps sp) \<and>
    map srs_Result (snaps p) = map srs_Result (snaps sp) \<and>
    spst_LastTriggerRound (sp_Status p) \<noteq> sps_TriggerRound (sp_Spec p)"
  using cluster_api.lost_pod_meanwhile [OF assms(1,5,2,4,3)] assms(3) by auto

text \<open>A cluster whose pods are gone.\<close>
definition no_pod :: "string \<Rightarrow> string \<Rightarrow> ('w, go_error + pod) state" where
  "no_pod ns nm = State_Monad.return (Inl (ApiError ReasonNotFound ''not found''))"

definition no_pods :: "string \<Rightarrow> string gomap \<Rightarrow> ('w, go_error + pod list) state" where
  "no_pods ns sel = State_Monad.return (Inr [])"

definition deserted :: "'w env \<Rightarrow> 'w env" where
  "deserted E = E\<lparr>env_get_pod := no_pod, env_list_pods := no_pods\<rparr>"

lemma deserted_api: "cluster_api E tasks sps \<Longrightarrow> cluster_api (deserted E) tasks sps"
  unfolding cluster_api_def cluster_store_def task_api_def task_store_def os_frame_def cluster_api_axioms_def
    cluster_store_axioms_def task_api_axioms_def task_store_axioms_def
  by (simp add: deserted_def no_pod_def no_pods_def)

lemma deserted_getPod: "isl (fst (run_state (getPod (deserted E) sp) t))"
  by (simp add: getPod_def deserted_def no_pod_def no_pods_def Let_def)

text \<open>Round 1 with its task completed.\<close>
definition settled_world :: sim_world where
  "settled_world = collecting_world\<lparr>sw_sps := [((''default'', ''snap''), collecting_sp)]\<rparr>"

theorem vanished_pod_hides_results_witness:
  "\<exists>p. sim_sp_store (gs_world (snd (run_state (Pod_Reconcile (deserted sim_env) ''default'' ''snap'') (sim_state settled_world))))
      (''default'', ''snap'') = Some p \<and> map srs_Result (snaps p) = [ResultCreated]"
proof -
  let ?s = "sim_state settled_world"
  have stored: "sim_sp_store (gs_world ?s) (''default'', ''snap'') = Some collecting_sp"
    and "spst_LastTriggerRound (sp_Status collecting_sp) \<noteq> sps_TriggerRound (sp_Spec collecting_sp)"
    by (simp_all add: settled_world_def sim_sp_store_def collecting_sp_def sample_sp_def)
  note facts = deserted_api [OF sim_cluster.cluster_api_axioms] this deserted_getPod
  have "(meanwhile (deserted sim_env) sim_sp_store (''default'', ''snap''))\<^sup>*\<^sup>* ?s
      (snd (run_state (Pod_Reconcile (deserted sim_env) ''default'' ''snap'') ?s))"
    by (rule r_into_rtranclp) (simp add: meanwhile_def)
  from vanished_pod_hides_results [OF facts this] show ?thesis by (auto simp: collecting_sp_def)
qed

end
