(* ===== verification/Collector.thy ===== *)
theory Collector
  imports TaskTheorems PodTheorems
begin

text \<open>
  \<^verbatim>\<open>internal/metrics/collector.go\<close>: every 30 seconds the collector resets two gauge vectors and sets them
  from the objects it lists: the unfinished snapshots per \<^verbatim>\<open>SnapshotPod\<close>, and the tasks per node and
  status. Counts are natural numbers (the \<^verbatim>\<open>float64\<close> of the source is exact below 2 to the 53), a Go map is an
  association list, and its range order is the operation \<open>env_map_order\<close>.
\<close>

section \<open>The code\<close>

definition active_count :: "SnapshotPod \<Rightarrow> nat" where
  "active_count sp = length (filter (\<lambda>item. srs_Result item = ResultCreated \<or> srs_Result item = ResultRunning)
     (spst_Snapshots (sp_Status sp)))"

fun set_actives :: "SnapshotPod list \<Rightarrow> ('w, unit) go" where
  "set_actives [] = State_Monad.return ()"
| "set_actives (sp # sps) = do {
     SetActiveSnapshotTasks (om_Namespace (sp_meta sp)) (om_Name (sp_meta sp)) (active_count sp);
     set_actives sps
   }"

definition collectSnapshotPodMetrics :: "'w env \<Rightarrow> ('w, go_error option) go" where
  "collectSnapshotPodMetrics E = do {
     emit [GaugeReset ''snapshot_active_tasks''];
     res \<leftarrow> in_world (env_list_snapshotpods E None);
     (case res of
        Inl err \<Rightarrow> State_Monad.return (Some err)
      | Inr items \<Rightarrow> do { set_actives items; State_Monad.return None })
   }"

definition task_status :: "SnapshotPodTask \<Rightarrow> string" where
  "task_status spt = (case sptst_Phase (spt_Status spt) of
       PhaseCompleted \<Rightarrow> SnapshotTaskStatusSuccess
     | PhaseFailed \<Rightarrow> SnapshotTaskStatusFailed
     | PhaseCreated \<Rightarrow> SnapshotTaskStatusCreated
     | PhaseOther s \<Rightarrow> if s = [] then SnapshotTaskStatusCreated else s)"

type_synonym node_counts = "(string \<times> (string \<times> nat) list) list"

text \<open>\<^verbatim>\<open>nodeStatusCounts[nodeName][status]++\<close>, with the inner map created on demand.\<close>
definition count_task :: "node_counts \<Rightarrow> SnapshotPodTask \<Rightarrow> node_counts" where
  "count_task m spt =
     (let nodeName = spts_NodeName (spt_Spec spt); status = task_status spt;
          inner = (case map_of m nodeName of None \<Rightarrow> [] | Some i \<Rightarrow> i);
          n = (case map_of inner status of None \<Rightarrow> 0 | Some k \<Rightarrow> k)
      in AList.update nodeName (AList.update status (Suc n) inner) m)"

fun set_statuses :: "string \<Rightarrow> (string \<times> nat) list \<Rightarrow> string list \<Rightarrow> ('w, unit) go" where
  "set_statuses nodeName inner [] = State_Monad.return ()"
| "set_statuses nodeName inner (st # sts) = do {
     SetSnapshotTasksByNode nodeName st (the (map_of inner st));
     set_statuses nodeName inner sts
   }"

fun set_nodes :: "'w env \<Rightarrow> node_counts \<Rightarrow> string list \<Rightarrow> ('w, unit) go" where
  "set_nodes E m [] = State_Monad.return ()"
| "set_nodes E m (n # ns) = do {
     let inner = the (map_of m n);
     sts \<leftarrow> in_world (env_map_order E (map fst inner));
     set_statuses n inner sts;
     set_nodes E m ns
   }"

definition collectSnapshotPodTaskMetrics :: "'w env \<Rightarrow> ('w, go_error option) go" where
  "collectSnapshotPodTaskMetrics E = do {
     emit [GaugeReset ''snapshot_tasks_by_node''];
     res \<leftarrow> in_world (env_list_tasks E None);
     (case res of
        Inl err \<Rightarrow> State_Monad.return (Some err)
      | Inr items \<Rightarrow> do {
          let nodeStatusCounts = foldl count_task [] items;
          ns \<leftarrow> in_world (env_map_order E (map fst nodeStatusCounts));
          set_nodes E nodeStatusCounts ns;
          State_Monad.return None
        })
   }"

definition collectMetrics :: "'w env \<Rightarrow> ('w, go_error option) go" where
  "collectMetrics E = do {
     err \<leftarrow> collectSnapshotPodMetrics E;
     (case err of
        Some e \<Rightarrow> State_Monad.return (Some e)
      | None \<Rightarrow> collectSnapshotPodTaskMetrics E)
   }"

text \<open>The loop of \<^verbatim>\<open>Start\<close> over what its \<^verbatim>\<open>select\<close> receives: a tick of the 30 second ticker, or the end of the
  context. The result says whether the loop has returned. An error is only logged.\<close>
datatype select_event = Tick | CtxDone

fun Collector_Start :: "'w env \<Rightarrow> select_event list \<Rightarrow> ('w, bool) go" where
  "Collector_Start E [] = State_Monad.return False"
| "Collector_Start E (CtxDone # evs) = State_Monad.return True"
| "Collector_Start E (Tick # evs) = do {
     err \<leftarrow> collectMetrics E;
     Collector_Start E evs
   }"

section \<open>The counts\<close>

definition lookup2 :: "node_counts \<Rightarrow> string \<Rightarrow> string \<Rightarrow> nat option" where
  "lookup2 m n st = Option.bind (map_of m n) (\<lambda>inner. map_of inner st)"

text \<open>How many of the listed tasks are on the node and in the status; None for none.\<close>
definition tasks_in :: "SnapshotPodTask list \<Rightarrow> string \<Rightarrow> string \<Rightarrow> nat option" where
  "tasks_in items n st = (let k = length (filter (\<lambda>t. spts_NodeName (spt_Spec t) = n \<and> task_status t = st) items)
     in if k = 0 then None else Some k)"

definition distinct2 :: "node_counts \<Rightarrow> bool" where
  "distinct2 m \<longleftrightarrow> distinct (map fst m) \<and> (\<forall>(n, inner)\<in>set m. distinct (map fst inner))"

lemma distinct2_update:
  assumes "distinct2 m" and "distinct (map fst i)"
  shows "distinct2 (AList.update n i m)"
proof -
  have "x \<in> set (AList.update n i m) \<Longrightarrow> x = (n, i) \<or> x \<in> set m" for x
    by (induction m) (auto split: if_splits)
  then show ?thesis using assms by (fastforce simp: distinct2_def distinct_update)
qed

lemma count_task_distinct2:
  assumes "distinct2 m"
  shows "distinct2 (count_task m t)"
proof -
  have "distinct (map fst (case map_of m n of None \<Rightarrow> [] | Some i \<Rightarrow> i))" for n
    using assms by (auto simp: distinct2_def split: option.split dest!: map_of_SomeD)
  then show ?thesis unfolding count_task_def Let_def by (intro distinct2_update assms distinct_update)
qed

lemma count_tasks:
  "lookup2 (foldl count_task [] items) n st = tasks_in items n st \<and> distinct2 (foldl count_task [] items)"
proof (induction items arbitrary: n st rule: rev_induct)
  case Nil
  show ?case by (simp add: lookup2_def tasks_in_def distinct2_def)
next
  case (snoc t items)
  let ?m = "foldl count_task [] items" and ?n = "spts_NodeName (spt_Spec t)" and ?st = "task_status t"
  have old: "lookup2 ?m a b = tasks_in items a b" for a b using snoc by blast
  have d: "distinct2 ?m" using snoc by blast
  let ?inner = "case map_of ?m ?n of None \<Rightarrow> [] | Some i \<Rightarrow> i"
  have inner: "map_of ?inner b = tasks_in items ?n b" for b
    using old [of ?n b] by (cases "map_of ?m ?n") (auto simp: lookup2_def)
  have "lookup2 (count_task ?m t) n st = tasks_in (items @ [t]) n st"
    using old [of n st] inner [of st] inner [of ?st]
    by (auto simp: lookup2_def count_task_def Let_def update_conv' tasks_in_def split: option.splits if_splits)
  moreover have "distinct2 (count_task ?m t)" by (rule count_task_distinct2 [OF d])
  ultimately show ?case by simp
qed

section \<open>The gauges\<close>

text \<open>All entries with their labels.\<close>
definition flat :: "node_counts \<Rightarrow> (string list \<times> nat) list" where
  "flat m = concat (map (\<lambda>(n, inner). map (\<lambda>(st, k). ([n, st], k)) inner) m)"

lemma set_statuses_run:
  "run_state (set_statuses n inner sts) s = ((), s\<lparr>gs_metrics := gs_metrics s @
     map (\<lambda>(ls, v). GaugeSet ''snapshot_tasks_by_node'' ls v) (map (\<lambda>st. ([n, st], the (map_of inner st))) sts)\<rparr>)"
  by (induction sts arbitrary: s) (simp_all add: SetSnapshotTasksByNode_def)

lemma set_actives_run:
  "run_state (set_actives items) s = ((), s\<lparr>gs_metrics := gs_metrics s @
     map (\<lambda>(ls, v). GaugeSet ''snapshot_active_tasks'' ls v)
       (map (\<lambda>sp. ([om_Namespace (sp_meta sp), om_Name (sp_meta sp)], active_count sp)) items)\<rparr>)"
  by (induction items arbitrary: s) (simp_all add: SetActiveSnapshotTasks_def)

lemma flat_Cons: "flat ((n, inner) # m) = map (\<lambda>(st, k). ([n, st], k)) inner @ flat m"
  by (simp add: flat_def)

lemma flat_lookup:
  assumes "distinct2 m"
  shows "distinct (map fst (flat m))" and "([n, st], k) \<in> set (flat m) \<longleftrightarrow> lookup2 m n st = Some k"
proof -
  show "distinct (map fst (flat m))" using assms
  proof (induction m)
    case (Cons e m)
    obtain n inner where e: "e = (n, inner)" by (cases e)
    have "distinct (map fst (map (\<lambda>(st, k). ([n, st], k)) inner))"
      using Cons.prems e by (simp add: distinct2_def distinct_map inj_on_def case_prod_unfold comp_def)
    moreover have "distinct (map fst (flat m))" using Cons.IH Cons.prems by (simp add: distinct2_def)
    moreover have "set (map fst (map (\<lambda>(st, k). ([n, st], k)) inner)) \<inter> set (map fst (flat m)) = {}"
      using Cons.prems e by (force simp: flat_def distinct2_def)
    ultimately show ?case unfolding e flat_Cons map_append distinct_append by blast
  qed (simp add: flat_def)
  have "([n, st], k) \<in> set (flat m) \<longleftrightarrow> (\<exists>inner. (n, inner) \<in> set m \<and> (st, k) \<in> set inner)"
    by (force simp: flat_def)
  also have "\<dots> \<longleftrightarrow> lookup2 m n st = Some k"
  proof
    assume "\<exists>inner. (n, inner) \<in> set m \<and> (st, k) \<in> set inner"
    then obtain inner where i: "(n, inner) \<in> set m" "(st, k) \<in> set inner" by blast
    then have "map_of m n = Some inner" using assms by (simp add: distinct2_def)
    moreover have "map_of inner st = Some k" using i assms by (auto simp: distinct2_def)
    ultimately show "lookup2 m n st = Some k" by (simp add: lookup2_def)
  next
    assume "lookup2 m n st = Some k"
    then show "\<exists>inner. (n, inner) \<in> set m \<and> (st, k) \<in> set inner"
      by (auto simp: lookup2_def bind_eq_Some_conv dest: map_of_SomeD)
  qed
  finally show "([n, st], k) \<in> set (flat m) \<longleftrightarrow> lookup2 m n st = Some k" .
qed

text \<open>The map with its keys in another order.\<close>
definition reorder :: "string list \<Rightarrow> node_counts \<Rightarrow> node_counts" where
  "reorder ks m = map (\<lambda>k. (k, the (map_of m k))) ks"

lemma reorder_same:
  assumes "distinct2 m" and "mset ks = mset (map fst m)"
  shows "distinct2 (reorder ks m)" and "lookup2 (reorder ks m) = lookup2 m"
proof -
  have ks: "distinct ks" "set ks = fst ` set m"
    using assms mset_eq_imp_distinct_iff [OF assms(2)] mset_eq_setD [OF assms(2)] by (simp_all add: distinct2_def)
  show "lookup2 (reorder ks m) = lookup2 m"
    using map_of_keys [OF ks(2)] by (simp add: lookup2_def [abs_def] reorder_def)
  have "distinct (map fst (the (map_of m k)))" if "k \<in> set ks" for k
  proof -
    have "map_of m k \<noteq> None" using that ks(2) by (simp add: map_of_eq_None_iff)
    then obtain i where i: "map_of m k = Some i" by blast
    from map_of_SomeD [OF this] show ?thesis using assms(1) unfolding i distinct2_def by fastforce
  qed
  then have "\<forall>x\<in>set (reorder ks m). distinct (map fst (snd x))" unfolding reorder_def by simp
  moreover have "map fst (reorder ks m) = ks" by (simp add: reorder_def comp_def)
  ultimately show "distinct2 (reorder ks m)" using ks(1) by (simp add: distinct2_def case_prod_unfold)
qed

context sp_api
begin

lemma set_nodes_run:
  assumes "run_state (set_nodes E m ks) s = ((), s')" and "distinct2 (reorder ks m)"
  shows "\<exists>kvs. gs_metrics s' = gs_metrics s @ map (\<lambda>(ls, v). GaugeSet ''snapshot_tasks_by_node'' ls v) kvs \<and>
    mset kvs = mset (flat (reorder ks m))"
  using assms
proof (induction ks arbitrary: s)
  case Nil
  then show ?case by (intro exI [of _ "[]"]) (simp add: flat_def reorder_def)
next
  case (Cons n ks)
  let ?inner = "the (map_of m n)"
  obtain sts w where order: "run_state (env_map_order E (map fst ?inner)) (gs_world s) = (sts, w)" by fastforce
  let ?kvs = "map (\<lambda>st. ([n, st], the (map_of ?inner st))) sts"
  let ?s1 = "s\<lparr>gs_world := w, gs_metrics := gs_metrics s @ map (\<lambda>(ls, v). GaugeSet ''snapshot_tasks_by_node'' ls v) ?kvs\<rparr>"
  have rest: "run_state (set_nodes E m ks) ?s1 = ((), s')"
    using Cons.prems(1) order by (simp add: Let_def set_statuses_run)
  have d: "distinct2 (reorder ks m)" "distinct (map fst ?inner)"
    using Cons.prems(2) by (simp_all add: distinct2_def reorder_def)
  obtain kvs where kvs: "gs_metrics s' = gs_metrics ?s1 @ map (\<lambda>(ls, v). GaugeSet ''snapshot_tasks_by_node'' ls v) kvs"
      "mset kvs = mset (flat (reorder ks m))" using Cons.IH [OF rest d(1)] by blast
  have sts: "mset sts = mset (map fst ?inner)" using range_keys [of "map fst ?inner" "gs_world s"] order by simp
  have "mset ?kvs = image_mset (\<lambda>st. ([n, st], the (map_of ?inner st))) (mset sts)" by simp
  also have "\<dots> = mset (map (\<lambda>x. ([n, fst x], the (map_of ?inner (fst x)))) ?inner)" unfolding sts by (simp add: image_mset.compositionality comp_def)
  also have "map (\<lambda>x. ([n, fst x], the (map_of ?inner (fst x)))) ?inner = map (\<lambda>(st, k). ([n, st], k)) ?inner"
    using d(2) by (intro map_cong) auto
  finally have "mset (?kvs @ kvs) = mset (flat (reorder (n # ks) m))" using kvs(2) by (simp add: flat_def reorder_def)
  then show ?case using kvs(1) by (intro exI [of _ "?kvs @ kvs"]) simp
qed

text \<open>After a collection the gauge of a node and status is the number of listed tasks there.\<close>
lemma task_gauges:
  assumes "run_state (collectSnapshotPodTaskMetrics E) s = (err, s')"
  shows "case fst (run_state (env_list_tasks E None) (gs_world s)) of
      Inl e \<Rightarrow> err = Some e \<and> gauge_value (gs_metrics s') ''snapshot_tasks_by_node'' [n, st] = None
    | Inr items \<Rightarrow> err = None \<and> gauge_value (gs_metrics s') ''snapshot_tasks_by_node'' [n, st] = tasks_in items n st"
proof -
  let ?g = "''snapshot_tasks_by_node''"
  obtain res w where list: "run_state (env_list_tasks E None) (gs_world s) = (res, w)" by fastforce
  show ?thesis
  proof (cases res)
    case (Inl e)
    then show ?thesis using assms list metric_log.gauge_reset_sets [of "gs_metrics s" ?g "[]" "[n, st]"]
      by (auto simp: collectSnapshotPodTaskMetrics_def)
  next
    case (Inr items)
    let ?m = "foldl count_task [] items"
    obtain ks w2 where order: "run_state (env_map_order E (map fst ?m)) w = (ks, w2)" by fastforce
    have ks: "mset ks = mset (map fst ?m)" using range_keys [of "map fst ?m" w] order by simp
    have d: "distinct2 ?m" using count_tasks by blast
    note same = reorder_same [OF d ks]
    have nodes: "run_state (set_nodes E ?m ks) (s\<lparr>gs_metrics := gs_metrics s @ [GaugeReset ?g], gs_world := w2\<rparr>) = ((), s')" and err: "err = None"
      using assms list order Inr by (auto simp: collectSnapshotPodTaskMetrics_def Let_def split: prod.splits)
    obtain kvs where kvs: "gs_metrics s' = (gs_metrics s @ [GaugeReset ?g]) @ map (\<lambda>(ls, v). GaugeSet ?g ls v) kvs"
        "mset kvs = mset (flat (reorder ks ?m))" using set_nodes_run [OF nodes same(1)] by auto
    have dist: "distinct (map fst kvs)"
      using flat_lookup(1) [OF same(1)] mset_eq_imp_distinct_iff [of "map fst kvs" "map fst (flat (reorder ks ?m))"] kvs(2) by simp
    have "gauge_value (gs_metrics s') ?g [n, st] = map_of kvs [n, st]"
      using kvs(1) metric_log.gauge_reset_sets [of "gs_metrics s" ?g kvs "[n, st]"] dist
        map_of_inject_set [of "rev kvs" kvs] by (simp add: rev_map [symmetric])
    also have "\<dots> = tasks_in items n st"
    proof -
      have "map_of kvs [n, st] = Some k \<longleftrightarrow> tasks_in items n st = Some k" for k
        using dist mset_eq_setD [OF kvs(2)] flat_lookup(2) [OF same(1), of n st k] same(2) count_tasks [of items n st] by simp
      then show ?thesis by (metis option.exhaust)
    qed
    finally show ?thesis using list Inr err by simp
  qed
qed

text \<open>After a collection the gauge of a \<^verbatim>\<open>SnapshotPod\<close> is its number of unfinished snapshots.\<close>
lemma active_gauges:
  assumes "run_state (collectSnapshotPodMetrics E) s = (err, s')"
  shows "gauge_value (gs_metrics s') ''snapshot_active_tasks'' [ns, nm] =
    (if err = None then map_option active_count (sps (gs_world s) (ns, nm)) else None)"
proof -
  let ?g = "''snapshot_active_tasks''"
  obtain res w where list: "run_state (env_list_snapshotpods E None) (gs_world s) = (res, w)" by fastforce
  show ?thesis
  proof (cases res)
    case (Inl e)
    then show ?thesis using assms list metric_log.gauge_reset_sets [of "gs_metrics s" ?g "[]" "[ns, nm]"]
      by (auto simp: collectSnapshotPodMetrics_def)
  next
    case (Inr items)
    let ?kvs = "map (\<lambda>sp. ([om_Namespace (sp_meta sp), om_Name (sp_meta sp)], active_count sp)) items"
    have "gauge_value (gs_metrics s') ?g [ns, nm] = map_of (rev ?kvs) [ns, nm]" and err: "err = None"
      using assms list Inr metric_log.gauge_reset_sets [of "gs_metrics s" ?g ?kvs "[ns, nm]"]
      by (auto simp: collectSnapshotPodMetrics_def set_actives_run)
    moreover have stored: "p \<in> set items \<longleftrightarrow> sps (gs_world s) (sp_key p) = Some p" for p
      using list_all_sps_ok [of "gs_world s" items p] list Inr by simp
    have "map_of (rev ?kvs) [ns, nm] = map_option active_count (sps (gs_world s) (ns, nm))"
    proof (cases "sps (gs_world s) (ns, nm)")
      case None
      then show ?thesis using stored by (auto simp: map_of_eq_None_iff)
    next
      case (Some p)
      have key: "sp_key p = (ns, nm)" by (rule sp_filed [OF Some])
      then have "p \<in> set items" using stored Some by simp
      then obtain v where v: "map_of (rev ?kvs) [ns, nm] = Some v"
        using key by (cases "map_of (rev ?kvs) [ns, nm]") (auto simp: map_of_eq_None_iff image_iff)
      then obtain q where "q \<in> set items" "sp_key q = (ns, nm)" "v = active_count q"
        by (auto dest!: map_of_SomeD)
      then have "q = p" using stored Some by simp
      then show ?thesis using v Some \<open>v = active_count q\<close> by simp
    qed
    ultimately show ?thesis using err by simp
  qed
qed

end

section \<open>Properties\<close>

text \<open>C36: after a collection \<^verbatim>\<open>snapshot_active_tasks\<close> shows the cluster: for every stored \<^verbatim>\<open>SnapshotPod\<close> its number
  of created or running snapshots, and nothing for a name that is not stored, whatever the vector held
  before. If the list cannot be fetched the vector is left empty.\<close>
theorem active_gauges_exact:
  assumes "sp_api E sps" and "run_state (collectSnapshotPodMetrics E) s = (err, s')"
  shows "gauge_value (gs_metrics s') ''snapshot_active_tasks'' [ns, nm] =
    (if err = None then map_option active_count (sps (gs_world s) (ns, nm)) else None)"
  by (rule sp_api.active_gauges [OF assms])

definition watched_state :: "sim_world gstate" where
  "watched_state = (sim_state (pod_world\<lparr>sw_sps := [((''default'', ''snap''), record_snapshot sample_sp ''app'' sample_task 0)],
      sw_tasks := [((''default'', ''snap-1-app''), sample_task)]\<rparr>))
    \<lparr>gs_metrics := [GaugeSet ''snapshot_active_tasks'' [''default'', ''gone''] 7]\<rparr>"

theorem active_gauges_exact_witness:
  "gauge_value (gs_metrics (snd (run_state (collectSnapshotPodMetrics sim_env) watched_state))) ''snapshot_active_tasks'' [''default'', ''snap''] = Some 1 \<and>
   gauge_value (gs_metrics (snd (run_state (collectSnapshotPodMetrics sim_env) watched_state))) ''snapshot_active_tasks'' [''default'', ''gone''] = None"
proof -
  have ok: "fst (run_state (collectSnapshotPodMetrics sim_env) watched_state) = None"
    by (simp add: collectSnapshotPodMetrics_def watched_state_def sim_list_sps_def api_call_def Let_def pod_world_def
      set_actives_run del: set_actives.simps)
  then have run: "run_state (collectSnapshotPodMetrics sim_env) watched_state =
      (None, snd (run_state (collectSnapshotPodMetrics sim_env) watched_state))" by (metis prod.collapse)
  have "sim_sp_store (gs_world watched_state) (''default'', ''snap'') = Some (record_snapshot sample_sp ''app'' sample_task 0)"
      "sim_sp_store (gs_world watched_state) (''default'', ''gone'') = None"
    by (simp_all add: watched_state_def sim_sp_store_def sample_sp_def)
  then show ?thesis
    unfolding active_gauges_exact [OF sim_webhook.sp_api_axioms run]
    by (simp add: active_count_def record_snapshot_def set_sp_status_def keep_last_def sample_sp_def)
qed

text \<open>C40: after a collection \<^verbatim>\<open>snapshot_tasks_by_node\<close> shows for every node and status the number of listed tasks
  there, and nothing where there is none, whatever the vector held before and in whatever order Go ranges
  over the two maps. If the list cannot be fetched the vector is left empty.\<close>
theorem node_gauges_exact:
  assumes "sp_api E sps" and "run_state (collectSnapshotPodTaskMetrics E) s = (err, s')"
  shows "case fst (run_state (env_list_tasks E None) (gs_world s)) of
      Inl e \<Rightarrow> err = Some e \<and> gauge_value (gs_metrics s') ''snapshot_tasks_by_node'' [n, st] = None
    | Inr items \<Rightarrow> err = None \<and> gauge_value (gs_metrics s') ''snapshot_tasks_by_node'' [n, st] = tasks_in items n st"
  by (rule sp_api.task_gauges [OF assms])

theorem node_gauges_exact_witness:
  "gauge_value (gs_metrics (snd (run_state (collectSnapshotPodTaskMetrics sim_env) watched_state)))
     ''snapshot_tasks_by_node'' [''node1'', ''created''] = Some 1"
proof -
  have "fst (run_state (env_list_tasks sim_env None) (gs_world watched_state)) = Inr [sample_task]"
    by (simp add: watched_state_def sim_list_tasks_def api_call_def Let_def sim_task_store_def pod_world_def sample_task_def
      labels_match_def map_entries_def)
  with node_gauges_exact [OF sim_webhook.sp_api_axioms prod.collapse [symmetric], of watched_state "''node1''" "''created''"]
  show ?thesis
    by (simp add: tasks_in_def task_status_def sample_task_def empty_task_status_def SnapshotTaskStatusCreated_def)
qed

text \<open>The loop ends with its context and never on an error.\<close>
lemma collector_stops: "fst (run_state (Collector_Start E evs) s) \<longleftrightarrow> CtxDone \<in> set evs"
  by (induction E evs arbitrary: s rule: Collector_Start.induct) (auto split: prod.splits)

text \<open>What a collection records is well-labelled.\<close>
lemma collector_metrics_ok: "keeps metrics_ok (collectMetrics E)"
proof -
  have "keeps metrics_ok (set_actives items)" for items
    by (induction items) (auto intro!: metrics_ok_rules simp: metrics_ok_record)
  moreover have "keeps metrics_ok (set_statuses n inner sts)" for n inner sts
    by (induction sts) (auto intro!: metrics_ok_rules simp: metrics_ok_record)
  moreover from this have "keeps metrics_ok (set_nodes E m ks)" for m ks
    by (induction ks) (auto intro!: metrics_ok_rules simp: Let_def)
  moreover have "keeps metrics_ok (emit [GaugeReset ''snapshot_active_tasks''])" "keeps metrics_ok (emit [GaugeReset ''snapshot_tasks_by_node''])"
    by (auto simp: metric_table_defs intro!: metrics_ok_emit)
  ultimately show ?thesis
    unfolding collectMetrics_def collectSnapshotPodMetrics_def collectSnapshotPodTaskMetrics_def Let_def
    by (intro metrics_ok_rules)
qed

end
