(* ===== verification/Bootstrap.thy ===== *)
theory Bootstrap
  imports TaskTheorems
begin

text \<open>
  The program entry \<^verbatim>\<open>cmd/main.go\<close> and the registrations it calls (\<open>SetupWithManager\<close> of the controllers,
  \<open>SetupWebhookWithManager\<close>): what a process runs, depending on its flags and environment variables.
  The controller manager, the certificate rotator and the file system are operations of the
  record \<open>boot_env\<close>; what has been registered with them is kept in the record \<open>process\<close>. Shown: which
  mode a process that serves is in, and which environments it refuses.
\<close>

section \<open>Flags, options and the process\<close>

record flags =
  metricsAddr :: string
  enableLeaderElection :: bool
  probeAddr :: string
  secureMetrics :: bool
  enableHTTP2 :: bool
  systemWideDockerConfigPath :: string
  certDir :: string

text \<open>The values of flags that are not given.\<close>
definition default_flags :: flags where
  "default_flags = \<lparr>metricsAddr = '':8080'', enableLeaderElection = False, probeAddr = '':8081'',
     secureMetrics = False, enableHTTP2 = False, systemWideDockerConfigPath = [], certDir = []\<rparr>"

record tls_config =
  tls_NextProtos :: "string list"

type_synonym tls_opt = "tls_config \<Rightarrow> tls_config"

definition disableHTTP2 :: tls_opt where
  "disableHTTP2 c = c\<lparr>tls_NextProtos := [''http/1.1'']\<rparr>"

definition tlsOpts :: "flags \<Rightarrow> tls_opt list" where
  "tlsOpts fl = (if \<not> enableHTTP2 fl then [disableHTTP2] else [])"

record manager_options =
  mo_MetricsBindAddress :: string
  mo_MetricsSecureServing :: bool
  mo_MetricsTLSOpts :: "tls_opt list"
  mo_WebhookTLSOpts :: "tls_opt list"
  mo_WebhookCertDir :: string
  mo_HealthProbeBindAddress :: string
  mo_LeaderElection :: bool
  mo_LeaderElectionID :: string

definition manager_options_of :: "flags \<Rightarrow> manager_options" where
  "manager_options_of fl = \<lparr>mo_MetricsBindAddress = metricsAddr fl, mo_MetricsSecureServing = secureMetrics fl,
     mo_MetricsTLSOpts = tlsOpts fl, mo_WebhookTLSOpts = tlsOpts fl, mo_WebhookCertDir = certDir fl,
     mo_HealthProbeBindAddress = probeAddr fl, mo_LeaderElection = enableLeaderElection fl,
     mo_LeaderElectionID = ''bb519aed.baizeai.io''\<rparr>"

record cert_rotator =
  cr_SecretNamespace :: string
  cr_SecretName :: string
  cr_CertDir :: string
  cr_RequireLeaderElection :: bool
  cr_CAName :: string
  cr_CAOrganization :: string
  cr_DNSName :: string
  cr_MutatingWebhooks :: "string list"
  cr_FieldOwner :: string

text \<open>The types a group of resources consists of, collected for the scheme of the client.\<close>
record scheme_builder =
  sb_GroupVersion :: group_version
  sb_Types :: "string list"

definition SchemeBuilder :: scheme_builder where
  "SchemeBuilder = \<lparr>sb_GroupVersion = GroupVersion, sb_Types = []\<rparr>"

definition Register :: "string list \<Rightarrow> scheme_builder \<Rightarrow> scheme_builder" where
  "Register objs b = b\<lparr>sb_Types := sb_Types b @ objs\<rparr>"

text \<open>The \<^verbatim>\<open>init\<close> functions of \<^verbatim>\<open>api/v1alpha1\<close>, in the order of their files.\<close>
definition init_SnapshotPod :: "scheme_builder \<Rightarrow> scheme_builder" where
  "init_SnapshotPod = Register [''SnapshotPod'', ''SnapshotPodList'']"

definition init_SnapshotPodTask :: "scheme_builder \<Rightarrow> scheme_builder" where
  "init_SnapshotPodTask = Register [''SnapshotPodTask'', ''SnapshotPodTaskList'']"

definition registered_types :: scheme_builder where
  "registered_types = init_SnapshotPodTask (init_SnapshotPod SchemeBuilder)"

text \<open>What the sources call of the operating system and of libraries here.\<close>
record 'w boot_env =
  be_add_clientgo :: "('w, go_error option) state"
  be_add_types :: "scheme_builder \<Rightarrow> ('w, go_error option) state"
  be_new_manager :: "manager_options \<Rightarrow> ('w, go_error option) state"
  be_user_home_dir :: "('w, string \<times> go_error option) state"
  be_read_file :: "string \<Rightarrow> ('w, go_error + string) state"
  be_write_file :: "string \<Rightarrow> string \<Rightarrow> nat \<Rightarrow> ('w, go_error option) state"
  be_complete_controller :: "string \<Rightarrow> ('w, go_error option) state"
  be_complete_webhook :: "string \<Rightarrow> ('w, go_error option) state"
  be_add_rotator :: "cert_rotator \<Rightarrow> ('w, go_error option) state"
  be_add_healthz :: "string \<Rightarrow> ('w, go_error option) state"
  be_add_readyz :: "string \<Rightarrow> ('w, go_error option) state"
  be_start :: "('w, go_error option) state"

text \<open>
  What the process has set up: its manager, the reconcilers registered with it, the rotator, the
  goroutine that waits for the certificates, the paths of the webhook server with the flag
  \<open>RecoverPanic\<close> of their handlers, the collector goroutine, the checks, and whether it came to serve.
\<close>
record 'w process =
  pr_manager :: "manager_options option"
  pr_task_reconciler :: "'w SnapshotPodTaskReconciler option"
  pr_pod_reconciler :: bool
  pr_rotator :: "cert_rotator option"
  pr_webhook_when_ready :: bool
  pr_webhook_paths :: "(string \<times> bool) list"
  pr_collector :: bool
  pr_checks :: "string list"
  pr_served :: bool

definition new_process :: "'w process" where
  "new_process = \<lparr>pr_manager = None, pr_task_reconciler = None, pr_pod_reconciler = False, pr_rotator = None,
     pr_webhook_when_ready = False, pr_webhook_paths = [], pr_collector = False, pr_checks = [], pr_served = False\<rparr>"

text \<open>How the process ends: \<^verbatim>\<open>os.Exit\<close>, a panic, or a return from \<^verbatim>\<open>main\<close>.\<close>
datatype process_exit = ExitCode nat | PanicExit string | MainReturned

text \<open>A part of \<^verbatim>\<open>main\<close>: the process so far, and its end if the part ended it.\<close>
type_synonym ('w, 's) boot = "('w, 's process \<times> process_exit option) go"

abbreviation proceed :: "'s process \<Rightarrow> ('w, 's) boot" where
  "proceed p \<equiv> State_Monad.return (p, None)"

abbreviation ends :: "'s process \<Rightarrow> process_exit \<Rightarrow> ('w, 's) boot" where
  "ends p e \<equiv> State_Monad.return (p, Some e)"

definition Getenv :: "string \<Rightarrow> ('w, string) go" where
  "Getenv k = do { e \<leftarrow> get_environ; State_Monad.return (case e k of None \<Rightarrow> [] | Some v \<Rightarrow> v) }"

section \<open>Paths\<close>

text \<open>\<^verbatim>\<open>filepath.Join\<close>: the non-empty elements joined by slashes and cleaned of empty, \<^verbatim>\<open>.\<close> and \<^verbatim>\<open>..\<close> elements.\<close>
definition clean_step :: "bool \<Rightarrow> string list \<Rightarrow> string \<Rightarrow> string list" where
  "clean_step rooted out e =
     (if e = [] \<or> e = ''.'' then out
      else if e \<noteq> ''..'' then out @ [e]
      else if out \<noteq> [] \<and> last out \<noteq> ''..'' then butlast out
      else if rooted then out
      else out @ [''..''])"

definition filepath_Clean :: "string \<Rightarrow> string" where
  "filepath_Clean p =
     (let rooted = prefix ''/'' p;
          s = str_join (foldl (clean_step rooted) [] (str_split p ''/'')) ''/''
      in if rooted then ''/'' @ s else if s = [] then ''.'' else s)"

definition filepath_Join :: "string list \<Rightarrow> string" where
  "filepath_Join es = (case filter (\<lambda>e. e \<noteq> []) es of [] \<Rightarrow> [] | ne \<Rightarrow> filepath_Clean (str_join ne ''/''))"

section \<open>Registrations\<close>

text \<open>\<open>SetupWithManager\<close> of the SnapshotPod controller.\<close>
definition Pod_SetupWithManager :: "'w boot_env \<Rightarrow> ('w, go_error option) go" where
  "Pod_SetupWithManager B = in_world (be_complete_controller B ''SnapshotPod'')"

text \<open>\<open>SetupWithManager\<close> of the task controller: the runtimes (in \<open>TaskController\<close>), then the registration.\<close>
definition Task_SetupAndComplete ::
  "'w env \<Rightarrow> 'w boot_env \<Rightarrow> 'w SnapshotPodTaskReconciler \<Rightarrow> ('w, (go_error + 'w SnapshotPodTaskReconciler) outcome) go" where
  "Task_SetupAndComplete E B r = do {
     x \<leftarrow> Task_SetupWithManager E r;
     (case x of
        Done (Inr r') \<Rightarrow> do {
          c \<leftarrow> in_world (be_complete_controller B ''SnapshotPodTask'');
          State_Monad.return (Done (case c of Some err \<Rightarrow> Inl err | None \<Rightarrow> Inr r'))
        }
      | Done (Inl err) \<Rightarrow> State_Monad.return (Done (Inl err))
      | Panicked m \<Rightarrow> State_Monad.return (Panicked m))
   }"

definition SetupWebhookWithManager :: "'w boot_env \<Rightarrow> 's process \<Rightarrow> ('w, 's process \<times> go_error option) go" where
  "SetupWebhookWithManager B p = do {
     let p = p\<lparr>pr_webhook_paths := pr_webhook_paths p @ [(''/mutate-v1-pod'', True)]\<rparr>;
     err \<leftarrow> in_world (be_complete_webhook B ''Pod'');
     State_Monad.return (p, err)
   }"

section \<open>The entry\<close>

text \<open>The copy of the Docker configuration into the home directory; an error panics.\<close>
definition copy_docker_config :: "'w boot_env \<Rightarrow> string \<Rightarrow> ('w, string option) go" where
  "copy_docker_config B path = do {
     (h, ignored) \<leftarrow> in_world (be_user_home_dir B);
     bs \<leftarrow> in_world (be_read_file B path);
     (case bs of
        Inl err \<Rightarrow> State_Monad.return (Some (error_text err))
      | Inr content \<Rightarrow> do {
          err \<leftarrow> in_world (be_write_file B (filepath_Join [h, ''.docker'', ''config.json'']) content 420);
          State_Monad.return (map_option error_text err)
        })
   }"

text \<open>The process of a node, which runs the task controller.\<close>
definition node_mode :: "'w env \<Rightarrow> 'w boot_env \<Rightarrow> flags \<Rightarrow> string \<Rightarrow> 'w process \<Rightarrow> ('w, 'w) boot" where
  "node_mode E B fl nn p = do {
     panic \<leftarrow> (if systemWideDockerConfigPath fl \<noteq> []
               then copy_docker_config B (systemWideDockerConfigPath fl)
               else State_Monad.return None);
     (case panic of
        Some m \<Rightarrow> ends p (PanicExit m)
      | None \<Rightarrow> do {
          x \<leftarrow> Task_SetupAndComplete E B \<lparr>tr_NodeName = nn, tr_runtimeMap = []\<rparr>;
          (case x of
             Panicked m \<Rightarrow> ends p (PanicExit m)
           | Done (Inl err) \<Rightarrow> ends p (ExitCode 1)
           | Done (Inr r) \<Rightarrow> proceed (p\<lparr>pr_task_reconciler := Some r\<rparr>))
        })
   }"

definition cert_rotator_of :: "flags \<Rightarrow> string \<Rightarrow> string \<Rightarrow> string \<Rightarrow> string \<Rightarrow> cert_rotator" where
  "cert_rotator_of fl ns secret svc hook = \<lparr>cr_SecretNamespace = ns, cr_SecretName = secret,
     cr_CertDir = certDir fl, cr_RequireLeaderElection = False, cr_CAName = ''Webhook'',
     cr_CAOrganization = ''SnapshotPod'', cr_DNSName = svc @ ''.'' @ ns @ ''.svc'',
     cr_MutatingWebhooks = [hook], cr_FieldOwner = ''SnapshotPod''\<rparr>"

text \<open>The central process, which runs the SnapshotPod controller and, once it has certificates, the webhook.\<close>
definition control_mode :: "'w boot_env \<Rightarrow> flags \<Rightarrow> 's process \<Rightarrow> ('w, 's) boot" where
  "control_mode B fl p = do {
     err \<leftarrow> Pod_SetupWithManager B;
     (case err of
        Some e \<Rightarrow> ends p (ExitCode 1)
      | None \<Rightarrow> do {
          let p = p\<lparr>pr_pod_reconciler := True\<rparr>;
          ns \<leftarrow> Getenv ''POD_NAMESPACE'';
          if ns = [] then ends p (PanicExit ''env POD_NAMESPACE must specified'')
          else do {
            secret \<leftarrow> Getenv ''TLS_SECRET_NAME'';
            svc \<leftarrow> Getenv ''MUTATE_WEBHOOK_SVC_NAME'';
            hook \<leftarrow> Getenv ''MUTATE_WEBHOOK_NAME'';
            err \<leftarrow> in_world (be_add_rotator B (cert_rotator_of fl ns secret svc hook));
            (case err of
               Some e \<Rightarrow> ends p (PanicExit (error_text e))
             | None \<Rightarrow> proceed (p\<lparr>pr_rotator := Some (cert_rotator_of fl ns secret svc hook),
                                  pr_webhook_when_ready := True\<rparr>))
          }
        })
   }"

text \<open>The goroutine started there, from the closing of the channel \<^verbatim>\<open>ready\<close> on.\<close>
definition webhook_goroutine :: "'w boot_env \<Rightarrow> 's process \<Rightarrow> ('w, 's) boot" where
  "webhook_goroutine B p = do {
     (p, err) \<leftarrow> SetupWebhookWithManager B p;
     (case err of Some e \<Rightarrow> ends p (ExitCode 1) | None \<Rightarrow> proceed p)
   }"

text \<open>The end of \<^verbatim>\<open>main\<close>: collector, checks, and the manager, which serves until a signal comes.\<close>
definition serve :: "'w boot_env \<Rightarrow> 's process \<Rightarrow> ('w, 's process \<times> process_exit) go" where
  "serve B p = do {
     let p = p\<lparr>pr_collector := True\<rparr>;
     err \<leftarrow> in_world (be_add_healthz B ''healthz'');
     (case err of
        Some e \<Rightarrow> State_Monad.return (p, ExitCode 1)
      | None \<Rightarrow> do {
          err \<leftarrow> in_world (be_add_readyz B ''readyz'');
          (case err of
             Some e \<Rightarrow> State_Monad.return (p\<lparr>pr_checks := [''healthz'']\<rparr>, ExitCode 1)
           | None \<Rightarrow> do {
               let p = p\<lparr>pr_checks := [''healthz'', ''readyz''], pr_served := True\<rparr>;
               err \<leftarrow> in_world (be_start B);
               (case err of
                  Some e \<Rightarrow> State_Monad.return (p, ExitCode 1)
                | None \<Rightarrow> State_Monad.return (p, MainReturned))
             })
        })
   }"

definition main :: "'w env \<Rightarrow> 'w boot_env \<Rightarrow> flags \<Rightarrow> ('w, 'w process \<times> process_exit) go" where
  "main E B fl = do {
     err \<leftarrow> in_world (be_new_manager B (manager_options_of fl));
     (case err of
        Some e \<Rightarrow> State_Monad.return (new_process, ExitCode 1)
      | None \<Rightarrow> do {
          let p = new_process\<lparr>pr_manager := Some (manager_options_of fl)\<rparr>;
          nn \<leftarrow> Getenv ''SNAP_TASK_NODE_NAME'';
          (p, stopped) \<leftarrow> (if nn \<noteq> [] then node_mode E B fl nn p else control_mode B fl p);
          (case stopped of Some e \<Rightarrow> State_Monad.return (p, e) | None \<Rightarrow> serve B p)
        })
   }"

text \<open>\<^verbatim>\<open>utilruntime.Must\<close>: an error panics.\<close>
definition Must :: "go_error option \<Rightarrow> unit outcome" where
  "Must err = (case err of None \<Rightarrow> Done () | Some e \<Rightarrow> Panicked (error_text e))"

text \<open>\<^verbatim>\<open>init\<close> of \<^verbatim>\<open>main.go\<close>, which runs before \<open>main\<close>: the types of Kubernetes and those of the group.\<close>
definition main_init :: "'w boot_env \<Rightarrow> ('w, unit outcome) go" where
  "main_init B = do {
     err \<leftarrow> in_world (be_add_clientgo B);
     (case Must err of
        Panicked m \<Rightarrow> State_Monad.return (Panicked m)
      | Done u \<Rightarrow> do {
          err \<leftarrow> in_world (be_add_types B registered_types);
          State_Monad.return (Must err)
        })
   }"

definition program :: "'w env \<Rightarrow> 'w boot_env \<Rightarrow> flags \<Rightarrow> ('w, 'w process \<times> process_exit) go" where
  "program E B fl = do {
     x \<leftarrow> main_init B;
     (case x of
        Panicked m \<Rightarrow> State_Monad.return (new_process, PanicExit m)
      | Done u \<Rightarrow> main E B fl)
   }"

section \<open>What a process runs\<close>

text \<open>The value of an environment variable, empty if it is not set.\<close>
definition environ :: "'w gstate \<Rightarrow> string \<Rightarrow> string" where
  "environ s k = (case gs_env s k of None \<Rightarrow> [] | Some v \<Rightarrow> v)"

lemma run_Getenv [simp]: "run_state (Getenv k) s = (environ s k, s)"
  by (simp add: Getenv_def environ_def)

lemma environ_in_world [simp]: "environ (s\<lparr>gs_world := w\<rparr>) k = environ s k"
  by (simp add: environ_def)

lemma node_mode_proceeds:
  assumes "run_state (node_mode E B fl nn p) s = ((p', None), s')"
  shows "\<exists>r t t'. run_state (Task_SetupWithManager E \<lparr>tr_NodeName = nn, tr_runtimeMap = []\<rparr>) t = (Done (Inr r), t') \<and>
    p' = p\<lparr>pr_task_reconciler := Some r\<rparr>"
  using assms unfolding node_mode_def Task_SetupAndComplete_def
  by (auto split: prod.splits option.splits outcome.splits sum.splits)

lemma node_mode_ends: "run_state (node_mode E B fl nn p) s = ((p', Some e), s') \<Longrightarrow> p' = p \<and> e \<noteq> MainReturned"
  unfolding node_mode_def
  by (auto split: prod.splits option.splits outcome.splits sum.splits)

lemma control_mode_proceeds:
  assumes "run_state (control_mode B fl p) s = ((p', None), s')"
  shows "environ s ''POD_NAMESPACE'' \<noteq> [] \<and> p' = p\<lparr>pr_pod_reconciler := True, pr_rotator := Some (cert_rotator_of fl
    (environ s ''POD_NAMESPACE'') (environ s ''TLS_SECRET_NAME'') (environ s ''MUTATE_WEBHOOK_SVC_NAME'')
    (environ s ''MUTATE_WEBHOOK_NAME'')), pr_webhook_when_ready := True\<rparr>"
  using assms unfolding control_mode_def Pod_SetupWithManager_def
  by (auto simp: Let_def split: prod.splits option.splits if_splits)

lemma control_mode_ends:
  "run_state (control_mode B fl p) s = ((p', Some e), s') \<Longrightarrow> pr_served p' = pr_served p \<and> e \<noteq> MainReturned"
  unfolding control_mode_def Pod_SetupWithManager_def
  by (auto simp: Let_def split: prod.splits option.splits if_splits)

lemma modes_do_not_serve:
  assumes "run_state (if b then node_mode E B fl nn p else control_mode B fl p) s = ((p', None), s')"
  shows "pr_served p' = pr_served p"
proof (cases b)
  case True
  then show ?thesis using assms node_mode_proceeds [of E B fl nn p s p' s'] by auto
next
  case False
  then show ?thesis using assms control_mode_proceeds [of B fl p s p' s'] by auto
qed

lemma serve_result:
  assumes "run_state (serve B p) s = ((p', e), s')" and "\<not> pr_served p"
  shows "(pr_served p' \<longrightarrow> p' = p\<lparr>pr_collector := True, pr_checks := [''healthz'', ''readyz''], pr_served := True\<rparr>) \<and>
    (e = MainReturned \<longrightarrow> pr_served p')"
  using assms unfolding serve_def by (auto simp: Let_def split: prod.splits option.splits)

text \<open>A run of \<^verbatim>\<open>main\<close> ends before the mode, in the mode, or in \<open>serve\<close>.\<close>
lemma main_cases:
  assumes "run_state (main E B fl) s = ((p, e), s')"
  obtains (no_manager) "p = new_process" "e = ExitCode 1"
  | (stopped) p1 s1 where "environ s1 = environ s" "p1 = new_process\<lparr>pr_manager := Some (manager_options_of fl)\<rparr>"
      "run_state (if environ s ''SNAP_TASK_NODE_NAME'' \<noteq> [] then node_mode E B fl (environ s ''SNAP_TASK_NODE_NAME'') p1
        else control_mode B fl p1) s1 = ((p, Some e), s')"
  | (served) p1 s1 p2 s2 where "environ s1 = environ s" "p1 = new_process\<lparr>pr_manager := Some (manager_options_of fl)\<rparr>"
      "run_state (if environ s ''SNAP_TASK_NODE_NAME'' \<noteq> [] then node_mode E B fl (environ s ''SNAP_TASK_NODE_NAME'') p1
        else control_mode B fl p1) s1 = ((p2, None), s2)"
      "run_state (serve B p2) s2 = ((p, e), s')"
proof -
  let ?s1 = "s\<lparr>gs_world := snd (run_state (be_new_manager B (manager_options_of fl)) (gs_world s))\<rparr>"
  have env: "environ ?s1 = environ s" by (rule ext) simp
  show thesis using assms no_manager stopped [OF env refl] served [OF env refl] unfolding main_def
    by (auto simp: Let_def split: prod.splits option.splits)
qed

text \<open>C31: A process that comes to serve runs the task controller of the node named by
  \<^verbatim>\<open>SNAP_TASK_NODE_NAME\<close>, with runtimes that meet the contract behind the theorems on tasks, and nothing
  else; or, without that variable, the SnapshotPod controller and the webhook, with certificates
  for the service in \<^verbatim>\<open>POD_NAMESPACE\<close>, and no task controller. In both cases it has the metrics
  collector and both health checks.\<close>
theorem served_process_complete:
  assumes "task_api E tasks" and "run_state (main E B fl) s = ((p, e), s')" and "pr_served p"
  shows "pr_manager p = Some (manager_options_of fl) \<and> pr_collector p \<and> pr_checks p = [''healthz'', ''readyz''] \<and>
    (let nn = environ s ''SNAP_TASK_NODE_NAME''; ns = environ s ''POD_NAMESPACE'' in
     if nn \<noteq> []
     then (\<exists>r. pr_task_reconciler p = Some r \<and> tr_NodeName r = nn \<and> task_world E tasks r) \<and>
       \<not> pr_pod_reconciler p \<and> \<not> pr_webhook_when_ready p
     else pr_task_reconciler p = None \<and> pr_pod_reconciler p \<and> pr_webhook_when_ready p \<and> ns \<noteq> [] \<and>
       map_option cr_DNSName (pr_rotator p) = Some (environ s ''MUTATE_WEBHOOK_SVC_NAME'' @ ''.'' @ ns @ ''.svc'') \<and>
       map_option cr_SecretNamespace (pr_rotator p) = Some ns)"
  using assms(2)
proof (cases rule: main_cases)
  case no_manager
  then show ?thesis using assms(3) by (simp add: new_process_def)
next
  case (stopped p1 s1)
  then show ?thesis using assms(3) node_mode_ends control_mode_ends
    by (fastforce simp: new_process_def split: if_splits)
next
  case (served p1 s1 p2 s2)
  have p1: "p1 = new_process\<lparr>pr_manager := Some (manager_options_of fl)\<rparr>" by (rule served(2))
  show ?thesis
  proof (cases "environ s ''SNAP_TASK_NODE_NAME'' = []")
    case True
    then have r: "run_state (control_mode B fl p1) s1 = ((p2, None), s2)" using served(3) by simp
    note c = control_mode_proceeds [OF r]
    then have "\<not> pr_served p2" using p1 by (simp add: new_process_def)
    with serve_result [OF served(4)] assms(3) c True p1 served(1) show ?thesis
      by (simp add: new_process_def cert_rotator_of_def)
  next
    case False
    then have "run_state (node_mode E B fl (environ s ''SNAP_TASK_NODE_NAME'') p1) s1 = ((p2, None), s2)"
      using served(3) by simp
    from node_mode_proceeds [OF this] obtain r t t' where
      r: "run_state (Task_SetupWithManager E \<lparr>tr_NodeName = environ s ''SNAP_TASK_NODE_NAME'', tr_runtimeMap = []\<rparr>) t
        = (Done (Inr r), t')" and p2: "p2 = p1\<lparr>pr_task_reconciler := Some r\<rparr>" by blast
    then have "\<not> pr_served p2" using p1 by (simp add: new_process_def)
    with serve_result [OF served(4)] assms(3) p2 p1 False setup_gives_world [OF assms(1) r] show ?thesis
      by (simp add: new_process_def)
  qed
qed

text \<open>Libraries that report no error.\<close>
definition sim_boot :: "sim_world boot_env" where
  "sim_boot = \<lparr>be_add_clientgo = State_Monad.return None, be_add_types = (\<lambda>b. State_Monad.return None),
     be_new_manager = (\<lambda>opts. State_Monad.return None),
     be_user_home_dir = State_Monad.return (''/root'', None),
     be_read_file = (\<lambda>path. State_Monad.return (Inr ''{}'')),
     be_write_file = (\<lambda>path content mode. State_Monad.return None),
     be_complete_controller = (\<lambda>kind. State_Monad.return None),
     be_complete_webhook = (\<lambda>kind. State_Monad.return None),
     be_add_rotator = (\<lambda>rot. State_Monad.return None),
     be_add_healthz = (\<lambda>name. State_Monad.return None),
     be_add_readyz = (\<lambda>name. State_Monad.return None),
     be_start = State_Monad.return None\<rparr>"

definition node_start :: "sim_world gstate" where
  "node_start = (sim_state nerdctl_world)\<lparr>gs_env := [''SNAP_TASK_NODE_NAME'' \<mapsto> ''node-1'']\<rparr>"

lemma served_process_complete_witness:
  "\<exists>p r s'. run_state (main sim_env sim_boot default_flags) node_start = ((p, MainReturned), s') \<and>
     pr_task_reconciler p = Some r \<and> tr_NodeName r = ''node-1'' \<and> task_world sim_env sim_task_store r \<and>
     \<not> pr_pod_reconciler p \<and> pr_collector p"
proof -
  let ?run = "run_state (main sim_env sim_boot default_flags) node_start"
  have "(case ?run of ((p, e), s') \<Rightarrow> pr_served p \<and> e = MainReturned)" by code_simp
  then obtain p s' where r: "?run = ((p, MainReturned), s')" "pr_served p" by (auto split: prod.splits)
  have "environ node_start ''SNAP_TASK_NODE_NAME'' = ''node-1''" by (simp add: node_start_def environ_def)
  with served_process_complete [OF sim_tasks.task_api_axioms r] r(1) show ?thesis by (auto simp: Let_def)
qed

text \<open>C32: A process that does not come to serve ends with an exit code or a panic, never with a return from
  \<^verbatim>\<open>main\<close>; and with neither \<^verbatim>\<open>SNAP_TASK_NODE_NAME\<close> nor \<^verbatim>\<open>POD_NAMESPACE\<close> set it does not come to serve and
  asks for no certificates.\<close>
theorem startup_failures:
  assumes "run_state (main E B fl) s = ((p, e), s')"
  shows "(e = MainReturned \<longrightarrow> pr_served p) \<and>
    (environ s ''SNAP_TASK_NODE_NAME'' = [] \<and> environ s ''POD_NAMESPACE'' = [] \<longrightarrow>
      \<not> pr_served p \<and> e \<noteq> MainReturned)"
  using assms
proof (cases rule: main_cases)
  case no_manager
  then show ?thesis by (simp add: new_process_def)
next
  case (stopped p1 s1)
  then show ?thesis using node_mode_ends control_mode_ends
    by (fastforce simp: new_process_def split: if_splits)
next
  case (served p1 s1 p2 s2)
  have "\<not> pr_served p2" using modes_do_not_serve [OF served(3)] served(2) by (simp add: new_process_def)
  with serve_result [OF served(4)] served(1,3) control_mode_proceeds [of B fl p1 s1 p2 s2] show ?thesis
    by (auto split: if_splits)
qed

lemma startup_failures_witness:
  "\<exists>p e s'. run_state (main sim_env sim_boot default_flags) (node_start\<lparr>gs_env := Map.empty\<rparr>) = ((p, e), s') \<and>
     \<not> pr_served p \<and> e \<noteq> MainReturned"
proof -
  let ?s = "node_start\<lparr>gs_env := Map.empty\<rparr>"
  obtain p e s' where r: "run_state (main sim_env sim_boot default_flags) ?s = ((p, e), s')"
    by (metis prod.collapse)
  have "environ ?s k = []" for k by (simp add: environ_def)
  with startup_failures [OF r] r show ?thesis by blast
qed

text \<open>A program that comes to serve has registered both resources and their lists, and is a run of \<open>main\<close>.\<close>
lemma program_serves:
  assumes "run_state (program E B fl) s = ((p, e), s')" and "pr_served p"
  shows "\<exists>w w' s1. run_state (be_add_types B \<lparr>sb_GroupVersion = \<lparr>gv_Group = ''snapshot-pod.baizeai.io'', gv_Version = ''v1alpha1''\<rparr>,
      sb_Types = [''SnapshotPod'', ''SnapshotPodList'', ''SnapshotPodTask'', ''SnapshotPodTaskList'']\<rparr>) w = (None, w') \<and>
    run_state (main E B fl) s1 = ((p, e), s') \<and> environ s1 = environ s"
proof -
  have types: "registered_types = \<lparr>sb_GroupVersion = \<lparr>gv_Group = ''snapshot-pod.baizeai.io'', gv_Version = ''v1alpha1''\<rparr>,
      sb_Types = [''SnapshotPod'', ''SnapshotPodList'', ''SnapshotPodTask'', ''SnapshotPodTaskList'']\<rparr>"
    by (simp add: registered_types_def init_SnapshotPodTask_def init_SnapshotPod_def Register_def SchemeBuilder_def GroupVersion_def)
  obtain x s1 where init: "run_state (main_init B) s = (x, s1)" by (metis prod.collapse)
  show ?thesis
  proof (cases x)
    case (Panicked m)
    then show ?thesis using assms init by (auto simp: program_def new_process_def)
  next
    case (Done u)
    then have "run_state (main E B fl) s1 = ((p, e), s')" using assms(1) init by (simp add: program_def)
    moreover have "\<exists>w w'. run_state (be_add_types B registered_types) w = (None, w')" "environ s1 = environ s"
      using init Done by (auto simp: main_init_def Must_def fun_eq_iff split: option.splits) (metis prod.collapse)
    ultimately show ?thesis unfolding types by blast
  qed
qed

text \<open>Unless HTTP/2 is asked for, both servers offer HTTP/1.1 only, whatever configuration they start from.\<close>
lemma http2_disabled:
  assumes "\<not> enableHTTP2 fl"
  shows "tls_NextProtos (foldl (\<lambda>c f. f c) c (mo_MetricsTLSOpts (manager_options_of fl))) = [''http/1.1''] \<and>
    tls_NextProtos (foldl (\<lambda>c f. f c) c (mo_WebhookTLSOpts (manager_options_of fl))) = [''http/1.1'']"
  using assms by (simp add: manager_options_of_def tlsOpts_def disableHTTP2_def)

text \<open>Without a home directory the Docker configuration is written below the working directory.\<close>
lemma docker_config_path:
  "filepath_Join [''/root'', ''.docker'', ''config.json''] = ''/root/.docker/config.json''"
  "filepath_Join [[], ''.docker'', ''config.json''] = ''.docker/config.json''"
  by code_simp+

end
