(* ===== verification/Store.thy ===== *)
theory Store
  imports ApiTypes "HOL-Library.AList"
begin

text \<open>
  Memory as the generated copy functions of \<^verbatim>\<open>zz_generated.deepcopy.go\<close> see it: a store of cells, the
  resources as structs whose pointers, maps and slices are addresses into it, and the contract
  \<open>deep_copy\<close> of a copy function with the lemmas that compose copy functions of parts to one of
  the whole.
\<close>

section \<open>Structs with references\<close>

type_synonym addr = nat

text \<open>A slice is a window of a backing array; a nil slice, map or pointer is \<open>None\<close>.\<close>
record slice =
  sl_array :: addr
  sl_off :: nat
  sl_len :: nat

record TargetPod_mem =
  tpm_Name :: string
  tpm_Selector :: "addr option"
  tpm_Containers :: "slice option"

record ImageSaveOptions_mem =
  ism_ImageRefFormat :: string
  ism_RegistrySecretRef :: string
  ism_AppendSnappedSuffix :: "addr option"
  ism_MaxRetries :: int32
  ism_RetryDelaySeconds :: int32

record SnapshotPodSpec_mem =
  spm_Target :: TargetPod_mem
  spm_CommitOptions :: CommitOptions
  spm_ImageSaveOptions :: ImageSaveOptions_mem
  spm_AutoSaveOptions :: AutoSaveOptions
  spm_TriggerRound :: int32
  spm_RecoveryRound :: int32

record SnapshotRunningStatus_mem =
  srm_TriggerRound :: int32
  srm_TriggerTime :: gotime
  srm_TaskName :: string
  srm_ImageRef :: string
  srm_ContainerName :: string
  srm_Result :: SnapshotRunningResult
  srm_FailedReason :: string
  srm_CompletedAt :: "addr option"

record SnapshotPodStatus_mem =
  psm_Snapshots :: "slice option"
  psm_Conditions :: "slice option"
  psm_LastTriggerRound :: int32

record type_meta =
  tm_Kind :: string
  tm_APIVersion :: string

record list_meta =
  lm_ResourceVersion :: string
  lm_Continue :: string

text \<open>Object metadata, list metadata and conditions are library types: they are held by value.\<close>
record SnapshotPod_mem =
  pm_TypeMeta :: type_meta
  pm_ObjectMeta :: object_meta
  pm_Spec :: SnapshotPodSpec_mem
  pm_Status :: SnapshotPodStatus_mem

record SnapshotPodTaskStatus_mem =
  tsm_Conditions :: "slice option"
  tsm_Phase :: SnapshotPodTaskPhase
  tsm_RetryCount :: int32
  tsm_LastRetryTime :: "addr option"

record SnapshotPodTask_mem =
  ktm_TypeMeta :: type_meta
  ktm_ObjectMeta :: object_meta
  ktm_Spec :: SnapshotPodTaskSpec
  ktm_Status :: SnapshotPodTaskStatus_mem

text \<open>\<^verbatim>\<open>SnapshotPodList\<close> and \<^verbatim>\<open>SnapshotPodTaskList\<close>, which differ in the type of their items.\<close>
record object_list_mem =
  olm_TypeMeta :: type_meta
  olm_ListMeta :: list_meta
  olm_Items :: "slice option"

section \<open>The store\<close>

text \<open>What a cell holds: a scalar behind a pointer, a map, a backing array, or a struct.\<close>
datatype cell =
    CBool (the_bool: bool)
  | CTime (the_time: gotime)
  | CMap (the_map: "(string \<times> string) list")
  | CStrings (the_strings: "string list")
  | CConditions (the_conditions: "condition list")
  | CSnapshots (the_snapshots: "SnapshotRunningStatus_mem list")
  | CPods (the_pods: "SnapshotPod_mem list")
  | CTasks (the_tasks: "SnapshotPodTask_mem list")
  | CAutoSaveOptions (the_AutoSaveOptions: AutoSaveOptions)
  | CCommitOptions (the_CommitOptions: CommitOptions)
  | CImageSaveOptions (the_ImageSaveOptions: ImageSaveOptions_mem)
  | CTargetPod (the_TargetPod: TargetPod_mem)
  | CPodSpec (the_PodSpec: SnapshotPodSpec_mem)
  | CRunningStatus (the_RunningStatus: SnapshotRunningStatus_mem)
  | CPodStatus (the_PodStatus: SnapshotPodStatus_mem)
  | CPod (the_Pod: SnapshotPod_mem)
  | CPodList (the_PodList: object_list_mem)
  | CTaskSpec (the_TaskSpec: SnapshotPodTaskSpec)
  | CTaskStatus (the_TaskStatus: SnapshotPodTaskStatus_mem)
  | CTask (the_Task: SnapshotPodTask_mem)
  | CTaskList (the_TaskList: object_list_mem)

type_synonym heap = "cell list"

text \<open>Cells are never freed, so the next address is the size of the store.\<close>
definition alloc :: "cell \<Rightarrow> (heap, addr) state" where
  "alloc c = State (\<lambda>h. (length h, h @ [c]))"

definition load :: "addr \<Rightarrow> (heap, cell) state" where
  "load a = State (\<lambda>h. (h ! a, h))"

definition store :: "addr \<Rightarrow> cell \<Rightarrow> (heap, unit) state" where
  "store a c = State (\<lambda>h. ((), h[a := c]))"

lemma run_store_ops [simp]:
  "run_state (alloc c) h = (length h, h @ [c])"
  "run_state (load a) h = (h ! a, h)"
  "run_state (store a c) h = ((), h[a := c])"
  by (simp_all add: alloc_def load_def store_def)

definition elems :: "slice \<Rightarrow> 'e list \<Rightarrow> 'e list" where
  "elems s xs = take (sl_len s) (drop (sl_off s) xs)"

text \<open>\<^verbatim>\<open>for i := range *in { (*in)[i].DeepCopyInto(&(*out)[i]) }\<close>, from index \<open>i\<close> on.\<close>
fun copy_elems ::
  "(cell \<Rightarrow> 'e list) \<Rightarrow> ('e list \<Rightarrow> cell) \<Rightarrow> ('e \<Rightarrow> (heap, 'e) state) \<Rightarrow> slice \<Rightarrow> slice \<Rightarrow> nat \<Rightarrow> nat
    \<Rightarrow> (heap, unit) state" where
  "copy_elems arr mk cp inn out i 0 = State_Monad.return ()"
| "copy_elems arr mk cp inn out i (Suc n) = do {
     c \<leftarrow> load (sl_array inn);
     v \<leftarrow> cp (arr c ! (sl_off inn + i));
     d \<leftarrow> load (sl_array out);
     store (sl_array out) (mk ((arr d)[sl_off out + i := v]));
     copy_elems arr mk cp inn out (Suc i) n
   }"

text \<open>The block of a slice field: guard, \<^verbatim>\<open>make([]T, len(*in))\<close> and the loop; \<open>zero\<close> is the zero value of \<^verbatim>\<open>T\<close>.\<close>
definition copy_slice ::
  "(cell \<Rightarrow> 'e list) \<Rightarrow> ('e list \<Rightarrow> cell) \<Rightarrow> 'e \<Rightarrow> ('e \<Rightarrow> (heap, 'e) state) \<Rightarrow> slice option \<Rightarrow> (heap, slice option) state" where
  "copy_slice arr mk zero cp s = (case s of
     None \<Rightarrow> State_Monad.return None
   | Some inn \<Rightarrow> do {
       a \<leftarrow> alloc (mk (replicate (sl_len inn) zero));
       let out = \<lparr>sl_array = a, sl_off = 0, sl_len = sl_len inn\<rparr>;
       copy_elems arr mk cp inn out 0 (sl_len inn);
       State_Monad.return (Some out)
     })"

text \<open>
  The body of a method \<^verbatim>\<open>DeepCopy\<close>: nil for nil; otherwise \<^verbatim>\<open>new(T)\<close>, which is filled by \<^verbatim>\<open>*out = *in\<close>,
  the statement each \<^verbatim>\<open>DeepCopyInto\<close> begins with, and then by the rest of \<^verbatim>\<open>DeepCopyInto\<close>.
\<close>
definition copy_new ::
  "(cell \<Rightarrow> 'v) \<Rightarrow> ('v \<Rightarrow> cell) \<Rightarrow> ('v \<Rightarrow> (heap, 'v) state) \<Rightarrow> addr option \<Rightarrow> (heap, addr option) state" where
  "copy_new sel mk into p = (case p of
     None \<Rightarrow> State_Monad.return None
   | Some a \<Rightarrow> do {
       c \<leftarrow> load a;
       out \<leftarrow> alloc (mk (sel c));
       v \<leftarrow> into (sel c);
       store out (mk v);
       State_Monad.return (Some out)
     })"

section \<open>The contract of a copy function\<close>

definition same_cells :: "addr set \<Rightarrow> heap \<Rightarrow> heap \<Rightarrow> bool" where
  "same_cells R h h' \<longleftrightarrow> (\<forall>a \<in> R. a < length h' \<and> h' ! a = h ! a)"

lemma same_cells_Un [simp]: "same_cells (R \<union> S) h h' \<longleftrightarrow> same_cells R h h' \<and> same_cells S h h'"
  by (auto simp: same_cells_def)

lemma same_cells_insert [simp]:
  "same_cells (insert a R) h h' \<longleftrightarrow> a < length h' \<and> h' ! a = h ! a \<and> same_cells R h h'"
  by (auto simp: same_cells_def)

lemma same_cells_empty [simp]: "same_cells {} h h'"
  by (simp add: same_cells_def)

lemma same_cells_prefix: "prefix h h' \<Longrightarrow> (\<And>a. a \<in> R \<Longrightarrow> a < length h) \<Longrightarrow> same_cells R h h'"
  by (fastforce simp: same_cells_def prefix_def nth_append)

lemma same_cells_update: "a \<notin> R \<Longrightarrow> (\<And>b. b \<in> R \<Longrightarrow> b < length h) \<Longrightarrow> same_cells R h (h[a := c])"
  unfolding same_cells_def by (metis length_list_update nth_list_update_neq)

lemma same_cells_mono: "same_cells R h h' \<Longrightarrow> S \<subseteq> R \<Longrightarrow> same_cells S h h'"
  by (auto simp: same_cells_def)

text \<open>
  \<open>ok h v\<close>: the references of \<open>v\<close> lead to cells of their kind; \<open>view h v\<close>: the resource \<open>v\<close> stands for;
  \<open>refs h v\<close>: the cells it reaches; \<open>kept h v\<close>: those the copy shares with it. A copy function leaves
  all existing cells alone and returns something that stands for the same resource and shares
  exactly the cells \<open>kept\<close>.
\<close>
locale deep_copy =
  fixes cp :: "'v \<Rightarrow> (heap, 'v) state"
    and ok :: "heap \<Rightarrow> 'v \<Rightarrow> bool"
    and view :: "heap \<Rightarrow> 'v \<Rightarrow> 'w"
    and refs :: "heap \<Rightarrow> 'v \<Rightarrow> addr set"
    and kept :: "heap \<Rightarrow> 'v \<Rightarrow> addr set"
  assumes refs_bound: "ok h v \<Longrightarrow> a \<in> refs h v \<Longrightarrow> a < length h"
    and kept_refs: "ok h v \<Longrightarrow> kept h v \<subseteq> refs h v"
    and frame: "ok h v \<Longrightarrow> same_cells (refs h v) h h' \<Longrightarrow>
      ok h' v \<and> view h' v = view h v \<and> refs h' v = refs h v \<and> kept h' v = kept h v"
    and copies: "ok h v \<Longrightarrow> run_state (cp v) h = (v', h') \<Longrightarrow>
      prefix h h' \<and> ok h' v' \<and> view h' v' = view h v \<and> refs h' v' \<inter> {..<length h} = kept h v"
begin

lemma frame_prefix: "ok h v \<Longrightarrow> prefix h h' \<Longrightarrow>
  ok h' v \<and> view h' v = view h v \<and> refs h' v = refs h v \<and> kept h' v = kept h v"
  by (rule frame) (auto intro: same_cells_prefix refs_bound)

text \<open>Nothing written to cells that only the copy reaches is seen through the original, and vice versa.\<close>
lemma original_unaffected:
  assumes "ok h v" "run_state (cp v) h = (v', h')"
    and "same_cells ({..<length h'} - (refs h' v' - kept h v)) h' h''"
  shows "view h'' v = view h v"
proof -
  note c = copies [OF assms(1, 2)]
  note f = frame_prefix [OF assms(1) conjunct1 [OF c]]
  have "a \<in> {..<length h'} - (refs h' v' - kept h v)" if "a \<in> refs h' v" for a
    using that c f refs_bound [OF assms(1), of a] refs_bound [of h' v a] by auto
  then have "same_cells (refs h' v) h' h''" using assms(3) by (auto intro: same_cells_mono)
  with f frame [of h' v h''] show ?thesis by simp
qed

lemma copy_unaffected:
  assumes "ok h v" "run_state (cp v) h = (v', h')"
    and "same_cells ({..<length h'} - (refs h v - kept h v)) h' h''"
  shows "view h'' v' = view h v"
proof -
  note c = copies [OF assms(1, 2)]
  have "a \<in> {..<length h'} - (refs h v - kept h v)" if "a \<in> refs h' v'" for a
    using that c refs_bound [OF assms(1), of a] refs_bound [of h' v' a] by auto
  then have "same_cells (refs h' v') h' h''" using assms(3) by (auto intro: same_cells_mono)
  with c frame [of h' v' h''] show ?thesis by simp
qed

end

section \<open>Composing copy functions\<close>

lemma deep_copy_value: "deep_copy State_Monad.return (\<lambda>h v. True) (\<lambda>h v. v) (\<lambda>h v. {}) (\<lambda>h v. {})"
  by unfold_locales auto

text \<open>Assigning a pointer copies the address: the cell is shared.\<close>
lemma deep_copy_shared:
  "deep_copy State_Monad.return (\<lambda>h p. \<forall>a \<in> set_option p. a < length h \<and> P (h ! a))
     (\<lambda>h p. map_option (\<lambda>a. f (h ! a)) p) (\<lambda>h p. set_option p) (\<lambda>h p. set_option p)"
proof (unfold_locales, goal_cases)
  case (3 h v h')
  then show ?case by (cases v) (auto simp: same_cells_def)
qed auto

lemma deep_copy_pair:
  assumes A: "deep_copy c1 ok1 v1 r1 k1" and B: "deep_copy c2 ok2 v2 r2 k2"
  shows "deep_copy (\<lambda>p. do { x' \<leftarrow> c1 (fst p); y' \<leftarrow> c2 (snd p); State_Monad.return (x', y') })
    (\<lambda>h p. ok1 h (fst p) \<and> ok2 h (snd p)) (\<lambda>h p. (v1 h (fst p), v2 h (snd p)))
    (\<lambda>h p. r1 h (fst p) \<union> r2 h (snd p)) (\<lambda>h p. k1 h (fst p) \<union> k2 h (snd p))"
proof (unfold_locales, goal_cases)
  case (1 h v a)
  then show ?case using deep_copy.refs_bound [OF A, of h "fst v" a] deep_copy.refs_bound [OF B, of h "snd v" a] by auto
next
  case (2 h v)
  then show ?case using deep_copy.kept_refs [OF A, of h "fst v"] deep_copy.kept_refs [OF B, of h "snd v"] by auto
next
  case (3 h v h')
  then show ?case using deep_copy.frame [OF A, of h "fst v" h'] deep_copy.frame [OF B, of h "snd v" h'] by simp
next
  case (4 h v v' h')
  obtain x y where v: "v = (x, y)" by force
  obtain x' h1 where r1: "run_state (c1 x) h = (x', h1)" by force
  obtain y' h2 where r2: "run_state (c2 y) h1 = (y', h2)" by force
  have v': "v' = (x', y')" "h' = h2" using 4 v r1 r2 by auto
  have a: "prefix h h1" "ok1 h1 x'" "v1 h1 x' = v1 h x" "r1 h1 x' \<inter> {..<length h} = k1 h x"
    using deep_copy.copies [OF A _ r1] 4 v by auto
  have oy: "ok2 h y" using 4 v by simp
  note y = deep_copy.frame_prefix [OF B oy a(1)]
  have ky: "k2 h y \<subseteq> {..<length h}"
    using deep_copy.kept_refs [OF B oy] deep_copy.refs_bound [OF B oy] by auto
  note b = deep_copy.copies [OF B conjunct1 [OF y] r2]
  note x = deep_copy.frame_prefix [OF A a(2) conjunct1 [OF b]]
  have "length h \<le> length h1" using a(1) by (rule prefix_length_le)
  then have "r2 h2 y' \<inter> {..<length h} = k2 h y" using b y ky by auto
  moreover have "prefix h h2" using a(1) b prefix_order.trans by blast
  ultimately show ?case using v v' a b x y by (simp add: Int_Un_distrib2)
qed

text \<open>A struct is copied by copying the part of it that holds references.\<close>
lemma deep_copy_struct:
  assumes P: "deep_copy c ok view refs kept"
    and get: "\<And>x v. get (put x v) = x" and W: "\<And>x v w. W (put x v) w = W v w"
  shows "deep_copy (\<lambda>v. do { x \<leftarrow> c (get v); State_Monad.return (put x v) })
    (\<lambda>h v. ok h (get v)) (\<lambda>h v. W v (view h (get v))) (\<lambda>h v. refs h (get v)) (\<lambda>h v. kept h (get v))"
proof (unfold_locales, goal_cases)
  case (1 h v a)
  then show ?case by (rule deep_copy.refs_bound [OF P])
next
  case (2 h v)
  then show ?case by (rule deep_copy.kept_refs [OF P])
next
  case (3 h v h')
  then show ?case using deep_copy.frame [OF P, of h "get v" h'] by simp
next
  case (4 h v v' h')
  obtain x h1 where r: "run_state (c (get v)) h = (x, h1)" by force
  have "v' = put x v" "h' = h1" using 4(2) r by auto
  then show ?case using deep_copy.copies [OF P 4(1) r] by (simp add: get W)
qed

section \<open>Copying slices and pointers\<close>

definition ok_slice ::
  "(cell \<Rightarrow> 'e list) \<Rightarrow> (cell \<Rightarrow> bool) \<Rightarrow> (heap \<Rightarrow> 'e \<Rightarrow> bool) \<Rightarrow> heap \<Rightarrow> slice option \<Rightarrow> bool" where
  "ok_slice arr kind ok h s = (case s of
     None \<Rightarrow> True
   | Some sl \<Rightarrow> sl_array sl < length h \<and> kind (h ! sl_array sl) \<and>
       sl_off sl + sl_len sl \<le> length (arr (h ! sl_array sl)) \<and>
       (\<forall>x \<in> set (elems sl (arr (h ! sl_array sl))). ok h x))"

definition view_slice :: "(cell \<Rightarrow> 'e list) \<Rightarrow> (heap \<Rightarrow> 'e \<Rightarrow> 'w) \<Rightarrow> heap \<Rightarrow> slice option \<Rightarrow> 'w list option" where
  "view_slice arr view h s = map_option (\<lambda>sl. map (view h) (elems sl (arr (h ! sl_array sl)))) s"

definition refs_slice :: "(cell \<Rightarrow> 'e list) \<Rightarrow> (heap \<Rightarrow> 'e \<Rightarrow> addr set) \<Rightarrow> heap \<Rightarrow> slice option \<Rightarrow> addr set" where
  "refs_slice arr refs h s = (case s of
     None \<Rightarrow> {}
   | Some sl \<Rightarrow> insert (sl_array sl) (\<Union>x \<in> set (elems sl (arr (h ! sl_array sl))). refs h x))"

definition kept_slice :: "(cell \<Rightarrow> 'e list) \<Rightarrow> (heap \<Rightarrow> 'e \<Rightarrow> addr set) \<Rightarrow> heap \<Rightarrow> slice option \<Rightarrow> addr set" where
  "kept_slice arr kept h s = (case s of
     None \<Rightarrow> {}
   | Some sl \<Rightarrow> (\<Union>x \<in> set (elems sl (arr (h ! sl_array sl))). kept h x))"

definition ok_ptr :: "(cell \<Rightarrow> 'v) \<Rightarrow> (cell \<Rightarrow> bool) \<Rightarrow> (heap \<Rightarrow> 'v \<Rightarrow> bool) \<Rightarrow> heap \<Rightarrow> addr option \<Rightarrow> bool" where
  "ok_ptr sel kind ok h p = (case p of
     None \<Rightarrow> True
   | Some a \<Rightarrow> a < length h \<and> kind (h ! a) \<and> ok h (sel (h ! a)))"

definition view_ptr :: "(cell \<Rightarrow> 'v) \<Rightarrow> (heap \<Rightarrow> 'v \<Rightarrow> 'w) \<Rightarrow> heap \<Rightarrow> addr option \<Rightarrow> 'w option" where
  "view_ptr sel view h p = map_option (\<lambda>a. view h (sel (h ! a))) p"

definition refs_ptr :: "(cell \<Rightarrow> 'v) \<Rightarrow> (heap \<Rightarrow> 'v \<Rightarrow> addr set) \<Rightarrow> heap \<Rightarrow> addr option \<Rightarrow> addr set" where
  "refs_ptr sel refs h p = (case p of None \<Rightarrow> {} | Some a \<Rightarrow> insert a (refs h (sel (h ! a))))"

definition kept_ptr :: "(cell \<Rightarrow> 'v) \<Rightarrow> (heap \<Rightarrow> 'v \<Rightarrow> addr set) \<Rightarrow> heap \<Rightarrow> addr option \<Rightarrow> addr set" where
  "kept_ptr sel kept h p = (case p of None \<Rightarrow> {} | Some a \<Rightarrow> kept h (sel (h ! a)))"

text \<open>The loop invariant: the first \<open>i\<close> elements of the new array at the end of \<open>h0\<close> are copied.\<close>
definition copied_upto ::
  "('e list \<Rightarrow> cell) \<Rightarrow> (heap \<Rightarrow> 'e \<Rightarrow> bool) \<Rightarrow> (heap \<Rightarrow> 'e \<Rightarrow> 'w) \<Rightarrow> (heap \<Rightarrow> 'e \<Rightarrow> addr set)
    \<Rightarrow> (heap \<Rightarrow> 'e \<Rightarrow> addr set) \<Rightarrow> heap \<Rightarrow> 'e list \<Rightarrow> nat \<Rightarrow> heap \<Rightarrow> 'e list \<Rightarrow> bool" where
  "copied_upto mk ok view refs kept h0 xs i h ws \<longleftrightarrow>
     prefix h0 h \<and> length h0 < length h \<and> h ! length h0 = mk ws \<and> length ws = length xs \<and>
     (\<forall>j<i. ok h (ws ! j) \<and> view h (ws ! j) = view h0 (xs ! j) \<and>
       refs h (ws ! j) \<inter> {..<length h0} = kept h0 (xs ! j) \<and> length h0 \<notin> refs h (ws ! j))"

lemma nth_elems: "i < sl_len s \<Longrightarrow> sl_off s + sl_len s \<le> length xs \<Longrightarrow> elems s xs ! i = xs ! (sl_off s + i)"
  by (simp add: elems_def)

lemma length_elems [simp]: "sl_off s + sl_len s \<le> length xs \<Longrightarrow> length (elems s xs) = sl_len s"
  by (simp add: elems_def)

lemma prefix_update: "prefix h0 h \<Longrightarrow> length h0 \<le> a \<Longrightarrow> prefix h0 (h[a := c])"
  by (auto simp: prefix_def list_update_append)

lemma prefix_nth: "prefix h h' \<Longrightarrow> a < length h \<Longrightarrow> h' ! a = h ! a"
  by (auto simp: prefix_def nth_append)

context deep_copy
begin

lemma copied_step:
  assumes inv: "copied_upto mk ok view refs kept h0 xs i h ws" and i: "i < length xs"
    and ok0: "ok h0 (xs ! i)" and run: "run_state (cp (xs ! i)) h = (v, h1)"
  shows "copied_upto mk ok view refs kept h0 xs (Suc i) (h1[length h0 := mk (ws[i := v])]) (ws[i := v])
    \<and> h1 ! length h0 = mk ws"
proof -
  let ?a = "length h0" and ?h2 = "h1[length h0 := mk (ws[i := v])]"
  note I = inv [unfolded copied_upto_def]
  have p0: "prefix h0 h" and la: "?a < length h" and lw: "length ws = length xs" using I by auto
  note x = frame_prefix [OF ok0 p0]
  note c = copies [OF conjunct1 [OF x] run]
  have p1: "prefix h h1" using c by simp
  have kept0: "kept h0 (xs ! i) \<subseteq> {..<?a}" using kept_refs [OF ok0] refs_bound [OF ok0] by auto
  have lh: "length h \<le> length h1" using p1 by (rule prefix_length_le)
  have upd: "ok ?h2 y \<and> view ?h2 y = view h1 y \<and> refs ?h2 y = refs h1 y" if "ok h1 y" "?a \<notin> refs h1 y" for y
    using frame [OF that(1), of ?h2] same_cells_update [OF that(2)] refs_bound [OF that(1)] by simp
  have new: "?a \<notin> refs h1 v" "refs h1 v \<inter> {..<?a} = kept h0 (xs ! i)"
    using c x kept0 la by auto
  have elem: "ok ?h2 (ws[i := v] ! j) \<and> view ?h2 (ws[i := v] ! j) = view h0 (xs ! j) \<and>
      refs ?h2 (ws[i := v] ! j) \<inter> {..<?a} = kept h0 (xs ! j) \<and> ?a \<notin> refs ?h2 (ws[i := v] ! j)"
    if "j < Suc i" for j
  proof (cases "j = i")
    case True
    then show ?thesis using upd [of v] c x new i lw by simp
  next
    case False
    with that have j: "j < i" by simp
    have o: "ok h (ws ! j)" using I j by simp
    note f = frame_prefix [OF o p1]
    have "?a \<notin> refs h1 (ws ! j)" using I j f by simp
    then show ?thesis using upd [of "ws ! j"] f I j False by simp
  qed
  have "prefix h0 h1" using p0 p1 by (rule prefix_order.trans)
  moreover have "h1 ! ?a = mk ws" using prefix_nth [OF p1 la] I by simp
  ultimately show ?thesis using elem la lh lw by (simp add: copied_upto_def prefix_update)
qed

lemma copied_loop:
  assumes arr: "\<And>ws. arr (mk ws) = ws"
    and inn: "sl_array inn < length h0" "sl_off inn + sl_len inn \<le> length (arr (h0 ! sl_array inn))"
    and xs: "xs = elems inn (arr (h0 ! sl_array inn))" and ok0: "\<forall>x \<in> set xs. ok h0 x"
    and out: "sl_array out = length h0" "sl_off out = 0"
  shows "copied_upto mk ok view refs kept h0 xs i h ws \<Longrightarrow> i + n = length xs \<Longrightarrow>
    run_state (copy_elems arr mk cp inn out i n) h = (u, h') \<Longrightarrow>
    \<exists>ws'. copied_upto mk ok view refs kept h0 xs (length xs) h' ws'"
proof (induction n arbitrary: i h ws)
  case 0
  then show ?case by auto
next
  case (Suc n)
  have p0: "prefix h0 h" using Suc.prems(1) by (simp add: copied_upto_def)
  have i: "i < length xs" using Suc.prems(2) by simp
  have src: "arr (h ! sl_array inn) ! (sl_off inn + i) = xs ! i"
    using i xs inn prefix_nth [OF p0 inn(1)] nth_elems [of i inn "arr (h0 ! sl_array inn)"] by simp
  obtain v h1 where r: "run_state (cp (xs ! i)) h = (v, h1)" by force
  note st = copied_step [OF Suc.prems(1) i _ r]
  have "ok h0 (xs ! i)" using ok0 i by simp
  note st = st [OF this]
  have "run_state (copy_elems arr mk cp inn out (Suc i) n) (h1[length h0 := mk (ws[i := v])]) = (u, h')"
    using Suc.prems(3) r st by (simp add: src out arr)
  with Suc.IH [OF conjunct1 [OF st]] Suc.prems(2) show ?case by simp
qed

lemma slice_frame:
  assumes "ok_slice arr kind ok h v" and "same_cells (refs_slice arr refs h v) h h'"
  shows "ok_slice arr kind ok h' v \<and> view_slice arr view h' v = view_slice arr view h v \<and>
    refs_slice arr refs h' v = refs_slice arr refs h v \<and> kept_slice arr kept h' v = kept_slice arr kept h v"
proof (cases v)
  case (Some sl)
  let ?xs = "elems sl (arr (h ! sl_array sl))"
  have same: "h' ! sl_array sl = h ! sl_array sl" "sl_array sl < length h'"
    using assms(2) Some by (auto simp: refs_slice_def)
  have e: "ok h' x \<and> view h' x = view h x \<and> refs h' x = refs h x \<and> kept h' x = kept h x" if "x \<in> set ?xs" for x
  proof (rule frame)
    show "ok h x" using assms(1) Some that by (simp add: ok_slice_def)
    show "same_cells (refs h x) h h'"
      using assms(2) Some that by (auto simp: refs_slice_def elim: same_cells_mono)
  qed
  then show ?thesis using assms(1) Some same
    by (simp add: ok_slice_def view_slice_def refs_slice_def kept_slice_def)
qed (simp add: ok_slice_def view_slice_def refs_slice_def kept_slice_def)

text \<open>What is common to the elements of two lists that agree position by position.\<close>
lemma UN_elements:
  assumes "length ws = length xs" and "\<And>j. j < length xs \<Longrightarrow> f (ws ! j) \<inter> A = g (xs ! j)"
  shows "(\<Union>x \<in> set ws. f x) \<inter> A = (\<Union>x \<in> set xs. g x)"
proof -
  have w: "set ws = (\<lambda>j. ws ! j) ` {..<length xs}" and x: "set xs = (\<lambda>j. xs ! j) ` {..<length xs}"
    using assms(1) by (auto simp: set_conv_nth)
  have "(\<Union>x \<in> set ws. f x) \<inter> A = (\<Union>j < length xs. f (ws ! j) \<inter> A)" unfolding w by blast
  also have "\<dots> = (\<Union>j < length xs. g (xs ! j))" using assms(2) by (intro SUP_cong) simp_all
  also have "\<dots> = (\<Union>x \<in> set xs. g x)" unfolding x by blast
  finally show ?thesis .
qed

lemma slice_copies:
  assumes arr: "\<And>ws. arr (mk ws) = ws" and kind: "\<And>ws. kind (mk ws)"
    and v: "ok_slice arr kind ok h v" and run: "run_state (copy_slice arr mk zero cp v) h = (v', h')"
  shows "prefix h h' \<and> ok_slice arr kind ok h' v' \<and> view_slice arr view h' v' = view_slice arr view h v \<and>
    refs_slice arr refs h' v' \<inter> {..<length h} = kept_slice arr kept h v"
proof (cases v)
  case None
  then show ?thesis using v run by (simp add: copy_slice_def view_slice_def refs_slice_def kept_slice_def ok_slice_def)
next
  case (Some inn)
  let ?xs = "elems inn (arr (h ! sl_array inn))" and ?zs = "replicate (sl_len inn) zero"
  let ?out = "\<lparr>sl_array = length h, sl_off = 0, sl_len = sl_len inn\<rparr>"
  have inn: "sl_array inn < length h" "sl_off inn + sl_len inn \<le> length (arr (h ! sl_array inn))"
    and okx: "\<forall>x \<in> set ?xs. ok h x"
    using v Some by (simp_all add: ok_slice_def)
  have v': "v' = Some ?out" and r: "run_state (copy_elems arr mk cp inn ?out 0 (sl_len inn)) (h @ [mk ?zs]) = ((), h')"
    using run Some by (auto simp: copy_slice_def Let_def split: prod.splits)
  have "copied_upto mk ok view refs kept h ?xs 0 (h @ [mk ?zs]) ?zs"
    using inn by (simp add: copied_upto_def)
  from copied_loop [where arr = arr and xs = ?xs and out = ?out, OF arr inn refl okx _ _ this _ r] inn
  obtain ws where I: "copied_upto mk ok view refs kept h ?xs (length ?xs) h' ws" by auto
  note I = I [unfolded copied_upto_def]
  have ws: "length ws = sl_len inn" "elems ?out (arr (h' ! length h)) = ws" and xs: "length ?xs = sl_len inn"
    using I inn by (simp_all add: arr elems_def)
  have all: "ok h' (ws ! j) \<and> view h' (ws ! j) = view h (?xs ! j) \<and>
      refs h' (ws ! j) \<inter> {..<length h} = kept h (?xs ! j)" if "j < sl_len inn" for j
    using I that inn by simp
  have "view_slice arr view h' v' = view_slice arr view h v"
    using all ws inn v' Some by (auto simp: view_slice_def intro!: nth_equalityI)
  moreover have "ok_slice arr kind ok h' v'"
    using all ws I v' inn by (auto simp: ok_slice_def in_set_conv_nth arr kind)
  moreover have "(\<Union>x \<in> set ws. refs h' x) \<inter> {..<length h} = (\<Union>x \<in> set ?xs. kept h x)"
    using all by (intro UN_elements) (simp_all only: ws(1) xs)
  ultimately show ?thesis using I ws v' Some by (simp add: refs_slice_def kept_slice_def)
qed

lemma slice:
  assumes arr: "\<And>ws. arr (mk ws) = ws" and kind: "\<And>ws. kind (mk ws)"
  shows "deep_copy (copy_slice arr mk zero cp) (ok_slice arr kind ok) (view_slice arr view)
    (refs_slice arr refs) (kept_slice arr kept)"
proof (unfold_locales, goal_cases)
  case (1 h v a)
  then show ?case using refs_bound by (auto simp: ok_slice_def refs_slice_def split: option.splits)
next
  case (2 h v)
  then show ?case using kept_refs by (fastforce simp: ok_slice_def refs_slice_def kept_slice_def split: option.splits)
next
  case (3 h v h')
  then show ?case by (rule slice_frame)
next
  case (4 h v v' h')
  then show ?case by (rule slice_copies [where arr = arr and mk = mk and kind = kind, OF arr kind])
qed

lemma pointer:
  assumes sel: "\<And>x. sel (mk x) = x" and kind: "\<And>x. kind (mk x)"
  shows "deep_copy (copy_new sel mk cp) (ok_ptr sel kind ok) (view_ptr sel view) (refs_ptr sel refs) (kept_ptr sel kept)"
proof (unfold_locales, goal_cases)
  case (1 h v a)
  then show ?case using refs_bound by (auto simp: ok_ptr_def refs_ptr_def split: option.splits)
next
  case (2 h v)
  then show ?case using kept_refs by (fastforce simp: ok_ptr_def refs_ptr_def kept_ptr_def split: option.splits)
next
  case (3 h v h')
  show ?case
  proof (cases v)
    case (Some a)
    have same: "h' ! a = h ! a" "a < length h'" "same_cells (refs h (sel (h ! a))) h h'"
      and o: "ok h (sel (h ! a))" "kind (h ! a)"
      using 3 Some by (auto simp: refs_ptr_def ok_ptr_def)
    with frame [OF o(1) same(3)] Some show ?thesis
      by (simp add: ok_ptr_def view_ptr_def refs_ptr_def kept_ptr_def)
  qed (simp add: ok_ptr_def view_ptr_def refs_ptr_def kept_ptr_def)
next
  case (4 h v v' h')
  show ?case
  proof (cases v)
    case None
    then show ?thesis using 4 by (simp add: copy_new_def ok_ptr_def view_ptr_def refs_ptr_def kept_ptr_def)
  next
    case (Some a)
    let ?x = "sel (h ! a)" and ?h1 = "h @ [mk (sel (h ! a))]"
    have a: "a < length h" and o: "ok h ?x" using 4(1) Some by (simp_all add: ok_ptr_def)
    obtain x' h2 where r: "run_state (cp ?x) ?h1 = (x', h2)" by force
    have v': "v' = Some (length h)" and h': "h' = h2[length h := mk x']"
      using 4(2) Some r by (auto simp: copy_new_def)
    have "prefix h ?h1" by simp
    note x = frame_prefix [OF o this]
    note c = copies [OF conjunct1 [OF x] r]
    have p: "prefix ?h1 h2" using c by simp
    then have l: "length h < length h2" "prefix h h2"
      by (auto dest: prefix_length_le append_prefixD)
    have kept0: "kept h ?x \<subseteq> {..<length h}" using kept_refs [OF o] refs_bound [OF o] by auto
    have new: "refs h2 x' \<inter> {..<length h} = kept h ?x" "length h \<notin> refs h2 x'"
      using c x kept0 by auto
    have "ok h2 x'" using c by simp
    note f = frame [OF this same_cells_update [OF new(2) refs_bound [OF this]], of "mk x'"]
    have n: "h' ! length h = mk x'" "length h < length h'" using h' l by simp_all
    have "ok_ptr sel kind ok h' v'" using f c h' l v' by (simp add: ok_ptr_def sel kind)
    moreover have "view_ptr sel view h' v' = view_ptr sel view h v"
      using f c x h' l v' Some by (simp add: view_ptr_def sel)
    moreover have "refs_ptr sel refs h' v' \<inter> {..<length h} = kept_ptr sel kept h v"
      using f c x h' l v' Some new by (simp add: refs_ptr_def kept_ptr_def sel)
    ultimately show ?thesis using l h' by (simp add: prefix_update)
  qed
qed

end

end
