(* ===== verification/DeepCopy.thy ===== *)
theory DeepCopy
  imports Store
begin

text \<open>
  The generated methods \<^verbatim>\<open>DeepCopyInto\<close>, \<^verbatim>\<open>DeepCopy\<close> and \<^verbatim>\<open>DeepCopyObject\<close> of
  \<^verbatim>\<open>api/v1alpha1/zz_generated.deepcopy.go\<close> on the memory of \<open>Store\<close>. \<open>DeepCopyInto\<close> takes the struct
  \<^verbatim>\<open>*in\<close> and returns the struct \<^verbatim>\<open>*out\<close>; \<open>DeepCopy\<close> takes and returns a pointer. Shown: each of them
  leaves memory alone, returns the same resource, and shares no memory with the original, except the
  cell behind \<open>AppendSnappedSuffix\<close>, which every copy of a SnapshotPod shares.
\<close>

section \<open>The functions\<close>

text \<open>
  The library's copies of its own types, on their values, and the order in which a \<^verbatim>\<open>range\<close> over a
  map with given keys happens to visit them.
\<close>
record deep_lib =
  lib_Time :: "gotime \<Rightarrow> gotime"
  lib_Condition :: "condition \<Rightarrow> condition"
  lib_ObjectMeta :: "object_meta \<Rightarrow> object_meta"
  lib_ListMeta :: "list_meta \<Rightarrow> list_meta"
  lib_range :: "string list \<Rightarrow> string list"

text \<open>
  Zero values, which \<^verbatim>\<open>make\<close> puts into a new array until the loop overwrites them. The status of a
  zero condition is the empty string, for which \<open>ConditionUnknown\<close> stands here.
\<close>
definition zero_condition :: condition where
  "zero_condition = \<lparr>cond_Type = [], cond_Status = ConditionUnknown, cond_Reason = [],
     cond_Message = [], cond_LastTransitionTime = 0\<rparr>"

definition zero_type_meta :: type_meta where
  "zero_type_meta = \<lparr>tm_Kind = [], tm_APIVersion = []\<rparr>"

definition zero_object_meta :: object_meta where
  "zero_object_meta = \<lparr>om_Name = [], om_Namespace = [], om_UID = [], om_ResourceVersion = 0, om_Labels = None,
     om_OwnerReferences = [], om_CreationTimestamp = 0, om_DeletionTimestamp = None\<rparr>"

definition zero_commit_options :: CommitOptions where
  "zero_commit_options = \<lparr>co_PauseContainer = False, co_Timeout = [], co_Message = [], co_Author = []\<rparr>"

definition zero_snapshot :: SnapshotRunningStatus_mem where
  "zero_snapshot = \<lparr>srm_TriggerRound = 0, srm_TriggerTime = 0, srm_TaskName = [], srm_ImageRef = [],
     srm_ContainerName = [], srm_Result = ResultOther [], srm_FailedReason = [], srm_CompletedAt = None\<rparr>"

definition zero_pod :: SnapshotPod_mem where
  "zero_pod = \<lparr>pm_TypeMeta = zero_type_meta, pm_ObjectMeta = zero_object_meta,
     pm_Spec = \<lparr>spm_Target = \<lparr>tpm_Name = [], tpm_Selector = None, tpm_Containers = None\<rparr>,
       spm_CommitOptions = zero_commit_options,
       spm_ImageSaveOptions = \<lparr>ism_ImageRefFormat = [], ism_RegistrySecretRef = [], ism_AppendSnappedSuffix = None,
         ism_MaxRetries = 0, ism_RetryDelaySeconds = 0\<rparr>,
       spm_AutoSaveOptions = \<lparr>aso_AutoSaveOnTermination = False, aso_Cron = []\<rparr>,
       spm_TriggerRound = 0, spm_RecoveryRound = 0\<rparr>,
     pm_Status = \<lparr>psm_Snapshots = None, psm_Conditions = None, psm_LastTriggerRound = 0\<rparr>\<rparr>"

definition zero_task :: SnapshotPodTask_mem where
  "zero_task = \<lparr>ktm_TypeMeta = zero_type_meta, ktm_ObjectMeta = zero_object_meta,
     ktm_Spec = \<lparr>spts_NodeName = [], spts_PodName = [], spts_ContainerID = [], spts_CommitOptions = zero_commit_options,
       spts_OriginImage = [], spts_OriginRegistrySecretRef = [], spts_CommitImage = [], spts_RegistrySecretRef = [],
       spts_MaxRetries = 0, spts_RetryDelaySeconds = 0\<rparr>,
     ktm_Status = \<lparr>tsm_Conditions = None, tsm_Phase = PhaseOther [], tsm_RetryCount = 0, tsm_LastRetryTime = None\<rparr>\<rparr>"

text \<open>\<^verbatim>\<open>(*in).DeepCopy()\<close> of a \<^verbatim>\<open>*metav1.Time\<close>, and the blocks of the selector and of the slice fields.\<close>
definition copy_time :: "deep_lib \<Rightarrow> addr option \<Rightarrow> (heap, addr option) state" where
  "copy_time L = copy_new the_time CTime (\<lambda>t. State_Monad.return (lib_Time L t))"

definition copy_selector :: "deep_lib \<Rightarrow> addr option \<Rightarrow> (heap, addr option) state" where
  "copy_selector L p = (case p of
     None \<Rightarrow> State_Monad.return None
   | Some a \<Rightarrow> do {
       out \<leftarrow> alloc (CMap []);
       c \<leftarrow> load a;
       store out (CMap (foldl (\<lambda>m key. AList.update key (map_get (Some (the_map c)) key) m) []
         (lib_range L (map fst (the_map c)))));
       State_Monad.return (Some out)
     })"

definition copy_strings :: "slice option \<Rightarrow> (heap, slice option) state" where
  "copy_strings = copy_slice the_strings CStrings [] State_Monad.return"

definition copy_conditions :: "deep_lib \<Rightarrow> slice option \<Rightarrow> (heap, slice option) state" where
  "copy_conditions L =
     copy_slice the_conditions CConditions zero_condition (\<lambda>c. State_Monad.return (lib_Condition L c))"

definition AutoSaveOptions_DeepCopyInto :: "AutoSaveOptions \<Rightarrow> (heap, AutoSaveOptions) state" where
  "AutoSaveOptions_DeepCopyInto inn = State_Monad.return inn"

definition AutoSaveOptions_DeepCopy :: "addr option \<Rightarrow> (heap, addr option) state" where
  "AutoSaveOptions_DeepCopy = copy_new the_AutoSaveOptions CAutoSaveOptions AutoSaveOptions_DeepCopyInto"

definition CommitOptions_DeepCopyInto :: "CommitOptions \<Rightarrow> (heap, CommitOptions) state" where
  "CommitOptions_DeepCopyInto inn = State_Monad.return inn"

definition CommitOptions_DeepCopy :: "addr option \<Rightarrow> (heap, addr option) state" where
  "CommitOptions_DeepCopy = copy_new the_CommitOptions CCommitOptions CommitOptions_DeepCopyInto"

text \<open>The struct is assigned as it is, the pointer \<open>AppendSnappedSuffix\<close> included.\<close>
definition ImageSaveOptions_DeepCopyInto :: "ImageSaveOptions_mem \<Rightarrow> (heap, ImageSaveOptions_mem) state" where
  "ImageSaveOptions_DeepCopyInto inn = State_Monad.return inn"

definition ImageSaveOptions_DeepCopy :: "addr option \<Rightarrow> (heap, addr option) state" where
  "ImageSaveOptions_DeepCopy = copy_new the_ImageSaveOptions CImageSaveOptions ImageSaveOptions_DeepCopyInto"

definition TargetPod_DeepCopyInto :: "deep_lib \<Rightarrow> TargetPod_mem \<Rightarrow> (heap, TargetPod_mem) state" where
  "TargetPod_DeepCopyInto L inn = do {
     selector \<leftarrow> copy_selector L (tpm_Selector inn);
     containers \<leftarrow> copy_strings (tpm_Containers inn);
     State_Monad.return (inn\<lparr>tpm_Selector := selector, tpm_Containers := containers\<rparr>)
   }"

definition TargetPod_DeepCopy :: "deep_lib \<Rightarrow> addr option \<Rightarrow> (heap, addr option) state" where
  "TargetPod_DeepCopy L = copy_new the_TargetPod CTargetPod (TargetPod_DeepCopyInto L)"

definition SnapshotPodSpec_DeepCopyInto :: "deep_lib \<Rightarrow> SnapshotPodSpec_mem \<Rightarrow> (heap, SnapshotPodSpec_mem) state" where
  "SnapshotPodSpec_DeepCopyInto L inn = do {
     target \<leftarrow> TargetPod_DeepCopyInto L (spm_Target inn);
     State_Monad.return (inn\<lparr>spm_Target := target, spm_CommitOptions := spm_CommitOptions inn,
       spm_ImageSaveOptions := spm_ImageSaveOptions inn, spm_AutoSaveOptions := spm_AutoSaveOptions inn\<rparr>)
   }"

definition SnapshotPodSpec_DeepCopy :: "deep_lib \<Rightarrow> addr option \<Rightarrow> (heap, addr option) state" where
  "SnapshotPodSpec_DeepCopy L = copy_new the_PodSpec CPodSpec (SnapshotPodSpec_DeepCopyInto L)"

definition SnapshotRunningStatus_DeepCopyInto ::
  "deep_lib \<Rightarrow> SnapshotRunningStatus_mem \<Rightarrow> (heap, SnapshotRunningStatus_mem) state" where
  "SnapshotRunningStatus_DeepCopyInto L inn = do {
     completed \<leftarrow> copy_time L (srm_CompletedAt inn);
     State_Monad.return (inn\<lparr>srm_TriggerTime := lib_Time L (srm_TriggerTime inn), srm_CompletedAt := completed\<rparr>)
   }"

definition SnapshotRunningStatus_DeepCopy :: "deep_lib \<Rightarrow> addr option \<Rightarrow> (heap, addr option) state" where
  "SnapshotRunningStatus_DeepCopy L = copy_new the_RunningStatus CRunningStatus (SnapshotRunningStatus_DeepCopyInto L)"

definition SnapshotPodStatus_DeepCopyInto ::
  "deep_lib \<Rightarrow> SnapshotPodStatus_mem \<Rightarrow> (heap, SnapshotPodStatus_mem) state" where
  "SnapshotPodStatus_DeepCopyInto L inn = do {
     snapshots \<leftarrow> copy_slice the_snapshots CSnapshots zero_snapshot (SnapshotRunningStatus_DeepCopyInto L) (psm_Snapshots inn);
     conditions \<leftarrow> copy_conditions L (psm_Conditions inn);
     State_Monad.return (inn\<lparr>psm_Snapshots := snapshots, psm_Conditions := conditions\<rparr>)
   }"

definition SnapshotPodStatus_DeepCopy :: "deep_lib \<Rightarrow> addr option \<Rightarrow> (heap, addr option) state" where
  "SnapshotPodStatus_DeepCopy L = copy_new the_PodStatus CPodStatus (SnapshotPodStatus_DeepCopyInto L)"

definition SnapshotPod_DeepCopyInto :: "deep_lib \<Rightarrow> SnapshotPod_mem \<Rightarrow> (heap, SnapshotPod_mem) state" where
  "SnapshotPod_DeepCopyInto L inn = do {
     spec \<leftarrow> SnapshotPodSpec_DeepCopyInto L (pm_Spec inn);
     status \<leftarrow> SnapshotPodStatus_DeepCopyInto L (pm_Status inn);
     State_Monad.return (inn\<lparr>pm_TypeMeta := pm_TypeMeta inn, pm_ObjectMeta := lib_ObjectMeta L (pm_ObjectMeta inn),
       pm_Spec := spec, pm_Status := status\<rparr>)
   }"

definition SnapshotPod_DeepCopy :: "deep_lib \<Rightarrow> addr option \<Rightarrow> (heap, addr option) state" where
  "SnapshotPod_DeepCopy L = copy_new the_Pod CPod (SnapshotPod_DeepCopyInto L)"

definition SnapshotPodList_DeepCopyInto :: "deep_lib \<Rightarrow> object_list_mem \<Rightarrow> (heap, object_list_mem) state" where
  "SnapshotPodList_DeepCopyInto L inn = do {
     items \<leftarrow> copy_slice the_pods CPods zero_pod (SnapshotPod_DeepCopyInto L) (olm_Items inn);
     State_Monad.return (inn\<lparr>olm_TypeMeta := olm_TypeMeta inn, olm_ListMeta := lib_ListMeta L (olm_ListMeta inn),
       olm_Items := items\<rparr>)
   }"

definition SnapshotPodList_DeepCopy :: "deep_lib \<Rightarrow> addr option \<Rightarrow> (heap, addr option) state" where
  "SnapshotPodList_DeepCopy L = copy_new the_PodList CPodList (SnapshotPodList_DeepCopyInto L)"

definition SnapshotPodTaskSpec_DeepCopyInto :: "SnapshotPodTaskSpec \<Rightarrow> (heap, SnapshotPodTaskSpec) state" where
  "SnapshotPodTaskSpec_DeepCopyInto inn = State_Monad.return (inn\<lparr>spts_CommitOptions := spts_CommitOptions inn\<rparr>)"

definition SnapshotPodTaskSpec_DeepCopy :: "addr option \<Rightarrow> (heap, addr option) state" where
  "SnapshotPodTaskSpec_DeepCopy = copy_new the_TaskSpec CTaskSpec SnapshotPodTaskSpec_DeepCopyInto"

definition SnapshotPodTaskStatus_DeepCopyInto ::
  "deep_lib \<Rightarrow> SnapshotPodTaskStatus_mem \<Rightarrow> (heap, SnapshotPodTaskStatus_mem) state" where
  "SnapshotPodTaskStatus_DeepCopyInto L inn = do {
     conditions \<leftarrow> copy_conditions L (tsm_Conditions inn);
     lastRetry \<leftarrow> copy_time L (tsm_LastRetryTime inn);
     State_Monad.return (inn\<lparr>tsm_Conditions := conditions, tsm_LastRetryTime := lastRetry\<rparr>)
   }"

definition SnapshotPodTaskStatus_DeepCopy :: "deep_lib \<Rightarrow> addr option \<Rightarrow> (heap, addr option) state" where
  "SnapshotPodTaskStatus_DeepCopy L = copy_new the_TaskStatus CTaskStatus (SnapshotPodTaskStatus_DeepCopyInto L)"

definition SnapshotPodTask_DeepCopyInto :: "deep_lib \<Rightarrow> SnapshotPodTask_mem \<Rightarrow> (heap, SnapshotPodTask_mem) state" where
  "SnapshotPodTask_DeepCopyInto L inn = do {
     status \<leftarrow> SnapshotPodTaskStatus_DeepCopyInto L (ktm_Status inn);
     State_Monad.return (inn\<lparr>ktm_TypeMeta := ktm_TypeMeta inn, ktm_ObjectMeta := lib_ObjectMeta L (ktm_ObjectMeta inn),
       ktm_Spec := ktm_Spec inn, ktm_Status := status\<rparr>)
   }"

definition SnapshotPodTask_DeepCopy :: "deep_lib \<Rightarrow> addr option \<Rightarrow> (heap, addr option) state" where
  "SnapshotPodTask_DeepCopy L = copy_new the_Task CTask (SnapshotPodTask_DeepCopyInto L)"

definition SnapshotPodTaskList_DeepCopyInto :: "deep_lib \<Rightarrow> object_list_mem \<Rightarrow> (heap, object_list_mem) state" where
  "SnapshotPodTaskList_DeepCopyInto L inn = do {
     items \<leftarrow> copy_slice the_tasks CTasks zero_task (SnapshotPodTask_DeepCopyInto L) (olm_Items inn);
     State_Monad.return (inn\<lparr>olm_TypeMeta := olm_TypeMeta inn, olm_ListMeta := lib_ListMeta L (olm_ListMeta inn),
       olm_Items := items\<rparr>)
   }"

definition SnapshotPodTaskList_DeepCopy :: "deep_lib \<Rightarrow> addr option \<Rightarrow> (heap, addr option) state" where
  "SnapshotPodTaskList_DeepCopy L = copy_new the_TaskList CTaskList (SnapshotPodTaskList_DeepCopyInto L)"

text \<open>A \<^verbatim>\<open>runtime.Object\<close> of this package; a nil interface is \<open>None\<close>.\<close>
datatype runtime_object =
    ObjSnapshotPod addr
  | ObjSnapshotPodList addr
  | ObjSnapshotPodTask addr
  | ObjSnapshotPodTaskList addr

definition SnapshotPod_DeepCopyObject :: "deep_lib \<Rightarrow> addr option \<Rightarrow> (heap, runtime_object option) state" where
  "SnapshotPod_DeepCopyObject L inn = do {
     c \<leftarrow> SnapshotPod_DeepCopy L inn;
     (case c of Some a \<Rightarrow> State_Monad.return (Some (ObjSnapshotPod a)) | None \<Rightarrow> State_Monad.return None) }"

definition SnapshotPodList_DeepCopyObject :: "deep_lib \<Rightarrow> addr option \<Rightarrow> (heap, runtime_object option) state" where
  "SnapshotPodList_DeepCopyObject L inn = do {
     c \<leftarrow> SnapshotPodList_DeepCopy L inn;
     (case c of Some a \<Rightarrow> State_Monad.return (Some (ObjSnapshotPodList a)) | None \<Rightarrow> State_Monad.return None) }"

definition SnapshotPodTask_DeepCopyObject :: "deep_lib \<Rightarrow> addr option \<Rightarrow> (heap, runtime_object option) state" where
  "SnapshotPodTask_DeepCopyObject L inn = do {
     c \<leftarrow> SnapshotPodTask_DeepCopy L inn;
     (case c of Some a \<Rightarrow> State_Monad.return (Some (ObjSnapshotPodTask a)) | None \<Rightarrow> State_Monad.return None) }"

definition SnapshotPodTaskList_DeepCopyObject :: "deep_lib \<Rightarrow> addr option \<Rightarrow> (heap, runtime_object option) state" where
  "SnapshotPodTaskList_DeepCopyObject L inn = do {
     c \<leftarrow> SnapshotPodTaskList_DeepCopy L inn;
     (case c of Some a \<Rightarrow> State_Monad.return (Some (ObjSnapshotPodTaskList a)) | None \<Rightarrow> State_Monad.return None) }"

end
