(* ===== verification/DeepCopyTheorems.thy ===== *)
theory DeepCopyTheorems
  imports DeepCopy
begin

text \<open>
  The deep-copy functions meet the contract \<open>deep_copy\<close>: what each resource in memory stands for
  (\<open>view_*\<close>, the records of \<open>ApiTypes\<close>), which memory it reaches (\<open>refs_*\<close>), and the composition of the
  functions along the nesting of the structs.
\<close>

section \<open>What a struct in memory stands for\<close>

definition no_refs :: "heap \<Rightarrow> 'v \<Rightarrow> addr set" where
  "no_refs h v = {}"

definition always_ok :: "heap \<Rightarrow> 'v \<Rightarrow> bool" where
  "always_ok h v = True"

definition plain :: "heap \<Rightarrow> 'v \<Rightarrow> 'v" where
  "plain h v = v"

text \<open>The resources of \<open>ApiTypes\<close> do not distinguish a nil slice from an empty one.\<close>
definition nil_list :: "'a list option \<Rightarrow> 'a list" where
  "nil_list xs = (case xs of None \<Rightarrow> [] | Some ys \<Rightarrow> ys)"

text \<open>A map is shown in key order, so equal maps have equal views.\<close>
definition ok_selector :: "heap \<Rightarrow> addr option \<Rightarrow> bool" where
  "ok_selector h p = (case p of
     None \<Rightarrow> True
   | Some a \<Rightarrow> a < length h \<and> is_CMap (h ! a) \<and> distinct (map fst (the_map (h ! a))))"

definition view_selector :: "heap \<Rightarrow> addr option \<Rightarrow> string gomap" where
  "view_selector h p = map_option (\<lambda>a. sort_key fst (the_map (h ! a))) p"

definition refs_selector :: "heap \<Rightarrow> addr option \<Rightarrow> addr set" where
  "refs_selector h p = set_option p"

abbreviation ok_time :: "heap \<Rightarrow> addr option \<Rightarrow> bool" where
  "ok_time \<equiv> ok_ptr the_time is_CTime always_ok"

abbreviation view_time :: "heap \<Rightarrow> addr option \<Rightarrow> gotime option" where
  "view_time \<equiv> view_ptr the_time plain"

abbreviation refs_time :: "heap \<Rightarrow> addr option \<Rightarrow> addr set" where
  "refs_time \<equiv> refs_ptr the_time no_refs"

abbreviation ok_conditions :: "heap \<Rightarrow> slice option \<Rightarrow> bool" where
  "ok_conditions \<equiv> ok_slice the_conditions is_CConditions always_ok"

abbreviation view_conditions :: "heap \<Rightarrow> slice option \<Rightarrow> condition list option" where
  "view_conditions \<equiv> view_slice the_conditions plain"

abbreviation refs_conditions :: "heap \<Rightarrow> slice option \<Rightarrow> addr set" where
  "refs_conditions \<equiv> refs_slice the_conditions no_refs"

definition ok_TargetPod :: "heap \<Rightarrow> TargetPod_mem \<Rightarrow> bool" where
  "ok_TargetPod h v \<longleftrightarrow> ok_selector h (tpm_Selector v) \<and>
     ok_slice the_strings is_CStrings always_ok h (tpm_Containers v)"

definition view_TargetPod :: "heap \<Rightarrow> TargetPod_mem \<Rightarrow> TargetPod" where
  "view_TargetPod h v = \<lparr>tp_Name = tpm_Name v, tp_Selector = view_selector h (tpm_Selector v),
     tp_Containers = nil_list (view_slice the_strings plain h (tpm_Containers v))\<rparr>"

definition refs_TargetPod :: "heap \<Rightarrow> TargetPod_mem \<Rightarrow> addr set" where
  "refs_TargetPod h v = refs_selector h (tpm_Selector v) \<union> refs_slice the_strings no_refs h (tpm_Containers v)"

text \<open>The cell behind \<open>AppendSnappedSuffix\<close>.\<close>
definition ok_suffix :: "heap \<Rightarrow> addr option \<Rightarrow> bool" where
  "ok_suffix h p \<longleftrightarrow> (\<forall>a \<in> set_option p. a < length h \<and> is_CBool (h ! a))"

definition view_suffix :: "heap \<Rightarrow> addr option \<Rightarrow> bool option" where
  "view_suffix h p = map_option (\<lambda>a. the_bool (h ! a)) p"

definition refs_suffix :: "heap \<Rightarrow> addr option \<Rightarrow> addr set" where
  "refs_suffix h p = set_option p"

definition view_ImageSaveOptions :: "heap \<Rightarrow> ImageSaveOptions_mem \<Rightarrow> ImageSaveOptions" where
  "view_ImageSaveOptions h v = \<lparr>iso_ImageRefFormat = ism_ImageRefFormat v,
     iso_RegistrySecretRef = ism_RegistrySecretRef v,
     iso_AppendSnappedSuffix = view_suffix h (ism_AppendSnappedSuffix v),
     iso_MaxRetries = ism_MaxRetries v, iso_RetryDelaySeconds = ism_RetryDelaySeconds v\<rparr>"

abbreviation suffix_of :: "SnapshotPodSpec_mem \<Rightarrow> addr option" where
  "suffix_of v \<equiv> ism_AppendSnappedSuffix (spm_ImageSaveOptions v)"

definition ok_SnapshotPodSpec :: "heap \<Rightarrow> SnapshotPodSpec_mem \<Rightarrow> bool" where
  "ok_SnapshotPodSpec h v \<longleftrightarrow> ok_TargetPod h (spm_Target v) \<and> ok_suffix h (suffix_of v)"

definition view_SnapshotPodSpec :: "heap \<Rightarrow> SnapshotPodSpec_mem \<Rightarrow> SnapshotPodSpec" where
  "view_SnapshotPodSpec h v = \<lparr>sps_Target = view_TargetPod h (spm_Target v),
     sps_CommitOptions = spm_CommitOptions v,
     sps_ImageSaveOptions = view_ImageSaveOptions h (spm_ImageSaveOptions v),
     sps_AutoSaveOptions = spm_AutoSaveOptions v,
     sps_TriggerRound = spm_TriggerRound v, sps_RecoveryRound = spm_RecoveryRound v\<rparr>"

definition refs_SnapshotPodSpec :: "heap \<Rightarrow> SnapshotPodSpec_mem \<Rightarrow> addr set" where
  "refs_SnapshotPodSpec h v = refs_TargetPod h (spm_Target v) \<union> refs_suffix h (suffix_of v)"

definition kept_SnapshotPodSpec :: "heap \<Rightarrow> SnapshotPodSpec_mem \<Rightarrow> addr set" where
  "kept_SnapshotPodSpec h v = refs_suffix h (suffix_of v)"

definition ok_SnapshotRunningStatus :: "heap \<Rightarrow> SnapshotRunningStatus_mem \<Rightarrow> bool" where
  "ok_SnapshotRunningStatus h v = ok_time h (srm_CompletedAt v)"

definition view_SnapshotRunningStatus :: "heap \<Rightarrow> SnapshotRunningStatus_mem \<Rightarrow> SnapshotRunningStatus" where
  "view_SnapshotRunningStatus h v = \<lparr>srs_TriggerRound = srm_TriggerRound v, srs_TriggerTime = srm_TriggerTime v,
     srs_TaskName = srm_TaskName v, srs_ImageRef = srm_ImageRef v, srs_ContainerName = srm_ContainerName v,
     srs_Result = srm_Result v, srs_FailedReason = srm_FailedReason v,
     srs_CompletedAt = view_time h (srm_CompletedAt v)\<rparr>"

definition refs_SnapshotRunningStatus :: "heap \<Rightarrow> SnapshotRunningStatus_mem \<Rightarrow> addr set" where
  "refs_SnapshotRunningStatus h v = refs_time h (srm_CompletedAt v)"

definition ok_SnapshotPodStatus :: "heap \<Rightarrow> SnapshotPodStatus_mem \<Rightarrow> bool" where
  "ok_SnapshotPodStatus h v \<longleftrightarrow>
     ok_slice the_snapshots is_CSnapshots ok_SnapshotRunningStatus h (psm_Snapshots v) \<and>
     ok_conditions h (psm_Conditions v)"

definition view_SnapshotPodStatus :: "heap \<Rightarrow> SnapshotPodStatus_mem \<Rightarrow> SnapshotPodStatus" where
  "view_SnapshotPodStatus h v = \<lparr>
     spst_Snapshots = nil_list (view_slice the_snapshots view_SnapshotRunningStatus h (psm_Snapshots v)),
     spst_Conditions = nil_list (view_conditions h (psm_Conditions v)),
     spst_LastTriggerRound = psm_LastTriggerRound v\<rparr>"

definition refs_SnapshotPodStatus :: "heap \<Rightarrow> SnapshotPodStatus_mem \<Rightarrow> addr set" where
  "refs_SnapshotPodStatus h v = refs_slice the_snapshots refs_SnapshotRunningStatus h (psm_Snapshots v) \<union>
     refs_conditions h (psm_Conditions v)"

definition ok_SnapshotPod :: "heap \<Rightarrow> SnapshotPod_mem \<Rightarrow> bool" where
  "ok_SnapshotPod h v \<longleftrightarrow> ok_SnapshotPodSpec h (pm_Spec v) \<and> ok_SnapshotPodStatus h (pm_Status v)"

definition view_SnapshotPod :: "heap \<Rightarrow> SnapshotPod_mem \<Rightarrow> type_meta \<times> SnapshotPod" where
  "view_SnapshotPod h v = (pm_TypeMeta v, \<lparr>sp_meta = pm_ObjectMeta v,
     sp_Spec = view_SnapshotPodSpec h (pm_Spec v), sp_Status = view_SnapshotPodStatus h (pm_Status v)\<rparr>)"

definition refs_SnapshotPod :: "heap \<Rightarrow> SnapshotPod_mem \<Rightarrow> addr set" where
  "refs_SnapshotPod h v = refs_SnapshotPodSpec h (pm_Spec v) \<union> refs_SnapshotPodStatus h (pm_Status v)"

definition kept_SnapshotPod :: "heap \<Rightarrow> SnapshotPod_mem \<Rightarrow> addr set" where
  "kept_SnapshotPod h v = kept_SnapshotPodSpec h (pm_Spec v)"

definition ok_SnapshotPodTaskStatus :: "heap \<Rightarrow> SnapshotPodTaskStatus_mem \<Rightarrow> bool" where
  "ok_SnapshotPodTaskStatus h v \<longleftrightarrow> ok_conditions h (tsm_Conditions v) \<and> ok_time h (tsm_LastRetryTime v)"

definition view_SnapshotPodTaskStatus :: "heap \<Rightarrow> SnapshotPodTaskStatus_mem \<Rightarrow> SnapshotPodTaskStatus" where
  "view_SnapshotPodTaskStatus h v = \<lparr>sptst_Conditions = nil_list (view_conditions h (tsm_Conditions v)),
     sptst_Phase = tsm_Phase v, sptst_RetryCount = tsm_RetryCount v,
     sptst_LastRetryTime = view_time h (tsm_LastRetryTime v)\<rparr>"

definition refs_SnapshotPodTaskStatus :: "heap \<Rightarrow> SnapshotPodTaskStatus_mem \<Rightarrow> addr set" where
  "refs_SnapshotPodTaskStatus h v = refs_conditions h (tsm_Conditions v) \<union> refs_time h (tsm_LastRetryTime v)"

definition ok_SnapshotPodTask :: "heap \<Rightarrow> SnapshotPodTask_mem \<Rightarrow> bool" where
  "ok_SnapshotPodTask h v = ok_SnapshotPodTaskStatus h (ktm_Status v)"

definition view_SnapshotPodTask :: "heap \<Rightarrow> SnapshotPodTask_mem \<Rightarrow> type_meta \<times> SnapshotPodTask" where
  "view_SnapshotPodTask h v = (ktm_TypeMeta v, \<lparr>spt_meta = ktm_ObjectMeta v, spt_Spec = ktm_Spec v,
     spt_Status = view_SnapshotPodTaskStatus h (ktm_Status v)\<rparr>)"

definition refs_SnapshotPodTask :: "heap \<Rightarrow> SnapshotPodTask_mem \<Rightarrow> addr set" where
  "refs_SnapshotPodTask h v = refs_SnapshotPodTaskStatus h (ktm_Status v)"

text \<open>Lists, from what their items stand for.\<close>
definition view_list :: "(heap \<Rightarrow> slice option \<Rightarrow> 'w list option) \<Rightarrow> heap \<Rightarrow> object_list_mem \<Rightarrow> type_meta \<times> list_meta \<times> 'w list" where
  "view_list view h v = (olm_TypeMeta v, olm_ListMeta v, nil_list (view h (olm_Items v)))"

section \<open>The contract of the library\<close>

text \<open>The library's copies return the value they are given, and a \<^verbatim>\<open>range\<close> visits every key once.\<close>
locale copy_library =
  fixes L :: deep_lib
  assumes time: "lib_Time L t = t"
    and condition: "lib_Condition L c = c"
    and object_meta: "lib_ObjectMeta L m = m"
    and list_meta: "lib_ListMeta L lm = lm"
    and range: "mset (lib_range L ks) = mset ks"

definition value_library :: deep_lib where
  "value_library = \<lparr>lib_Time = (\<lambda>t. t), lib_Condition = (\<lambda>c. c), lib_ObjectMeta = (\<lambda>m. m),
     lib_ListMeta = (\<lambda>m. m), lib_range = rev\<rparr>"

lemma deep_copy_record:
  assumes "deep_copy c ok view refs kept"
    and "\<And>x v. get (put x v) = x" "\<And>x v w. W (put x v) w = W v w"
    and "\<And>v. cp v = do { x \<leftarrow> c (get v); State_Monad.return (put x v) }"
    and "\<And>h v. okR h v = ok h (get v)" "\<And>h v. viewR h v = W v (view h (get v))"
    and "\<And>h v. refsR h v = refs h (get v)" "\<And>h v. keptR h v = kept h (get v)"
  shows "deep_copy cp okR viewR refsR keptR"
proof -
  have "cp = (\<lambda>v. do { x \<leftarrow> c (get v); State_Monad.return (put x v) })" "okR = (\<lambda>h v. ok h (get v))"
    "viewR = (\<lambda>h v. W v (view h (get v)))" "refsR = (\<lambda>h v. refs h (get v))" "keptR = (\<lambda>h v. kept h (get v))"
    using assms(4-) by (auto simp: fun_eq_iff)
  then show ?thesis using deep_copy_struct [where put = put and W = W, OF assms(1-3)] by simp
qed

lemma no_refs_simps [simp]:
  "kept_slice arr no_refs = no_refs" "kept_ptr sel no_refs = no_refs" "no_refs h v = {}"
  by (auto simp: kept_slice_def kept_ptr_def no_refs_def fun_eq_iff split: option.splits)

lemma plain_copy: "deep_copy State_Monad.return always_ok plain no_refs no_refs"
  using deep_copy_value by (simp add: always_ok_def [abs_def] plain_def [abs_def] no_refs_def [abs_def])

interpretation plain: deep_copy State_Monad.return always_ok plain no_refs no_refs
  by (rule plain_copy)

lemma suffix_copy: "deep_copy State_Monad.return ok_suffix view_suffix refs_suffix refs_suffix"
  using deep_copy_shared [where P = is_CBool and f = the_bool]
  by (simp add: ok_suffix_def [abs_def] view_suffix_def [abs_def] refs_suffix_def [abs_def])

interpretation suffix: deep_copy State_Monad.return ok_suffix view_suffix refs_suffix refs_suffix
  by (rule suffix_copy)

text \<open>Writing the entries of a map one by one into a new map, in any order of the keys.\<close>
lemma copied_map:
  assumes "distinct (map fst kvs)" "mset ks = mset (map fst kvs)"
  shows "mset (foldl (\<lambda>m k. AList.update k (map_get (Some kvs) k) m) [] ks) = mset kvs \<and>
    distinct (map fst (foldl (\<lambda>m k. AList.update k (map_get (Some kvs) k) m) [] ks))"
proof -
  let ?f = "map_get (Some kvs)"
  have new: "k \<notin> fst ` set m \<Longrightarrow> AList.update k v m = m @ [(k, v)]" for k v and m :: "(string \<times> string) list"
    by (induction m) auto
  have "distinct (map fst m @ ks) \<Longrightarrow> foldl (\<lambda>m k. AList.update k (?f k) m) m ks = m @ map (\<lambda>k. (k, ?f k)) ks" for m ks
    by (induction ks arbitrary: m) (auto simp: new)
  from this [of "[]"] have "distinct ks \<Longrightarrow> foldl (\<lambda>m k. AList.update k (?f k) m) [] ks = map (\<lambda>k. (k, ?f k)) ks" for ks
    by simp
  moreover have d: "distinct ks" using assms by (metis mset_eq_imp_distinct_iff)
  moreover have "map (\<lambda>k. (k, ?f k)) (map fst kvs) = kvs"
    using assms(1) by (auto simp: map_get_def map_entries_def intro!: map_idI split: option.splits)
  ultimately show ?thesis
    by (metis (no_types, lifting) assms d map_map map_idI mset_map fst_conv comp_apply)
qed

section \<open>Every function meets the contract\<close>

context copy_library
begin

lemma value_copy:
  "(\<And>v. f v = v) \<Longrightarrow> deep_copy (\<lambda>v. State_Monad.return (f v)) always_ok plain no_refs no_refs"
  using plain_copy by simp

lemma time_copy: "deep_copy (copy_time L) ok_time view_time refs_time no_refs"
  using deep_copy.pointer [OF value_copy [of "lib_Time L"], of the_time CTime is_CTime]
  by (simp add: time copy_time_def)

lemma strings_copy: "deep_copy copy_strings (ok_slice the_strings is_CStrings always_ok)
    (view_slice the_strings plain) (refs_slice the_strings no_refs) no_refs"
  using plain.slice [of the_strings CStrings is_CStrings "[]"] by (simp add: copy_strings_def)

lemma conditions_copy: "deep_copy (copy_conditions L) ok_conditions view_conditions refs_conditions no_refs"
  using deep_copy.slice [OF value_copy [of "lib_Condition L"], of the_conditions CConditions is_CConditions]
  by (simp add: condition copy_conditions_def)

lemma selector_copy: "deep_copy (copy_selector L) ok_selector view_selector refs_selector no_refs"
proof (unfold_locales, goal_cases)
  case (1 h v a)
  then show ?case by (auto simp: ok_selector_def refs_selector_def)
next
  case (3 h v h')
  then show ?case by (cases v) (auto simp: ok_selector_def view_selector_def refs_selector_def same_cells_def)
next
  case (4 h v v' h')
  show ?case
  proof (cases v)
    case (Some a)
    let ?m = "the_map (h ! a)"
    let ?m' = "foldl (\<lambda>m k. AList.update k (map_get (Some ?m) k) m) [] (lib_range L (map fst ?m))"
    have a: "a < length h" "distinct (map fst ?m)" using 4(1) Some by (simp_all add: ok_selector_def)
    have v': "v' = Some (length h)" "h' = h @ [CMap ?m']"
      using 4(2) Some a by (auto simp: copy_selector_def nth_append)
    note m = copied_map [OF a(2) range]
    have "inj_on fst (set ?m)" using a(2) by (simp add: distinct_map)
    then have "sort_key fst ?m = sort_key fst ?m'"
      using m by (intro sort_key_inj_key_eq) simp_all
    then show ?thesis using v' m Some a
      by (auto simp: ok_selector_def view_selector_def refs_selector_def)
  qed (use 4 in \<open>simp add: copy_selector_def ok_selector_def view_selector_def refs_selector_def\<close>)
qed simp

lemma target_copy: "deep_copy (TargetPod_DeepCopyInto L) ok_TargetPod view_TargetPod refs_TargetPod no_refs"
  by (rule deep_copy_record [OF deep_copy_pair [OF selector_copy strings_copy],
      where get = "\<lambda>v. (tpm_Selector v, tpm_Containers v)"
        and put = "\<lambda>x v. v\<lparr>tpm_Selector := fst x, tpm_Containers := snd x\<rparr>"
        and W = "\<lambda>v w. \<lparr>tp_Name = tpm_Name v, tp_Selector = fst w, tp_Containers = nil_list (snd w)\<rparr>"])
    (simp_all add: TargetPod_DeepCopyInto_def ok_TargetPod_def view_TargetPod_def refs_TargetPod_def)

lemma image_save_copy: "deep_copy ImageSaveOptions_DeepCopyInto (\<lambda>h v. ok_suffix h (ism_AppendSnappedSuffix v))
    view_ImageSaveOptions (\<lambda>h v. refs_suffix h (ism_AppendSnappedSuffix v)) (\<lambda>h v. refs_suffix h (ism_AppendSnappedSuffix v))"
  by (rule deep_copy_record [OF suffix_copy, where get = ism_AppendSnappedSuffix
        and put = "\<lambda>x v. v\<lparr>ism_AppendSnappedSuffix := x\<rparr>"
        and W = "\<lambda>v w. \<lparr>iso_ImageRefFormat = ism_ImageRefFormat v, iso_RegistrySecretRef = ism_RegistrySecretRef v,
          iso_AppendSnappedSuffix = w, iso_MaxRetries = ism_MaxRetries v, iso_RetryDelaySeconds = ism_RetryDelaySeconds v\<rparr>"])
    (simp_all add: ImageSaveOptions_DeepCopyInto_def view_ImageSaveOptions_def)

lemma spec_copy: "deep_copy (SnapshotPodSpec_DeepCopyInto L) ok_SnapshotPodSpec view_SnapshotPodSpec
    refs_SnapshotPodSpec kept_SnapshotPodSpec"
  by (rule deep_copy_record [OF deep_copy_pair [OF target_copy image_save_copy],
      where get = "\<lambda>v. (spm_Target v, spm_ImageSaveOptions v)"
        and put = "\<lambda>x v. v\<lparr>spm_Target := fst x, spm_ImageSaveOptions := snd x\<rparr>"
        and W = "\<lambda>v w. \<lparr>sps_Target = fst w, sps_CommitOptions = spm_CommitOptions v, sps_ImageSaveOptions = snd w,
          sps_AutoSaveOptions = spm_AutoSaveOptions v, sps_TriggerRound = spm_TriggerRound v,
          sps_RecoveryRound = spm_RecoveryRound v\<rparr>"])
    (simp_all add: SnapshotPodSpec_DeepCopyInto_def ImageSaveOptions_DeepCopyInto_def ok_SnapshotPodSpec_def
      view_SnapshotPodSpec_def refs_SnapshotPodSpec_def kept_SnapshotPodSpec_def)

lemma running_copy: "deep_copy (SnapshotRunningStatus_DeepCopyInto L) ok_SnapshotRunningStatus
    view_SnapshotRunningStatus refs_SnapshotRunningStatus no_refs"
  by (rule deep_copy_record [OF time_copy, where get = srm_CompletedAt and put = "\<lambda>x v. v\<lparr>srm_CompletedAt := x\<rparr>"
        and W = "\<lambda>v w. \<lparr>srs_TriggerRound = srm_TriggerRound v, srs_TriggerTime = srm_TriggerTime v,
          srs_TaskName = srm_TaskName v, srs_ImageRef = srm_ImageRef v, srs_ContainerName = srm_ContainerName v,
          srs_Result = srm_Result v, srs_FailedReason = srm_FailedReason v, srs_CompletedAt = w\<rparr>"])
    (simp_all add: SnapshotRunningStatus_DeepCopyInto_def time ok_SnapshotRunningStatus_def
      view_SnapshotRunningStatus_def refs_SnapshotRunningStatus_def)

lemma snapshots_copy: "deep_copy (copy_slice the_snapshots CSnapshots zero_snapshot (SnapshotRunningStatus_DeepCopyInto L))
    (ok_slice the_snapshots is_CSnapshots ok_SnapshotRunningStatus) (view_slice the_snapshots view_SnapshotRunningStatus)
    (refs_slice the_snapshots refs_SnapshotRunningStatus) no_refs"
  using deep_copy.slice [OF running_copy, of the_snapshots CSnapshots is_CSnapshots zero_snapshot] by simp

lemma status_copy: "deep_copy (SnapshotPodStatus_DeepCopyInto L) ok_SnapshotPodStatus view_SnapshotPodStatus
    refs_SnapshotPodStatus no_refs"
  by (rule deep_copy_record [OF deep_copy_pair [OF snapshots_copy conditions_copy],
      where get = "\<lambda>v. (psm_Snapshots v, psm_Conditions v)"
        and put = "\<lambda>x v. v\<lparr>psm_Snapshots := fst x, psm_Conditions := snd x\<rparr>"
        and W = "\<lambda>v w. \<lparr>spst_Snapshots = nil_list (fst w), spst_Conditions = nil_list (snd w),
          spst_LastTriggerRound = psm_LastTriggerRound v\<rparr>"])
    (simp_all add: SnapshotPodStatus_DeepCopyInto_def ok_SnapshotPodStatus_def view_SnapshotPodStatus_def
      refs_SnapshotPodStatus_def)

lemma pod_copy: "deep_copy (SnapshotPod_DeepCopyInto L) ok_SnapshotPod view_SnapshotPod refs_SnapshotPod kept_SnapshotPod"
  by (rule deep_copy_record [OF deep_copy_pair [OF spec_copy status_copy],
      where get = "\<lambda>v. (pm_Spec v, pm_Status v)" and put = "\<lambda>x v. v\<lparr>pm_Spec := fst x, pm_Status := snd x\<rparr>"
        and W = "\<lambda>v w. (pm_TypeMeta v, \<lparr>sp_meta = pm_ObjectMeta v, sp_Spec = fst w, sp_Status = snd w\<rparr>)"])
    (simp_all add: SnapshotPod_DeepCopyInto_def object_meta ok_SnapshotPod_def view_SnapshotPod_def
      refs_SnapshotPod_def kept_SnapshotPod_def)

lemma pods_copy: "deep_copy (copy_slice the_pods CPods zero_pod (SnapshotPod_DeepCopyInto L))
    (ok_slice the_pods is_CPods ok_SnapshotPod) (view_slice the_pods view_SnapshotPod)
    (refs_slice the_pods refs_SnapshotPod) (kept_slice the_pods kept_SnapshotPod)"
  by (rule deep_copy.slice [OF pod_copy]) simp_all

lemma pod_list_copy: "deep_copy (SnapshotPodList_DeepCopyInto L)
    (\<lambda>h v. ok_slice the_pods is_CPods ok_SnapshotPod h (olm_Items v)) (view_list (view_slice the_pods view_SnapshotPod))
    (\<lambda>h v. refs_slice the_pods refs_SnapshotPod h (olm_Items v)) (\<lambda>h v. kept_slice the_pods kept_SnapshotPod h (olm_Items v))"
  by (rule deep_copy_record [OF pods_copy, where get = olm_Items and put = "\<lambda>x v. v\<lparr>olm_Items := x\<rparr>"
        and W = "\<lambda>v w. (olm_TypeMeta v, olm_ListMeta v, nil_list w)"])
    (simp_all add: SnapshotPodList_DeepCopyInto_def view_list_def list_meta)

lemma task_status_copy: "deep_copy (SnapshotPodTaskStatus_DeepCopyInto L) ok_SnapshotPodTaskStatus
    view_SnapshotPodTaskStatus refs_SnapshotPodTaskStatus no_refs"
  by (rule deep_copy_record [OF deep_copy_pair [OF conditions_copy time_copy],
      where get = "\<lambda>v. (tsm_Conditions v, tsm_LastRetryTime v)"
        and put = "\<lambda>x v. v\<lparr>tsm_Conditions := fst x, tsm_LastRetryTime := snd x\<rparr>"
        and W = "\<lambda>v w. \<lparr>sptst_Conditions = nil_list (fst w), sptst_Phase = tsm_Phase v,
          sptst_RetryCount = tsm_RetryCount v, sptst_LastRetryTime = snd w\<rparr>"])
    (simp_all add: SnapshotPodTaskStatus_DeepCopyInto_def ok_SnapshotPodTaskStatus_def view_SnapshotPodTaskStatus_def
      refs_SnapshotPodTaskStatus_def)

lemma task_copy: "deep_copy (SnapshotPodTask_DeepCopyInto L) ok_SnapshotPodTask view_SnapshotPodTask refs_SnapshotPodTask no_refs"
  by (rule deep_copy_record [OF task_status_copy, where get = ktm_Status and put = "\<lambda>x v. v\<lparr>ktm_Status := x\<rparr>"
        and W = "\<lambda>v w. (ktm_TypeMeta v, \<lparr>spt_meta = ktm_ObjectMeta v, spt_Spec = ktm_Spec v, spt_Status = w\<rparr>)"])
    (simp_all add: SnapshotPodTask_DeepCopyInto_def object_meta ok_SnapshotPodTask_def view_SnapshotPodTask_def
      refs_SnapshotPodTask_def)

lemma tasks_copy: "deep_copy (copy_slice the_tasks CTasks zero_task (SnapshotPodTask_DeepCopyInto L))
    (ok_slice the_tasks is_CTasks ok_SnapshotPodTask) (view_slice the_tasks view_SnapshotPodTask)
    (refs_slice the_tasks refs_SnapshotPodTask) no_refs"
  using deep_copy.slice [OF task_copy, of the_tasks CTasks is_CTasks zero_task] by simp

lemma task_list_copy: "deep_copy (SnapshotPodTaskList_DeepCopyInto L)
    (\<lambda>h v. ok_slice the_tasks is_CTasks ok_SnapshotPodTask h (olm_Items v))
    (view_list (view_slice the_tasks view_SnapshotPodTask))
    (\<lambda>h v. refs_slice the_tasks refs_SnapshotPodTask h (olm_Items v)) no_refs"
  by (rule deep_copy_record [OF tasks_copy, where get = olm_Items and put = "\<lambda>x v. v\<lparr>olm_Items := x\<rparr>"
        and W = "\<lambda>v w. (olm_TypeMeta v, olm_ListMeta v, nil_list w)"])
    (simp_all add: SnapshotPodTaskList_DeepCopyInto_def view_list_def list_meta)

end

sublocale copy_library \<subseteq> target: deep_copy "TargetPod_DeepCopyInto L" ok_TargetPod view_TargetPod refs_TargetPod no_refs
  by (rule target_copy)

sublocale copy_library \<subseteq> pod: deep_copy "SnapshotPod_DeepCopy L" "ok_ptr the_Pod is_CPod ok_SnapshotPod"
    "view_ptr the_Pod view_SnapshotPod" "refs_ptr the_Pod refs_SnapshotPod" "kept_ptr the_Pod kept_SnapshotPod"
  unfolding SnapshotPod_DeepCopy_def by (rule deep_copy.pointer [OF pod_copy]) simp_all

sublocale copy_library \<subseteq> pod_list: deep_copy "SnapshotPodList_DeepCopyInto L"
    "\<lambda>h v. ok_slice the_pods is_CPods ok_SnapshotPod h (olm_Items v)" "view_list (view_slice the_pods view_SnapshotPod)"
    "\<lambda>h v. refs_slice the_pods refs_SnapshotPod h (olm_Items v)" "\<lambda>h v. kept_slice the_pods kept_SnapshotPod h (olm_Items v)"
  by (rule pod_list_copy)

sublocale copy_library \<subseteq> task: deep_copy "SnapshotPodTask_DeepCopy L" "ok_ptr the_Task is_CTask ok_SnapshotPodTask"
    "view_ptr the_Task view_SnapshotPodTask" "refs_ptr the_Task refs_SnapshotPodTask" no_refs
  unfolding SnapshotPodTask_DeepCopy_def
  using deep_copy.pointer [OF task_copy, of the_Task CTask is_CTask] by simp

sublocale copy_library \<subseteq> task_list: deep_copy "SnapshotPodTaskList_DeepCopyInto L"
    "\<lambda>h v. ok_slice the_tasks is_CTasks ok_SnapshotPodTask h (olm_Items v)"
    "view_list (view_slice the_tasks view_SnapshotPodTask)"
    "\<lambda>h v. refs_slice the_tasks refs_SnapshotPodTask h (olm_Items v)" no_refs
  by (rule task_list_copy)

context copy_library
begin

lemmas pod_copies = pod.copies
lemmas task_copies = task.copies
lemmas task_original_unaffected = task.original_unaffected
lemmas task_copy_unaffected = task.copy_unaffected

end

interpretation value_lib: copy_library value_library
  by unfold_locales (simp_all add: value_library_def)

section \<open>Properties\<close>

text \<open>The SnapshotPod and the task behind a pointer, and the memory it reaches.\<close>
abbreviation pod_at :: "heap \<Rightarrow> addr option \<Rightarrow> (type_meta \<times> SnapshotPod) option" where
  "pod_at \<equiv> view_ptr the_Pod view_SnapshotPod"

abbreviation task_at :: "heap \<Rightarrow> addr option \<Rightarrow> (type_meta \<times> SnapshotPodTask) option" where
  "task_at \<equiv> view_ptr the_Task view_SnapshotPodTask"

abbreviation pod_memory :: "heap \<Rightarrow> addr option \<Rightarrow> addr set" where
  "pod_memory \<equiv> refs_ptr the_Pod refs_SnapshotPod"

abbreviation task_memory :: "heap \<Rightarrow> addr option \<Rightarrow> addr set" where
  "task_memory \<equiv> refs_ptr the_Task refs_SnapshotPodTask"

lemma pod_copy_suffix:
  "run_state (SnapshotPod_DeepCopyInto L v) h = (v', h') \<Longrightarrow> suffix_of (pm_Spec v') = suffix_of (pm_Spec v)"
  by (auto simp: SnapshotPod_DeepCopyInto_def SnapshotPodSpec_DeepCopyInto_def split: prod.splits)

lemma copy_new_result:
  assumes "deep_copy into ok view refs kept" and "ok h (sel (h ! a))"
    and "run_state (copy_new sel mk into (Some a)) h = (q, h')"
  shows "\<exists>v h2. run_state (into (sel (h ! a))) (h @ [mk (sel (h ! a))]) = (v, h2) \<and>
    q = Some (length h) \<and> h' ! length h = mk v"
proof -
  obtain v h2 where r: "run_state (into (sel (h ! a))) (h @ [mk (sel (h ! a))]) = (v, h2)" by force
  have "prefix h (h @ [mk (sel (h ! a))])" by simp
  from deep_copy.copies [OF assms(1) _ r] deep_copy.frame_prefix [OF assms(1,2) this]
  have "length h < length h2" by (auto dest: prefix_length_le)
  then show ?thesis using assms(3) r by (auto simp: copy_new_def)
qed

text \<open>C33: A deep copy of a SnapshotPodTask stands for the same resource, leaves all existing memory
  as it is and shares none of it; so whatever is then written to the memory of the copy is not seen
  through the original, and whatever is written to that of the original is not seen through the copy.\<close>
theorem task_copy_independent:
  assumes "copy_library L" and "ok_ptr the_Task is_CTask ok_SnapshotPodTask h p"
    and "run_state (SnapshotPodTask_DeepCopyObject L p) h = (obj, h')"
  shows "\<exists>q. obj = map_option ObjSnapshotPodTask q \<and> task_at h' q = task_at h p \<and> prefix h h' \<and>
    task_memory h' q \<inter> {..<length h} = {} \<and>
    (\<forall>h''. same_cells ({..<length h'} - task_memory h' q) h' h'' \<longrightarrow> task_at h'' p = task_at h p) \<and>
    (\<forall>h''. same_cells ({..<length h'} - task_memory h p) h' h'' \<longrightarrow> task_at h'' q = task_at h p)"
proof -
  obtain q where r: "run_state (SnapshotPodTask_DeepCopy L p) h = (q, h')" and "obj = map_option ObjSnapshotPodTask q"
    using assms(3) by (auto simp: SnapshotPodTask_DeepCopyObject_def split: prod.splits option.splits)
  with copy_library.task_copies [OF assms(1,2) r] copy_library.task_original_unaffected [OF assms(1,2) r]
    copy_library.task_copy_unaffected [OF assms(1,2) r]
  show ?thesis by (intro exI [of _ q]) simp
qed

text \<open>A task with one condition and a retry time.\<close>
definition sample_task :: SnapshotPodTask_mem where
  "sample_task = zero_task\<lparr>ktm_Status := \<lparr>tsm_Conditions = Some \<lparr>sl_array = 0, sl_off = 0, sl_len = 1\<rparr>,
     tsm_Phase = PhaseCreated, tsm_RetryCount = 1, tsm_LastRetryTime = Some 1\<rparr>\<rparr>"

definition sample_task_heap :: heap where
  "sample_task_heap = [CConditions [zero_condition\<lparr>cond_Type := ''Accept''\<rparr>], CTime 5, CTask sample_task]"

lemma sample_task_ok: "ok_ptr the_Task is_CTask ok_SnapshotPodTask sample_task_heap (Some 2)"
  by (simp add: sample_task_heap_def sample_task_def ok_ptr_def ok_SnapshotPodTask_def ok_SnapshotPodTaskStatus_def
      ok_slice_def always_ok_def)

lemma task_copy_independent_witness:
  "\<exists>q h'. run_state (SnapshotPodTask_DeepCopyObject value_library (Some 2)) sample_task_heap = (q, h') \<and>
     q = Some (ObjSnapshotPodTask 3) \<and> task_at h' (Some 3) = task_at sample_task_heap (Some 2) \<and>
     task_memory h' (Some 3) \<inter> {..<3} = {}"
proof -
  obtain obj h' where r: "run_state (SnapshotPodTask_DeepCopyObject value_library (Some 2)) sample_task_heap = (obj, h')"
    by force
  have obj: "obj = Some (ObjSnapshotPodTask 3)"
    using r by (auto simp: SnapshotPodTask_DeepCopyObject_def SnapshotPodTask_DeepCopy_def copy_new_def
        sample_task_heap_def split: prod.splits)
  obtain q where q: "obj = map_option ObjSnapshotPodTask q" "task_at h' q = task_at sample_task_heap (Some 2)"
    "task_memory h' q \<inter> {..<length sample_task_heap} = {}"
    using task_copy_independent [OF value_lib.copy_library_axioms sample_task_ok r] by blast
  have "q = Some 3" using obj q(1) by (cases q) auto
  moreover have "length sample_task_heap = 3" by (simp add: sample_task_heap_def)
  ultimately show ?thesis using r obj q by simp
qed

text \<open>C34: A deep copy of a SnapshotPod stands for the same resource and leaves all existing memory as
  it is, but the cell behind \<^verbatim>\<open>spec.imageSaveOptions.appendSnappedSuffix\<close> is shared: it is the only cell the copy
  has in common with the original, and a value written through the pointer of the copy is read
  through the original.\<close>
theorem pod_copy_shares_suffix:
  assumes "copy_library L" and "ok_ptr the_Pod is_CPod ok_SnapshotPod h (Some a)"
    and "run_state (SnapshotPod_DeepCopyObject L (Some a)) h = (obj, h')"
  shows "\<exists>b. obj = Some (ObjSnapshotPod b) \<and> pod_at h' (Some b) = pod_at h (Some a) \<and> prefix h h' \<and>
    pod_memory h' (Some b) \<inter> {..<length h} = set_option (suffix_of (pm_Spec (the_Pod (h ! a)))) \<and>
    (\<forall>c x. suffix_of (pm_Spec (the_Pod (h' ! b))) = Some c \<longrightarrow>
      iso_AppendSnappedSuffix (sps_ImageSaveOptions (sp_Spec (snd (view_SnapshotPod (h'[c := CBool x]) (the_Pod (h ! a)))))) = Some x)"
proof -
  obtain q where r: "run_state (SnapshotPod_DeepCopy L (Some a)) h = (q, h')" and obj: "obj = map_option ObjSnapshotPod q"
    using assms(3) by (auto simp: SnapshotPod_DeepCopyObject_def split: prod.splits option.splits)
  note c = copy_library.pod_copies [OF assms(1,2) r]
  have o: "ok_SnapshotPod h (the_Pod (h ! a))" using assms(2) by (simp add: ok_ptr_def)
  obtain v h2 where v: "run_state (SnapshotPod_DeepCopyInto L (the_Pod (h ! a))) (h @ [CPod (the_Pod (h ! a))]) = (v, h2)"
    and q: "q = Some (length h)" "h' ! length h = CPod v"
    using copy_new_result [OF copy_library.pod_copy [OF assms(1)] o r [unfolded SnapshotPod_DeepCopy_def]] by auto
  have s: "suffix_of (pm_Spec (the_Pod (h' ! length h))) = suffix_of (pm_Spec (the_Pod (h ! a)))"
    using pod_copy_suffix [OF v] q(2) by simp
  have k: "kept_ptr the_Pod kept_SnapshotPod h (Some a) = set_option (suffix_of (pm_Spec (the_Pod (h ! a))))"
    by (simp add: kept_ptr_def kept_SnapshotPod_def kept_SnapshotPodSpec_def refs_suffix_def)
  have "c < length h'" if "suffix_of (pm_Spec (the_Pod (h ! a))) = Some c" for c
    using o that prefix_length_le [of h h'] copy_library.pod_copies [OF assms(1,2) r]
    by (auto simp: ok_SnapshotPod_def ok_SnapshotPodSpec_def ok_suffix_def)
  then have w: "iso_AppendSnappedSuffix (sps_ImageSaveOptions (sp_Spec (snd (view_SnapshotPod (h'[c := CBool x]) (the_Pod (h ! a)))))) = Some x"
    if "suffix_of (pm_Spec (the_Pod (h ! a))) = Some c" for c x
    using that by (simp add: view_SnapshotPod_def view_SnapshotPodSpec_def view_ImageSaveOptions_def view_suffix_def)
  show ?thesis using c obj q k s w by (intro exI [of _ "length h"]) simp
qed

text \<open>A SnapshotPod with a selector, a window of an array of container names, and the pointer.\<close>
definition sample_pod :: SnapshotPod_mem where
  "sample_pod = zero_pod\<lparr>pm_Spec := (pm_Spec zero_pod)\<lparr>
     spm_Target := \<lparr>tpm_Name = [], tpm_Selector = Some 1, tpm_Containers = Some \<lparr>sl_array = 2, sl_off = 1, sl_len = 1\<rparr>\<rparr>,
     spm_ImageSaveOptions := (spm_ImageSaveOptions (pm_Spec zero_pod))\<lparr>ism_AppendSnappedSuffix := Some 0\<rparr>\<rparr>\<rparr>"

definition sample_pod_heap :: heap where
  "sample_pod_heap = [CBool True, CMap [(''tier'', ''web''), (''app'', ''shop'')], CStrings [''x'', ''main'', ''y''], CPod sample_pod]"

lemma sample_pod_ok: "ok_ptr the_Pod is_CPod ok_SnapshotPod sample_pod_heap (Some 3)"
  by (simp add: sample_pod_heap_def sample_pod_def zero_pod_def ok_ptr_def ok_SnapshotPod_def ok_SnapshotPodSpec_def
      ok_TargetPod_def ok_selector_def ok_suffix_def ok_SnapshotPodStatus_def ok_slice_def always_ok_def elems_def)

lemma pod_copy_shares_suffix_witness:
  "\<exists>b h'. run_state (SnapshotPod_DeepCopyObject value_library (Some 3)) sample_pod_heap = (Some (ObjSnapshotPod b), h') \<and>
     pod_at h' (Some b) = pod_at sample_pod_heap (Some 3) \<and> pod_memory h' (Some b) \<inter> {..<4} = {0}"
proof -
  obtain obj h' where r: "run_state (SnapshotPod_DeepCopyObject value_library (Some 3)) sample_pod_heap = (obj, h')"
    by force
  moreover have "length sample_pod_heap = 4" "the_Pod (sample_pod_heap ! 3) = sample_pod"
    "suffix_of (pm_Spec sample_pod) = Some 0"
    by (simp_all add: sample_pod_heap_def sample_pod_def)
  ultimately show ?thesis
    using pod_copy_shares_suffix [OF value_lib.copy_library_axioms sample_pod_ok r] by auto
qed

end
